(* ===== verification/Runs.thy ===== *)
theory Runs
  imports Main
begin

section \<open>Runs of step relations\<close>

text \<open>
  The step relations of the components are relations \<open>step s e s'\<close> between a state, an event and
  the next state. What their proofs share: runs, invariants, and the projection of the runs of a
  system to those of one of its parts.
\<close>

inductive run :: "('s \<Rightarrow> 'e \<Rightarrow> 's \<Rightarrow> bool) \<Rightarrow> 's \<Rightarrow> 'e list \<Rightarrow> 's \<Rightarrow> bool" for step where
  run_Nil: "run step s [] s"
| run_Cons: "step s e s' \<Longrightarrow> run step s' es s'' \<Longrightarrow> run step s (e # es) s''"

inductive_simps run_Nil_iff [simp]: "run step s [] s'"
inductive_simps run_Cons_iff: "run step s (e # es) s'"

lemma run_append: "run step s (es @ fs) s' \<longleftrightarrow> (\<exists>t. run step s es t \<and> run step t fs s')"
  by (induction es arbitrary: s) (auto simp: run_Cons_iff)

lemma run_single: "run step s [e] s' \<longleftrightarrow> step s e s'"
  by (simp add: run_Cons_iff)

lemma run_snoc: "run step s es t \<Longrightarrow> step t e s' \<Longrightarrow> run step s (es @ [e]) s'"
  by (auto simp: run_append run_single)

text \<open>A property that every step keeps holds along every run.\<close>

locale step_invariant =
  fixes step :: "'s \<Rightarrow> 'e \<Rightarrow> 's \<Rightarrow> bool"
    and inv :: "'s \<Rightarrow> bool"
  assumes inv_step: "inv s \<Longrightarrow> step s e s' \<Longrightarrow> inv s'"
begin

lemma inv_run: "run step s es s' \<Longrightarrow> inv s \<Longrightarrow> inv s'"
  by (induction rule: run.induct) (auto dest: inv_step)

end

text \<open>
  A system whose steps move one of its parts by a step of that part's own, or leave it alone: its
  runs project to runs of the part. An invariant of the part is then one of the system.
\<close>

locale projection =
  fixes step :: "'s \<Rightarrow> 'e \<Rightarrow> 's \<Rightarrow> bool"
    and part :: "'s \<Rightarrow> 'p"
    and pstep :: "'p \<Rightarrow> 'f \<Rightarrow> 'p \<Rightarrow> bool"
  assumes part_step: "step s e s' \<Longrightarrow> \<exists>fs. run pstep (part s) fs (part s')"
begin

lemma part_run: "run step s es s' \<Longrightarrow> \<exists>fs. run pstep (part s) fs (part s')"
proof (induction rule: run.induct)
  case (run_Nil s)
  show ?case by (rule exI [of _ "[]"]) simp
next
  case (run_Cons s e s' es s'')
  then show ?case using part_step [of s e s'] run_append [of pstep] by metis
qed

end

locale projected_invariant =
  projection step part pstep + part: step_invariant pstep pinv
  for step :: "'s \<Rightarrow> 'e \<Rightarrow> 's \<Rightarrow> bool"
    and part :: "'s \<Rightarrow> 'p"
    and pstep :: "'p \<Rightarrow> 'f \<Rightarrow> 'p \<Rightarrow> bool"
    and pinv :: "'p \<Rightarrow> bool"
begin

sublocale step_invariant step "\<lambda>s. pinv (part s)"
  using part_step part.inv_run by unfold_locales blast

end

text \<open>
  A run that goes on as long as there is something left to do: every state that is not done has a
  step to a state of a smaller measure. The steps are chosen, so this is a possibility, not fairness.
\<close>

locale drainable = step_invariant step inv
  for step :: "'s \<Rightarrow> 'e \<Rightarrow> 's \<Rightarrow> bool" and inv +
  fixes finished :: "'s \<Rightarrow> bool"
    and left :: "'s \<Rightarrow> nat"
  assumes progress: "inv s \<Longrightarrow> \<not> finished s \<Longrightarrow> \<exists>e s'. step s e s' \<and> left s' < left s"
begin

lemma drains: "inv s \<Longrightarrow> \<exists>es s'. run step s es s' \<and> finished s' \<and> length es \<le> left s"
proof (induction "left s" arbitrary: s rule: less_induct)
  case less
  show ?case
  proof (cases "finished s")
    case True
    then show ?thesis by (intro exI [of _ "[]"]) auto
  next
    case False
    then obtain e s' where st: "step s e s'" "left s' < left s" using progress less.prems by blast
    then obtain es s'' where "run step s' es s''" "finished s''" "length es \<le> left s'"
      using less.hyps [of s'] inv_step [OF less.prems] by blast
    then show ?thesis using st by (intro exI [of _ "e # es"] exI [of _ s'']) (auto simp: run_Cons_iff)
  qed
qed

end

end
