(* ===== verification/Prelude.thy ===== *)
theory Prelude
  imports Main "HOL-Library.Word"
begin

section \<open>Prelude: machine types, results, text\<close>

text \<open>
  What every component shares: the machine types of the program (\<open>uint8_t\<close> to \<open>uint64_t\<close>
  as words of that width, \<open>std::string\<close> as a list of bytes), the errors its code can raise or
  run into, a result type with its bind, and byte strings written as character literals.
\<close>

subsection \<open>Machine types\<close>

type_synonym u8 = "8 word"
type_synonym u16 = "16 word"
type_synonym u32 = "32 word"
type_synonym u64 = "64 word"

text \<open>A \<open>std::string\<close> is a sequence of bytes, embedded zeros included.\<close>

type_synonym bytes = "u8 list"

text \<open>The bytes of a string literal of the source.\<close>

definition lit :: "string \<Rightarrow> bytes" where
  "lit s = map of_char s"

lemma length_lit [simp]: "length (lit s) = length s"
  by (simp add: lit_def)

lemma lit_Nil [simp]: "lit [] = []"
  by (simp add: lit_def)

lemma lit_append: "lit (s @ t) = lit s @ lit t"
  by (simp add: lit_def)

subsection \<open>Errors and results\<close>

text \<open>
  \<open>Out_of_bounds\<close> stands for a read outside the buffer that \<open>std::string::c_str\<close> returns: the
  code has no check there, so such a read is undefined behaviour. The model stops at it, since
  nothing after it is defined. \<open>Use_after_free\<close> is the use of an object that was destroyed or
  freed, \<open>Null_pointer\<close> that of a null pointer, \<open>Indeterminate\<close> that of a buffer nobody wrote. The others
  are C++ exceptions: \<open>CryptoPP::BERDecodeErr\<close>, the \<open>OpenErr\<close> of CryptoPP's file filters,
  \<open>std::out_of_range\<close> and \<open>std::runtime_error\<close> with its text.
\<close>

datatype error =
    Out_of_bounds
  | Use_after_free
  | Null_pointer
  | Indeterminate
  | BERDecodeErr
  | File_OpenErr
  | Out_of_range
  | Runtime_error string

type_synonym 'a result = "error + 'a"

fun rbind :: "'e + 'a \<Rightarrow> ('a \<Rightarrow> 'e + 'b) \<Rightarrow> 'e + 'b" where
  "rbind (Inl e) f = Inl e"
| "rbind (Inr x) f = f x"

lemma rbind_cong [fundef_cong]:
  "m = m' \<Longrightarrow> (\<And>x. m' = Inr x \<Longrightarrow> f x = g x) \<Longrightarrow> rbind m f = rbind m' g"
  by (cases m') auto

lemma rbind_eq_Inr: "rbind m f = Inr y \<longleftrightarrow> (\<exists>x. m = Inr x \<and> f x = Inr y)"
  by (cases m) auto

lemma rbind_InrE [elim!]:
  "rbind m f = Inr y \<Longrightarrow> (\<And>x. m = Inr x \<Longrightarrow> f x = Inr y \<Longrightarrow> P) \<Longrightarrow> P"
  by (cases m) auto

lemma Inr_rbindE: "Inr y = rbind m f \<Longrightarrow> (\<And>x. m = Inr x \<Longrightarrow> f x = Inr y \<Longrightarrow> P) \<Longrightarrow> P"
  by (cases m) auto

lemma rbind_eq_Inl: "rbind m f = Inl e \<longleftrightarrow> m = Inl e \<or> (\<exists>x. m = Inr x \<and> f x = Inl e)"
  by (cases m) auto

lemma Inl_eq_rbind: "Inl e = rbind m f \<longleftrightarrow> m = Inl e \<or> (\<exists>x. m = Inr x \<and> f x = Inl e)"
  by (cases m) auto

lemma rbind_assoc: "rbind (rbind m f) g = rbind m (\<lambda>x. rbind (f x) g)"
  by (cases m) auto

subsection \<open>Words\<close>

text \<open>A length stored in a narrower integer (the code casts \<open>size()\<close> to \<open>uint32_t\<close>).\<close>

lemma unat_of_nat_small: "n < 2 ^ LENGTH('a::len) \<Longrightarrow> unat (word_of_nat n :: 'a word) = n"
  by (simp add: unat_of_nat take_bit_nat_eq_self)

text \<open>Cutting a 64-bit value that fits 32 bits changes nothing, and its high half is zero.\<close>

lemma u64_small:
  fixes w :: u64
  assumes "w < 2 ^ 32"
  shows "take_bit 32 w = w" and "drop_bit 32 w = 0"
proof -
  have u: "unat w < 2 ^ 32" using assms by (simp add: word_less_nat_alt)
  then have "unat (take_bit 32 w) = unat w"
    by (simp add: unsigned_take_bit_eq take_bit_nat_eq_self)
  then show t: "take_bit 32 w = w" by (simp only: word_unat_eq_iff)
  then show "drop_bit 32 w = 0" by (metis take_bit_eq_self_iff_drop_bit_eq_0)
qed

subsection \<open>Collections of rewrite rules\<close>

named_theorems wire_simps \<open>what a decoder's loads return, and where they move the cursor\<close>

end
