(* ===== verification/Bytes.thy ===== *)
theory Bytes
  imports Prelude
begin

section \<open>Bytes in memory: little-endian integers, buffers, cursors\<close>

text \<open>
  The serialisers write integers with \<open>s.write(reinterpret_cast<const char *>(&x), sizeof x)\<close>
  and the decoders read them back with \<open>*reinterpret_cast<const uint32_t *>(&data[cr])\<close> from
  \<open>serial.c_str()\<close>. This theory holds both, for a little-endian machine on which unaligned
  loads work (x86-64, the build's target), and the two contracts the decoders share as locales:
  \<open>cursor_reader\<close> (a decoder moves its cursor forward and stays inside the buffer) and
  \<open>cursor_codec\<close> (it reads back what its serialiser wrote, wherever that stands).
\<close>

subsection \<open>Little-endian integers\<close>

primrec le_bytes :: "nat \<Rightarrow> 'a::len word \<Rightarrow> bytes" where
  "le_bytes 0 w = []"
| "le_bytes (Suc n) w = ucast w # le_bytes n (drop_bit 8 w)"

primrec from_le :: "bytes \<Rightarrow> 'a::len word" where
  "from_le [] = 0"
| "from_le (b # bs) = or (ucast b) (push_bit 8 (from_le bs))"

lemma length_le_bytes [simp]: "length (le_bytes n w) = n"
  by (induction n arbitrary: w) simp_all

lemma bit_from_le:
  "bit (from_le bs :: 'a::len word) i \<longleftrightarrow>
     i < LENGTH('a) \<and> i div 8 < length bs \<and> bit (bs ! (i div 8)) (i mod 8)"
proof (induction bs arbitrary: i)
  case Nil
  then show ?case by simp
next
  case (Cons b bs)
  show ?case
  proof (cases "i < 8")
    case True
    then show ?thesis
      by (auto simp: bit_simps dest: bit_imp_le_length)
  next
    case False
    then have "i = i - 8 + 8" by simp
    then have "i div 8 = Suc ((i - 8) div 8)" and "i mod 8 = (i - 8) mod 8"
      by (simp_all add: le_div_geq le_mod_geq)
    with False Cons.IH [of "i - 8"] show ?thesis
      by (auto simp: bit_simps dest: bit_imp_le_length)
  qed
qed

lemma nth_le_bytes: "k < n \<Longrightarrow> le_bytes n w ! k = ucast (drop_bit (8 * k) w)"
  by (induction n arbitrary: w k) (auto simp: less_Suc_eq_0_disj drop_bit_drop_bit add.commute)

lemma from_le_le_bytes:
  fixes w :: "'a::len word"
  assumes "LENGTH('a) \<le> 8 * n"
  shows "from_le (le_bytes n w) = w"
proof (rule bit_word_eqI)
  fix i
  assume i: "i < LENGTH('a)"
  with assms have "i div 8 < n" by simp
  with i show "bit (from_le (le_bytes n w) :: 'a word) i \<longleftrightarrow> bit w i"
    by (simp add: bit_from_le nth_le_bytes bit_simps)
qed

lemma le_bytes_from_le:
  assumes "8 * length bs \<le> LENGTH('a::len)"
  shows "le_bytes (length bs) (from_le bs :: 'a word) = bs"
proof (rule nth_equalityI)
  show "length (le_bytes (length bs) (from_le bs :: 'a word)) = length bs" by simp
next
  fix k
  assume "k < length (le_bytes (length bs) (from_le bs :: 'a word))"
  then have k: "k < length bs" by simp
  show "le_bytes (length bs) (from_le bs :: 'a word) ! k = bs ! k"
  proof (rule bit_word_eqI)
    fix i
    assume "i < LENGTH(8)"
    then have i: "i < 8" by simp
    with k assms have "8 * k + i < LENGTH('a)" by simp
    with k i show "bit (le_bytes (length bs) (from_le bs :: 'a word) ! k) i \<longleftrightarrow> bit (bs ! k) i"
      by (simp add: nth_le_bytes bit_simps bit_from_le)
  qed
qed

text \<open>The low half of an eight-byte integer is what a four-byte load finds.\<close>

lemma le_bytes_add: "le_bytes (m + n) w = le_bytes m w @ le_bytes n (drop_bit (8 * m) w)"
  by (induction m arbitrary: w) (simp_all add: drop_bit_drop_bit add.commute)

lemma le_bytes_ucast:
  fixes w :: "'b::len word"
  assumes "8 * n \<le> LENGTH('a::len)"
  shows "le_bytes n (ucast w :: 'a word) = le_bytes n w"
proof (rule nth_equalityI)
  fix k
  assume "k < length (le_bytes n (ucast w :: 'a word))"
  then have k: "k < n" by simp
  have "ucast (drop_bit (8 * k) (ucast w :: 'a word)) = (ucast (drop_bit (8 * k) w) :: u8)"
  proof (rule bit_word_eqI)
    fix i
    assume "i < LENGTH(8)"
    then have "8 * k + i < LENGTH('a)" using k assms by simp
    then show "bit (ucast (drop_bit (8 * k) (ucast w :: 'a word)) :: u8) i \<longleftrightarrow>
        bit (ucast (drop_bit (8 * k) w) :: u8) i"
      by (auto simp: bit_simps dest: bit_imp_le_length)
  qed
  with k show "le_bytes n (ucast w :: 'a word) ! k = le_bytes n w ! k"
    by (simp add: nth_le_bytes)
qed simp

lemma le_bytes_8_split:
  fixes w :: u64
  shows "le_bytes 8 w = le_bytes 4 (ucast w :: u32) @ le_bytes 4 (drop_bit 32 w)"
proof -
  have "le_bytes (4 + 4) w = le_bytes 4 w @ le_bytes 4 (drop_bit 32 w)"
    by (subst le_bytes_add) simp
  moreover have "le_bytes 4 (ucast w :: u32) = le_bytes 4 w"
    by (rule le_bytes_ucast) simp
  ultimately show ?thesis by simp
qed

lemma le_bytes_0 [simp]: "le_bytes n 0 = replicate n 0"
  by (induction n) simp_all

text \<open>Unrolled, for evaluating concrete buffers.\<close>

lemma le_bytes_unfold:
  "le_bytes 4 w = [ucast w, ucast (drop_bit 8 w), ucast (drop_bit 16 w), ucast (drop_bit 24 w)]"
  "le_bytes 8 w = [ucast w, ucast (drop_bit 8 w), ucast (drop_bit 16 w), ucast (drop_bit 24 w),
    ucast (drop_bit 32 w), ucast (drop_bit 40 w), ucast (drop_bit 48 w), ucast (drop_bit 56 w)]"
  by (simp_all add: numeral_eq_Suc drop_bit_drop_bit)

subsection \<open>The buffer behind a string\<close>

text \<open>
  \<open>c_str()\<close> ends the bytes of the string with one zero, which may be read. A load of \<open>n\<close> bytes
  at \<open>p\<close> (an integer, or the characters of \<open>std::string(&data[p], n)\<close>) is defined when it stays
  inside that buffer. The code never compares \<open>p + n\<close> with \<open>size()\<close>: the model does, to say
  where the behaviour stops being defined.
\<close>

definition c_str :: "bytes \<Rightarrow> bytes" where
  "c_str s = s @ [0]"

definition load_bytes :: "bytes \<Rightarrow> nat \<Rightarrow> nat \<Rightarrow> bytes result" where
  "load_bytes s p n =
     (if p + n \<le> length (c_str s) then Inr (take n (drop p (c_str s))) else Inl Out_of_bounds)"

definition load_le :: "nat \<Rightarrow> bytes \<Rightarrow> nat \<Rightarrow> 'a::len word result" where
  "load_le n s p = rbind (load_bytes s p n) (\<lambda>bs. Inr (from_le bs))"

definition load_u8 :: "bytes \<Rightarrow> nat \<Rightarrow> u8 result" where
  "load_u8 s p = load_le 1 s p"

definition load_u16 :: "bytes \<Rightarrow> nat \<Rightarrow> u16 result" where
  "load_u16 s p = load_le 2 s p"

definition load_u32 :: "bytes \<Rightarrow> nat \<Rightarrow> u32 result" where
  "load_u32 s p = load_le 4 s p"

definition load_u64 :: "bytes \<Rightarrow> nat \<Rightarrow> u64 result" where
  "load_u64 s p = load_le 8 s p"

lemmas load_defs = load_u8_def load_u16_def load_u32_def load_u64_def load_le_def

lemma length_c_str [simp]: "length (c_str s) = Suc (length s)"
  by (simp add: c_str_def)

lemma load_bytes_Inr:
  "load_bytes s p n = Inr bs \<longleftrightarrow>
     p + n \<le> Suc (length s) \<and> bs = take n (drop p (c_str s))"
  by (auto simp: load_bytes_def)

lemma load_bytes_Inl: "load_bytes s p n = Inl e \<longleftrightarrow> e = Out_of_bounds \<and> Suc (length s) < p + n"
  by (auto simp: load_bytes_def)

text \<open>A load that succeeds ends inside the buffer.\<close>

lemma load_bytes_bound: "load_bytes s p n = Inr bs \<Longrightarrow> p + n \<le> Suc (length s) \<and> length bs = n"
  by (auto simp: load_bytes_Inr)

lemma load_u8_bound: "load_u8 s p = Inr w \<Longrightarrow> p + 1 \<le> Suc (length s)"
  by (auto simp: load_defs load_bytes_Inr)

lemma load_u16_bound: "load_u16 s p = Inr w \<Longrightarrow> p + 2 \<le> Suc (length s)"
  by (auto simp: load_defs load_bytes_Inr)

lemma load_u32_bound: "load_u32 s p = Inr w \<Longrightarrow> p + 4 \<le> Suc (length s)"
  by (auto simp: load_defs load_bytes_Inr)

lemma load_u64_bound: "load_u64 s p = Inr w \<Longrightarrow> p + 8 \<le> Suc (length s)"
  by (auto simp: load_defs load_bytes_Inr)

lemmas load_bounds = load_bytes_bound load_u8_bound load_u16_bound load_u32_bound load_u64_bound

text \<open>A load that does not fit is the one way a load fails.\<close>

lemma load_u32_Inl: "load_u32 s p = Inl e \<longleftrightarrow> e = Out_of_bounds \<and> Suc (length s) < p + 4"
  by (simp add: load_defs rbind_eq_Inl load_bytes_Inl)

lemma load_u8_Inl: "load_u8 s p = Inl e \<longleftrightarrow> e = Out_of_bounds \<and> Suc (length s) < p + 1"
  by (simp add: load_defs rbind_eq_Inl load_bytes_Inl)

lemma load_u64_Inl: "load_u64 s p = Inl e \<longleftrightarrow> e = Out_of_bounds \<and> Suc (length s) < p + 8"
  by (simp add: load_defs rbind_eq_Inl load_bytes_Inl)

lemmas load_Inl = load_bytes_Inl load_u8_Inl load_u32_Inl load_u64_Inl

subsection \<open>What stands at a position\<close>

definition holds_at :: "bytes \<Rightarrow> nat \<Rightarrow> bytes \<Rightarrow> bool" where
  "holds_at s p bs \<longleftrightarrow> p + length bs \<le> length s \<and> take (length bs) (drop p s) = bs"

lemma holds_at_self: "holds_at (pre @ bs @ post) (length pre) bs"
  by (simp add: holds_at_def)

lemma holds_at_whole [simp]: "holds_at s 0 s"
  by (simp add: holds_at_def)

lemma holds_at_prefix [simp]: "holds_at (s @ t) 0 s"
  by (simp add: holds_at_def)

lemma holds_at_append [wire_simps]:
  "holds_at s p (xs @ ys) \<longleftrightarrow> holds_at s p xs \<and> holds_at s (p + length xs) ys"
  by (auto simp: holds_at_def take_add add.commute)

lemma holds_at_bound: "holds_at s p bs \<Longrightarrow> p + length bs \<le> length s"
  by (simp add: holds_at_def)

lemma load_bytes_holds [wire_simps]:
  "holds_at s p bs \<Longrightarrow> n = length bs \<Longrightarrow> load_bytes s p n = Inr bs"
  by (auto simp: holds_at_def load_bytes_def c_str_def)

lemma load_le_holds:
  fixes w :: "'a::len word"
  assumes "holds_at s p (le_bytes n w)" and "LENGTH('a) \<le> 8 * n"
  shows "load_le n s p = Inr w"
  using assms by (simp add: load_le_def load_bytes_holds from_le_le_bytes)

lemma load_u8_holds [wire_simps]: "holds_at s p (le_bytes 1 w) \<Longrightarrow> load_u8 s p = Inr w"
  unfolding load_u8_def by (rule load_le_holds) simp_all

lemma load_u16_holds [wire_simps]: "holds_at s p (le_bytes 2 w) \<Longrightarrow> load_u16 s p = Inr w"
  unfolding load_u16_def by (rule load_le_holds) simp_all

lemma load_u32_holds [wire_simps]: "holds_at s p (le_bytes 4 w) \<Longrightarrow> load_u32 s p = Inr w"
  unfolding load_u32_def by (rule load_le_holds) simp_all

lemma load_u64_holds [wire_simps]: "holds_at s p (le_bytes 8 w) \<Longrightarrow> load_u64 s p = Inr w"
  unfolding load_u64_def by (rule load_le_holds) simp_all

text \<open>What a load returned is what stands in the buffer: the converse reading.\<close>

definition segment :: "bytes \<Rightarrow> nat \<Rightarrow> nat \<Rightarrow> bytes" where
  "segment s p q = take (q - p) (drop p (c_str s))"

lemma segment_append:
  "p \<le> q \<Longrightarrow> q \<le> r \<Longrightarrow> segment s p r = segment s p q @ segment s q r"
  using take_add [of "q - p" "r - q" "drop p (c_str s)"] by (simp add: segment_def)

lemma segment_self [simp]: "segment s p p = []"
  by (simp add: segment_def)

lemma load_bytes_segment: "load_bytes s p n = Inr bs \<Longrightarrow> bs = segment s p (p + n)"
  by (simp add: load_bytes_Inr segment_def)

lemma load_le_segment:
  assumes "load_le n s p = Inr (w :: 'a::len word)" and "8 * n \<le> LENGTH('a)"
  shows "le_bytes n w = segment s p (p + n)"
proof -
  from assms(1) obtain bs where bs: "load_bytes s p n = Inr bs" and w: "w = from_le bs"
    by (auto simp: load_le_def)
  from bs have "length bs = n" by (auto dest: load_bytes_bound)
  with assms(2) w have "le_bytes n w = bs"
    using le_bytes_from_le [of bs, where 'a = 'a] by simp
  with bs show ?thesis by (simp add: load_bytes_segment)
qed

lemma load_u32_segment: "load_u32 s p = Inr w \<Longrightarrow> le_bytes 4 w = segment s p (p + 4)"
  unfolding load_u32_def by (rule load_le_segment) simp_all

subsection \<open>A counted run of decodes\<close>

text \<open>
  \<open>for (int i = 0; i < n; i++) v.push_back(T::Decode(serial, cr));\<close> The loop stops at the first
  decode that fails. Its counter is an \<open>int\<close> compared with a \<open>uint32_t\<close>: it cannot overflow
  in a run that succeeds on a buffer of fewer than \<open>2 ^ 31\<close> bytes, because every decode
  consumes some (\<open>cursor_reader.many_count\<close>).
\<close>

fun read_many ::
  "(bytes \<Rightarrow> nat \<Rightarrow> ('a \<times> nat) result) \<Rightarrow> nat \<Rightarrow> bytes \<Rightarrow> nat \<Rightarrow> ('a list \<times> nat) result" where
  "read_many dec 0 s c = Inr ([], c)"
| "read_many dec (Suc n) s c =
     rbind (dec s c) (\<lambda>(x, c').
     rbind (read_many dec n s c') (\<lambda>(xs, c'').
     Inr (x # xs, c'')))"

lemma read_many_length: "read_many dec n s c = Inr (xs, c') \<Longrightarrow> length xs = n"
  by (induction n arbitrary: c xs) auto

lemma read_many_all:
  assumes "read_many dec n s c = Inr (xs, c')" and "\<And>x c c'. dec s c = Inr (x, c') \<Longrightarrow> P x"
  shows "list_all P xs"
  using assms by (induction n arbitrary: c xs) auto

lemma read_many_Inl: "read_many dec n s c = Inl e \<Longrightarrow> \<exists>c'. dec s c' = Inl e"
  by (induction n arbitrary: c) (auto simp: rbind_eq_Inl)

subsection \<open>The decoder contracts\<close>

text \<open>
  A decoder \<open>T::Decode(serial, &cr)\<close> returns the object and the new cursor. First contract: it
  consumes at least \<open>min_len\<close> bytes and leaves the cursor inside the buffer.
\<close>

locale cursor_reader =
  fixes dec :: "bytes \<Rightarrow> nat \<Rightarrow> ('a \<times> nat) result"
    and min_len :: nat
  assumes advance: "dec s c = Inr (x, c') \<Longrightarrow> c + min_len \<le> c' \<and> c' \<le> Suc (length s)"
begin

lemma many_advance:
  assumes "read_many dec n s c = Inr (xs, c')" and "c \<le> Suc (length s)"
  shows "c + n * min_len \<le> c' \<and> c' \<le> Suc (length s)"
  using assms
proof (induction n arbitrary: c xs)
  case 0
  then show ?case by simp
next
  case (Suc n)
  then obtain x c1 ys where "dec s c = Inr (x, c1)" and "read_many dec n s c1 = Inr (ys, c')"
    by auto
  with Suc.IH [of c1 ys] show ?case by (auto dest!: advance)
qed

lemma many_count:
  assumes "read_many dec n s c = Inr (xs, c')" and "c \<le> Suc (length s)"
  shows "length xs * min_len \<le> Suc (length s) - c"
proof -
  have "c + n * min_len \<le> Suc (length s)" using many_advance [OF assms] by linarith
  then show ?thesis using read_many_length [OF assms(1)] by simp
qed

end

text \<open>
  Second contract: wherever the bytes \<open>enc x\<close> stand, the decoder consumes exactly them and
  returns \<open>norm s x\<close>: \<open>x\<close> itself for a field that survives, and the changed value where
  the decoder loses something or fills a field from the whole buffer \<open>s\<close>.
\<close>

locale cursor_codec = cursor_reader dec min_len
  for dec :: "bytes \<Rightarrow> nat \<Rightarrow> ('a \<times> nat) result" and min_len :: nat +
  fixes enc :: "'a \<Rightarrow> bytes" and ok :: "'a \<Rightarrow> bool" and norm :: "bytes \<Rightarrow> 'a \<Rightarrow> 'a"
  assumes dec_enc:
    "ok x \<Longrightarrow> holds_at s c (enc x) \<Longrightarrow> dec s c = Inr (norm s x, c + length (enc x))"
begin

lemma dec_enc_at: "ok x \<Longrightarrow>
    dec (pre @ enc x @ post) (length pre) =
      Inr (norm (pre @ enc x @ post) x, length pre + length (enc x))"
  by (rule dec_enc) (simp_all add: holds_at_self)

lemma many_holds:
  assumes "list_all ok xs" and "holds_at s c (concat (map enc xs))"
  shows "read_many dec (length xs) s c =
    Inr (map (norm s) xs, c + length (concat (map enc xs)))"
  using assms
proof (induction xs arbitrary: c)
  case Nil
  then show ?case by simp
next
  case (Cons x xs)
  then have "dec s c = Inr (norm s x, c + length (enc x))"
    by (auto intro: dec_enc simp: holds_at_append)
  with Cons show ?case by (simp add: holds_at_append add.assoc)
qed

end

text \<open>When nothing is lost, the encoding is injective and no encoding is a prefix of another.\<close>

locale exact_codec = cursor_codec dec min_len enc ok "\<lambda>_ x. x"
  for dec :: "bytes \<Rightarrow> nat \<Rightarrow> ('a \<times> nat) result" and min_len enc ok
begin

lemma enc_prefix_free:
  assumes "ok x" and "ok y" and "enc x @ s = enc y @ t"
  shows "x = y \<and> s = t"
proof -
  have "dec (enc x @ s) 0 = Inr (x, length (enc x))"
    using dec_enc_at [of x "[]" s] assms(1) by simp
  moreover have "dec (enc x @ s) 0 = Inr (y, length (enc y))"
    using dec_enc_at [of y "[]" t] assms(2) by (simp add: assms(3))
  ultimately show ?thesis using assms(3) by simp
qed

lemma many_roundtrip:
  assumes "list_all ok xs"
  shows "read_many dec (length xs) (pre @ concat (map enc xs) @ post) (length pre) =
    Inr (xs, length pre + length (concat (map enc xs)))"
  using many_holds [OF assms holds_at_self] by simp

end

text \<open>
  Third contract: printing what was read gives the bytes it was read from, so two buffers that
  decode to the same object agree on the bytes consumed.
\<close>

locale lossless_reader = cursor_reader dec min_len
  for dec :: "bytes \<Rightarrow> nat \<Rightarrow> ('a \<times> nat) result" and min_len :: nat +
  fixes enc :: "'a \<Rightarrow> bytes"
  assumes reprint: "dec s c = Inr (x, c') \<Longrightarrow> enc x = segment s c c'"
begin

lemma many_reprint:
  assumes "read_many dec n s c = Inr (xs, c')" and "c \<le> Suc (length s)"
  shows "concat (map enc xs) = segment s c c'"
  using assms
proof (induction n arbitrary: c xs)
  case 0
  then show ?case by simp
next
  case (Suc n)
  then obtain x c1 ys where x: "dec s c = Inr (x, c1)" and ys: "read_many dec n s c1 = Inr (ys, c')"
    and xs: "xs = x # ys" by auto
  from x have c1: "c \<le> c1" "c1 \<le> Suc (length s)" by (auto dest: advance)
  with ys have "c1 \<le> c'" by (auto dest: many_advance)
  with c1 Suc.IH [OF ys] x xs show ?case by (simp add: reprint segment_append [of c c1 c'])
qed

end

end
