(* ===== verification/Sig.thy ===== *)
theory Sig
  imports Bytes
begin

section \<open>Keys, hashes and signatures (sig.hpp, sig.cpp)\<close>

text \<open>
  \<open>Sig\<close> is a thin layer over the CryptoPP library, which is not part of the repository: the
  library is the record \<open>cryptopp\<close> of the functions the code calls, and every definition that
  reaches it takes one as its argument \<open>C\<close>. The random pools (\<open>AutoSeededRandomPool\<close>) are an
  argument \<open>rng\<close>, the seed the pool draws.
\<close>

subsection \<open>The library\<close>

text \<open>
  \<open>pub_BERDecode\<close> is None where the library throws \<open>BERDecodeErr\<close>. \<open>SHA256\<close> is one
  \<open>Update\<close> and \<open>Final\<close>. \<open>Signer_sign\<close> is the signature a \<open>SignerFilter\<close> emits.
  \<open>Verifier_check\<close> is the flag a \<open>SignatureVerificationFilter\<close> with \<open>PUT_RESULT\<close> and
  \<open>SIGNATURE_AT_END\<close> puts out: the filter receives the message and the signature as one stream.
\<close>

record ('pub, 'priv) cryptopp =
  pub_default :: "'pub"
  pub_Save :: "'pub \<Rightarrow> bytes"
  pub_BERDecode :: "bytes \<Rightarrow> 'pub option"
  pub_Validate :: "nat \<Rightarrow> nat \<Rightarrow> 'pub \<Rightarrow> bool"
  priv_Save :: "'priv \<Rightarrow> bytes"
  priv_BERDecode :: "bytes \<Rightarrow> 'priv option"
  priv_Validate :: "nat \<Rightarrow> nat \<Rightarrow> 'priv \<Rightarrow> bool"
  GenerateRandomWithKeySize :: "nat \<Rightarrow> nat \<Rightarrow> 'priv"
  AssignFrom :: "'priv \<Rightarrow> 'pub"
  SHA256 :: "bytes \<Rightarrow> bytes"
  Signer_sign :: "nat \<Rightarrow> 'priv \<Rightarrow> bytes \<Rightarrow> bytes"
  Verifier_check :: "'pub \<Rightarrow> bytes \<Rightarrow> bool"

text \<open>
  What the code relies on, as hypotheses of the theorems that need them. \<open>key_ok\<close>: a public key
  that is saved and decoded again is the same key, and its encoding fits the 32-bit size field.
  \<open>crypto_laws\<close>: so it is for every key, an empty input is no key, a digest has 32 bytes, and a
  signature made with a private key verifies under its public key.
\<close>

definition key_ok :: "('pub, 'priv) cryptopp \<Rightarrow> 'pub \<Rightarrow> bool" where
  "key_ok C k \<longleftrightarrow> pub_BERDecode C (pub_Save C k) = Some k \<and> length (pub_Save C k) < 2 ^ 32"

definition crypto_laws :: "('pub, 'priv) cryptopp \<Rightarrow> bool" where
  "crypto_laws C \<longleftrightarrow>
     (\<forall>k. key_ok C k) \<and> pub_BERDecode C [] = None \<and> (\<forall>d. length (SHA256 C d) = 32) \<and>
     (\<forall>rng k m. Verifier_check C (AssignFrom C k) (m @ Signer_sign C rng k m))"

lemma crypto_laws_key_ok: "crypto_laws C \<Longrightarrow> key_ok C k"
  by (simp add: crypto_laws_def)

lemma crypto_laws_SHA256: "crypto_laws C \<Longrightarrow> length (SHA256 C d) = 32"
  by (simp add: crypto_laws_def)

lemma crypto_laws_empty: "crypto_laws C \<Longrightarrow> pub_BERDecode C [] = None"
  by (simp add: crypto_laws_def)

lemma crypto_laws_verify:
  "crypto_laws C \<Longrightarrow> Verifier_check C (AssignFrom C k) (m @ Signer_sign C rng k m)"
  by (simp add: crypto_laws_def)

text \<open>\<open>key.BERDecode(source)\<close>: the exception is a branch.\<close>

definition BERDecode :: "('pub, 'priv) cryptopp \<Rightarrow> bytes \<Rightarrow> 'pub result" where
  "BERDecode C d = (case pub_BERDecode C d of None \<Rightarrow> Inl BERDecodeErr | Some k \<Rightarrow> Inr k)"

lemma BERDecode_Save [simp]: "key_ok C k \<Longrightarrow> BERDecode C (pub_Save C k) = Inr k"
  by (simp add: BERDecode_def key_ok_def)

lemma BERDecode_Inl: "BERDecode C d = Inl e \<Longrightarrow> e = BERDecodeErr"
  by (auto simp: BERDecode_def split: option.splits)

lemma key_ok_length: "key_ok C k \<Longrightarrow> unat (word_of_nat (length (pub_Save C k)) :: u32) = length (pub_Save C k)"
  by (rule unat_of_nat_small) (simp add: key_ok_def)

subsection \<open>The operations of sig.cpp\<close>

definition CalculateSHA256 :: "('pub, 'priv) cryptopp \<Rightarrow> bytes \<Rightarrow> bytes" where
  "CalculateSHA256 C data = SHA256 C data"

definition GenerateKeys :: "('pub, 'priv) cryptopp \<Rightarrow> nat \<Rightarrow> ('pub \<times> 'priv) result" where
  "GenerateKeys C rng =
     (let private_key = GenerateRandomWithKeySize C rng 1024;
          public_key = AssignFrom C private_key
      in if \<not> priv_Validate C rng 3 private_key \<or> \<not> pub_Validate C rng 3 public_key
         then Inl (Runtime_error ''DSA generation failed'')
         else Inr (public_key, private_key))"

definition SignMessage ::
  "('pub, 'priv) cryptopp \<Rightarrow> nat \<Rightarrow> bytes \<Rightarrow> 'pub \<Rightarrow> 'priv \<Rightarrow> bytes" where
  "SignMessage C rng message public_key private_key = Signer_sign C rng private_key message"

definition ValidateSignature ::
  "('pub, 'priv) cryptopp \<Rightarrow> bytes \<Rightarrow> bytes \<Rightarrow> 'pub \<Rightarrow> bool" where
  "ValidateSignature C message signature public_key =
     Verifier_check C public_key (message @ signature)"

text \<open>
  The key files. \<open>can_open\<close> says which paths \<open>FileSink\<close> can open for writing; \<open>FileSource\<close>
  opens a path that names a file. The templates serve public and private keys: the key type's
  \<open>Save\<close>, \<open>Load\<close> and \<open>Validate\<close> are arguments. A failed validation throws after the key
  was loaded.
\<close>

type_synonym files = "bytes \<rightharpoonup> bytes"

definition SaveKey ::
  "('key \<Rightarrow> bytes) \<Rightarrow> (bytes \<Rightarrow> bool) \<Rightarrow> files \<Rightarrow> bytes \<Rightarrow> 'key \<Rightarrow> files result" where
  "SaveKey save can_open fs filename key =
     (if can_open filename then Inr (fs(filename \<mapsto> save key)) else Inl File_OpenErr)"

definition LoadKey ::
  "(bytes \<Rightarrow> 'key option) \<Rightarrow> (nat \<Rightarrow> nat \<Rightarrow> 'key \<Rightarrow> bool) \<Rightarrow> nat \<Rightarrow> files \<Rightarrow> bytes \<Rightarrow> 'key result" where
  "LoadKey load validate rng fs filename =
     (case fs filename of
        None \<Rightarrow> Inl File_OpenErr
      | Some queue \<Rightarrow>
          (case load queue of
             None \<Rightarrow> Inl BERDecodeErr
           | Some key \<Rightarrow>
               if \<not> validate rng 3 key then Inl (Runtime_error ''DSA key validation failed.\<newline>'')
               else Inr key))"

subsection \<open>The signature interface\<close>

text \<open>
  What transactions ask of this module: a signature made with the private half of a key pair
  verifies under the public half. The second law is the price of the one-stream filter: the
  check sees the concatenation only, not where the message ends.
\<close>

locale signature_scheme =
  fixes sign :: "bytes \<Rightarrow> 'pub \<Rightarrow> 'priv \<Rightarrow> bytes"
    and verify :: "bytes \<Rightarrow> bytes \<Rightarrow> 'pub \<Rightarrow> bool"
    and pair :: "'pub \<Rightarrow> 'priv \<Rightarrow> bool"
  assumes verify_sign: "pair pk sk \<Longrightarrow> verify m (sign m pk sk) pk"
    and verify_concat: "m @ s = m' @ s' \<Longrightarrow> verify m s pk \<longleftrightarrow> verify m' s' pk"
begin

lemma shifted_boundary:
  assumes "pair pk sk" and "m = m1 @ m2"
  shows "verify m1 (m2 @ sign m pk sk) pk"
proof -
  have "verify m (sign m pk sk) pk" using assms(1) by (rule verify_sign)
  then show ?thesis using verify_concat [of m "sign m pk sk" m1 "m2 @ sign m pk sk"] assms(2)
    by simp
qed

end

definition key_pair :: "('pub, 'priv) cryptopp \<Rightarrow> 'pub \<Rightarrow> 'priv \<Rightarrow> bool" where
  "key_pair C pk sk \<longleftrightarrow> crypto_laws C \<and> pk = AssignFrom C sk"

interpretation dsa: signature_scheme "SignMessage C rng" "ValidateSignature C" "key_pair C" for C rng
  by unfold_locales
     (auto simp: SignMessage_def ValidateSignature_def key_pair_def crypto_laws_verify)

subsection \<open>Results of the operations\<close>

lemma GenerateKeys_pair:
  "GenerateKeys C rng = Inr (pk, sk) \<Longrightarrow>
     pk = AssignFrom C sk \<and> priv_Validate C rng 3 sk \<and> pub_Validate C rng 3 pk"
  by (auto simp: GenerateKeys_def Let_def split: if_splits)

lemma LoadKey_Inr:
  "LoadKey load validate rng fs f = Inr k \<longleftrightarrow>
     (\<exists>d. fs f = Some d \<and> load d = Some k \<and> validate rng 3 k)"
  by (auto simp: LoadKey_def split: option.splits)

lemma LoadKey_Inl:
  "LoadKey load validate rng fs f = Inl e \<Longrightarrow>
     e = File_OpenErr \<or> e = BERDecodeErr \<or> e = Runtime_error ''DSA key validation failed.\<newline>''"
  by (auto simp: LoadKey_def split: option.splits if_splits)

lemma LoadKey_SaveKey:
  assumes "SaveKey save can_open fs f k = Inr fs'" and "load (save k) = Some k"
    and "validate rng 3 k"
  shows "LoadKey load validate rng fs' f = Inr k"
  using assms by (auto simp: SaveKey_def LoadKey_def split: if_splits)

lemma SaveKey_frame:
  "SaveKey save can_open fs f k = Inr fs' \<Longrightarrow> g \<noteq> f \<Longrightarrow> fs' g = fs g"
  by (auto simp: SaveKey_def split: if_splits)

subsection \<open>A concrete provider\<close>

text \<open>
  One-byte keys, a checksum for the hash and a keyed checksum for the signature: no
  cryptography, but a provider that satisfies \<open>crypto_laws\<close>, on which the witnesses evaluate.
\<close>

definition toy_crypto :: "(u8, u8) cryptopp" where
  "toy_crypto =
     \<lparr> pub_default = 0,
       pub_Save = (\<lambda>k. [k]),
       pub_BERDecode = (\<lambda>d. case d of [] \<Rightarrow> None | k # _ \<Rightarrow> Some k),
       pub_Validate = (\<lambda>_ _ _. True),
       priv_Save = (\<lambda>k. [k]),
       priv_BERDecode = (\<lambda>d. case d of [] \<Rightarrow> None | k # _ \<Rightarrow> Some k),
       priv_Validate = (\<lambda>_ _ _. True),
       GenerateRandomWithKeySize = (\<lambda>rng _. word_of_nat rng),
       AssignFrom = (\<lambda>k. k),
       SHA256 = (\<lambda>d. replicate 32 (sum_list d)),
       Signer_sign = (\<lambda>_ k m. [k + sum_list m]),
       Verifier_check = (\<lambda>k d. d \<noteq> [] \<and> last d = k + sum_list (butlast d)) \<rparr>"

lemma toy_crypto_laws: "crypto_laws toy_crypto"
  by (simp add: crypto_laws_def key_ok_def toy_crypto_def butlast_append)

end
