(* ===== verification/Transaction.thy ===== *)
theory Transaction
  imports Sig
begin

section \<open>Transactions (tx.hpp, tx.cpp)\<close>

text \<open>
  The transaction records, their wire format and its decoders, the construction of a signed
  transaction and its verification. A decoder takes the buffer and the cursor and returns the
  object and the cursor after it; a call that passes no cursor starts at 0 and drops the
  cursor it gets back.
\<close>

subsection \<open>Data\<close>

record tx_input =
  txi_block_hash :: bytes
  txi_input_hash :: bytes
  txi_index :: u32

record 'pub tx_output =
  txo_target :: 'pub
  txo_index :: u32
  txo_coins :: u64

record 'pub tx_coinbase =
  cb_coins :: u64
  cb_target :: 'pub

record 'pub tx =
  tx_version :: u32
  tx_timestamp :: u32
  tx_hash :: bytes
  tx_origin :: 'pub
  tx_sig :: bytes
  tx_inputs :: "tx_input list"
  tx_outputs :: "'pub tx_output list"

subsection \<open>Inputs\<close>

definition Tx_Input_Serialize :: "tx_input \<Rightarrow> bytes" where
  "Tx_Input_Serialize i =
     (let blocksize = (word_of_nat (length (txi_block_hash i)) :: u32);
          inputsize = (word_of_nat (length (txi_input_hash i)) :: u32)
      in le_bytes 4 blocksize @ txi_block_hash i @
         le_bytes 4 inputsize @ txi_input_hash i @
         le_bytes 4 (txi_index i))"

definition Tx_Input_Decode :: "bytes \<Rightarrow> nat \<Rightarrow> (tx_input \<times> nat) result" where
  "Tx_Input_Decode serial cr =
     rbind (load_u32 serial cr) (\<lambda>blocksize. let cr = cr + 4 in
     rbind (load_bytes serial cr (unat blocksize)) (\<lambda>block_hash. let cr = cr + unat blocksize in
     rbind (load_u32 serial cr) (\<lambda>inputsize. let cr = cr + 4 in
     rbind (load_bytes serial cr (unat inputsize)) (\<lambda>input_hash. let cr = cr + unat inputsize in
     rbind (load_u32 serial cr) (\<lambda>index. let cr = cr + 4 in
     Inr (\<lparr>txi_block_hash = block_hash, txi_input_hash = input_hash, txi_index = index\<rparr>, cr))))))"

subsection \<open>Outputs\<close>

text \<open>
  \<open>Serialize\<close> writes the coins as a \<open>uint64_t\<close>; \<open>Decode\<close> reads them through a
  \<open>const uint32_t *\<close> and moves the cursor by 4.
\<close>

definition Tx_Output_Serialize :: "('pub, 'priv) cryptopp \<Rightarrow> 'pub tx_output \<Rightarrow> bytes" where
  "Tx_Output_Serialize C o1 =
     (let target_string = pub_Save C (txo_target o1);
          keysize = (word_of_nat (length target_string) :: u32)
      in le_bytes 4 keysize @ target_string @
         le_bytes 4 (txo_index o1) @
         le_bytes 8 (txo_coins o1))"

definition Tx_Output_Decode ::
  "('pub, 'priv) cryptopp \<Rightarrow> bytes \<Rightarrow> nat \<Rightarrow> ('pub tx_output \<times> nat) result" where
  "Tx_Output_Decode C serial cr =
     rbind (load_u32 serial cr) (\<lambda>keysize. let cr = cr + 4 in
     rbind (load_bytes serial cr (unat keysize)) (\<lambda>key_material.
     rbind (BERDecode C key_material) (\<lambda>target. let cr = cr + unat keysize in
     rbind (load_u32 serial cr) (\<lambda>index. let cr = cr + 4 in
     rbind (load_u32 serial cr) (\<lambda>coins. let cr = cr + 4 in
     Inr (\<lparr>txo_target = target, txo_index = index, txo_coins = ucast coins\<rparr>, cr))))))"

subsection \<open>Transactions\<close>

definition Tx_Serialize :: "('pub, 'priv) cryptopp \<Rightarrow> 'pub tx \<Rightarrow> bytes" where
  "Tx_Serialize C t =
     (let input_size = (word_of_nat (length (tx_inputs t)) :: u32);
          output_size = (word_of_nat (length (tx_outputs t)) :: u32);
          origin_string = pub_Save C (tx_origin t);
          keysize = (word_of_nat (length origin_string) :: u32)
      in le_bytes 4 (tx_version t) @ le_bytes 4 (tx_timestamp t) @
         le_bytes 4 keysize @ origin_string @
         le_bytes 4 input_size @ concat (map Tx_Input_Serialize (tx_inputs t)) @
         le_bytes 4 output_size @ concat (map (Tx_Output_Serialize C) (tx_outputs t)))"

text \<open>
  The hash is that of the whole buffer \<open>serial\<close>, wherever the transaction stands in it; the
  signature is not on the wire and stays empty.
\<close>

definition Tx_Decode ::
  "('pub, 'priv) cryptopp \<Rightarrow> bytes \<Rightarrow> nat \<Rightarrow> ('pub tx \<times> nat) result" where
  "Tx_Decode C serial cr =
     rbind (load_u32 serial cr) (\<lambda>version.
     rbind (load_u32 serial (cr + 4)) (\<lambda>timestamp.
     rbind (load_u32 serial (cr + 8)) (\<lambda>keysize. let cr = cr + 12 in
     rbind (load_bytes serial cr (unat keysize)) (\<lambda>key_material.
     rbind (BERDecode C key_material) (\<lambda>origin. let cr = cr + unat keysize in
     rbind (load_u32 serial cr) (\<lambda>input_size. let cr = cr + 4 in
     rbind (read_many Tx_Input_Decode (unat input_size) serial cr) (\<lambda>(inputs, cr).
     rbind (load_u32 serial cr) (\<lambda>output_size. let cr = cr + 4 in
     rbind (read_many (Tx_Output_Decode C) (unat output_size) serial cr) (\<lambda>(outputs, cr).
     Inr (\<lparr>tx_version = version, tx_timestamp = timestamp,
           tx_hash = CalculateSHA256 C serial, tx_origin = origin, tx_sig = [],
           tx_inputs = inputs, tx_outputs = outputs\<rparr>, cr))))))))))"

definition DecodeAndVerify ::
  "('pub, 'priv) cryptopp \<Rightarrow> bytes \<Rightarrow> bytes \<Rightarrow> 'pub \<Rightarrow> 'pub tx result" where
  "DecodeAndVerify C serial signature key =
     rbind (Tx_Decode C serial 0) (\<lambda>(t, _).
       if \<not> ValidateSignature C (serial @ tx_hash t) signature key
       then Inl (Runtime_error ''Failed to DecodeAndVerify Tx'')
       else Inr (t\<lparr>tx_sig := signature\<rparr>))"

definition Tx_Verify :: "('pub, 'priv) cryptopp \<Rightarrow> 'pub tx \<Rightarrow> bool" where
  "Tx_Verify C t = ValidateSignature C (Tx_Serialize C t @ tx_hash t) (tx_sig t) (tx_origin t)"

text \<open>\<open>now\<close> is what \<open>std::time(0)\<close> returns, stored in 32 bits.\<close>

definition ConstructAndSign ::
  "('pub, 'priv) cryptopp \<Rightarrow> nat \<Rightarrow> u64 \<Rightarrow> tx_input list \<Rightarrow> 'pub tx_output list \<Rightarrow>
     'pub \<Rightarrow> 'priv \<Rightarrow> 'pub tx result" where
  "ConstructAndSign C rng now inputs outputs public_key private_key =
     (let t = \<lparr>tx_version = 0, tx_timestamp = ucast now, tx_hash = [], tx_origin = public_key,
               tx_sig = [], tx_inputs = inputs, tx_outputs = outputs\<rparr>
      in if length inputs = 0
           then Inl (Runtime_error ''Transaction requires at least one input'')
         else if length outputs = 0
           then Inl (Runtime_error ''Transaction requires at least one output'')
         else if list_ex (\<lambda>out. txo_target out = public_key) (tx_outputs t)
           then Inl (Runtime_error ''Transaction can't be to myself'')
         else
           (let message = Tx_Serialize C t;
                t = t\<lparr>tx_hash := SHA256 C message\<rparr>;
                t = t\<lparr>tx_sig := SignMessage C rng (message @ tx_hash t) public_key private_key\<rparr>
            in Inr t))"

subsection \<open>Inputs: the three contracts\<close>

definition input_ok :: "tx_input \<Rightarrow> bool" where
  "input_ok i \<longleftrightarrow> length (txi_block_hash i) < 2 ^ 32 \<and> length (txi_input_hash i) < 2 ^ 32"

lemma Tx_Input_Decode_advance:
  "Tx_Input_Decode s c = Inr (i, c') \<Longrightarrow> c + 12 \<le> c' \<and> c' \<le> Suc (length s)"
  by (auto simp: Tx_Input_Decode_def Let_def dest!: load_u32_bound)

lemma Tx_Input_Decode_Serialize:
  assumes "input_ok i" and "holds_at s c (Tx_Input_Serialize i)"
  shows "Tx_Input_Decode s c = Inr (i, c + length (Tx_Input_Serialize i))"
proof -
  let ?b = "txi_block_hash i" and ?h = "txi_input_hash i"
  have sizes: "unat (word_of_nat (length ?b) :: u32) = length ?b"
      "unat (word_of_nat (length ?h) :: u32) = length ?h"
    using assms(1) by (simp_all add: input_ok_def unat_of_nat_small)
  have h: "holds_at s c (le_bytes 4 (word_of_nat (length ?b) :: u32))"
      "holds_at s (c + 4) ?b"
      "holds_at s (c + 4 + length ?b) (le_bytes 4 (word_of_nat (length ?h) :: u32))"
      "holds_at s (c + 4 + length ?b + 4) ?h"
      "holds_at s (c + 4 + length ?b + 4 + length ?h) (le_bytes 4 (txi_index i))"
    using assms(2) by (simp_all add: Tx_Input_Serialize_def Let_def holds_at_append add.assoc)
  note loads = h(1,3,5) [THEN load_u32_holds] h(2,4) [THEN load_bytes_holds, OF refl]
  have "Tx_Input_Decode s c = Inr (i, c + 4 + length ?b + 4 + length ?h + 4)"
    by (simp only: Tx_Input_Decode_def Let_def loads sizes rbind.simps) simp
  then show ?thesis by (simp add: Tx_Input_Serialize_def Let_def)
qed

lemma Tx_Input_reprint:
  assumes "Tx_Input_Decode s c = Inr (i, c')"
  shows "Tx_Input_Serialize i = segment s c c'"
proof -
  from assms obtain n1 b n2 h k where
    loads: "load_u32 s c = Inr n1" "load_bytes s (c + 4) (unat n1) = Inr b"
      "load_u32 s (c + 4 + unat n1) = Inr n2"
      "load_bytes s (c + 4 + unat n1 + 4) (unat n2) = Inr h"
      "load_u32 s (c + 4 + unat n1 + 4 + unat n2) = Inr k"
    and i: "i = \<lparr>txi_block_hash = b, txi_input_hash = h, txi_index = k\<rparr>"
    and c': "c' = c + 4 + unat n1 + 4 + unat n2 + 4"
    by (auto simp: Tx_Input_Decode_def Let_def)
  from loads have len: "length b = unat n1" "length h = unat n2"
    by (auto dest: load_bytes_bound)
  have "Tx_Input_Serialize i = le_bytes 4 n1 @ b @ le_bytes 4 n2 @ h @ le_bytes 4 k"
    by (simp add: Tx_Input_Serialize_def Let_def i len)
  also have "\<dots> = segment s c (c + 4) @ segment s (c + 4) (c + 4 + unat n1) @
      segment s (c + 4 + unat n1) (c + 4 + unat n1 + 4) @
      segment s (c + 4 + unat n1 + 4) (c + 4 + unat n1 + 4 + unat n2) @
      segment s (c + 4 + unat n1 + 4 + unat n2) c'"
    by (simp only: loads(1,3,5) [THEN load_u32_segment] loads(2,4) [THEN load_bytes_segment] c')
  also have "\<dots> = segment s c c'"
    by (simp add: c' flip: segment_append)
  finally show ?thesis .
qed

interpretation input_wire: exact_codec Tx_Input_Decode 12 Tx_Input_Serialize input_ok
  by unfold_locales
     (simp_all add: Tx_Input_Decode_advance Tx_Input_Decode_Serialize)

interpretation input_lossless: lossless_reader Tx_Input_Decode 12 Tx_Input_Serialize
  by unfold_locales (rule Tx_Input_reprint)

subsection \<open>Outputs: what the decoder consumes and what it loses\<close>

text \<open>
  The decoder of an output reads a format of its own, four bytes shorter than the one the
  serialiser writes: the low half of the coins. It meets the contract of a codec for that format.
\<close>

definition output_read_format :: "('pub, 'priv) cryptopp \<Rightarrow> 'pub tx_output \<Rightarrow> bytes" where
  "output_read_format C o1 =
     le_bytes 4 (word_of_nat (length (pub_Save C (txo_target o1))) :: u32) @
     pub_Save C (txo_target o1) @ le_bytes 4 (txo_index o1) @
     le_bytes 4 (ucast (txo_coins o1) :: u32)"

definition output_as_read :: "'pub tx_output \<Rightarrow> 'pub tx_output" where
  "output_as_read o1 = o1\<lparr>txo_coins := take_bit 32 (txo_coins o1)\<rparr>"

definition output_ok :: "('pub, 'priv) cryptopp \<Rightarrow> 'pub tx_output \<Rightarrow> bool" where
  "output_ok C o1 \<longleftrightarrow> key_ok C (txo_target o1)"

lemma Tx_Output_Serialize_split:
  "Tx_Output_Serialize C o1 =
     output_read_format C o1 @ le_bytes 4 (drop_bit 32 (txo_coins o1))"
  by (simp add: Tx_Output_Serialize_def output_read_format_def le_bytes_8_split Let_def)

lemma length_output_read_format:
  "length (output_read_format C o1) = 12 + length (pub_Save C (txo_target o1))"
  by (simp add: output_read_format_def)

lemma output_as_read_small: "txo_coins o1 < 2 ^ 32 \<Longrightarrow> output_as_read o1 = o1"
  by (simp add: output_as_read_def u64_small)

lemma ucast_ucast_u32: "ucast (ucast (w :: u64) :: u32) = take_bit 32 w"
  by (rule bit_word_eqI) (auto simp: bit_simps)

lemma Tx_Output_Decode_advance:
  "Tx_Output_Decode C s c = Inr (o1, c') \<Longrightarrow> c + 12 \<le> c' \<and> c' \<le> Suc (length s)"
  by (auto simp: Tx_Output_Decode_def Let_def dest!: load_u32_bound)

lemma Tx_Output_Decode_format:
  assumes "output_ok C o1" and "holds_at s c (output_read_format C o1)"
  shows "Tx_Output_Decode C s c = Inr (output_as_read o1, c + length (output_read_format C o1))"
proof -
  let ?k = "pub_Save C (txo_target o1)"
  have key: "key_ok C (txo_target o1)" using assms(1) by (simp add: output_ok_def)
  have h: "holds_at s c (le_bytes 4 (word_of_nat (length ?k) :: u32))"
      "holds_at s (c + 4) ?k"
      "holds_at s (c + 4 + length ?k) (le_bytes 4 (txo_index o1))"
      "holds_at s (c + 4 + length ?k + 4) (le_bytes 4 (ucast (txo_coins o1) :: u32))"
    using assms(2) by (simp_all add: output_read_format_def holds_at_append add.assoc)
  note loads = h(1,3,4) [THEN load_u32_holds] h(2) [THEN load_bytes_holds, OF refl]
  have "Tx_Output_Decode C s c = Inr (output_as_read o1, c + 4 + length ?k + 4 + 4)"
    by (simp only: Tx_Output_Decode_def Let_def loads key_ok_length [OF key]
          BERDecode_Save [OF key] rbind.simps) (simp add: output_as_read_def ucast_ucast_u32)
  then show ?thesis by (simp add: length_output_read_format)
qed

interpretation output_wire:
  cursor_codec "Tx_Output_Decode C" 12 "output_read_format C" "output_ok C" "\<lambda>_. output_as_read"
  for C
  by unfold_locales (simp_all add: Tx_Output_Decode_advance Tx_Output_Decode_format)

text \<open>An empty key field is no key: the decoder throws there.\<close>

lemma Tx_Output_Decode_empty_key:
  assumes "pub_BERDecode C [] = None" and "holds_at s c (le_bytes 4 (0 :: u32))"
  shows "Tx_Output_Decode C s c = Inl BERDecodeErr"
proof -
  have "c + 4 \<le> length s" using holds_at_bound [OF assms(2)] by simp
  moreover have "load_u32 s c = Inr 0" using assms(2) by (rule load_u32_holds)
  ultimately show ?thesis
    using assms(1) by (simp add: Tx_Output_Decode_def Let_def load_bytes_def BERDecode_def)
qed

subsection \<open>Transactions: the part before the outputs\<close>

definition tx_head :: "('pub, 'priv) cryptopp \<Rightarrow> 'pub tx \<Rightarrow> bytes" where
  "tx_head C t =
     le_bytes 4 (tx_version t) @ le_bytes 4 (tx_timestamp t) @
     le_bytes 4 (word_of_nat (length (pub_Save C (tx_origin t))) :: u32) @
     pub_Save C (tx_origin t) @
     le_bytes 4 (word_of_nat (length (tx_inputs t)) :: u32) @
     concat (map Tx_Input_Serialize (tx_inputs t)) @
     le_bytes 4 (word_of_nat (length (tx_outputs t)) :: u32)"

definition tx_ok :: "('pub, 'priv) cryptopp \<Rightarrow> 'pub tx \<Rightarrow> bool" where
  "tx_ok C t \<longleftrightarrow>
     key_ok C (tx_origin t) \<and> list_all input_ok (tx_inputs t) \<and>
     list_all (output_ok C) (tx_outputs t) \<and>
     length (tx_inputs t) < 2 ^ 32 \<and> length (tx_outputs t) < 2 ^ 32"

lemma Tx_Serialize_split:
  "Tx_Serialize C t = tx_head C t @ concat (map (Tx_Output_Serialize C) (tx_outputs t))"
  by (simp add: Tx_Serialize_def tx_head_def Let_def)

lemma Tx_Decode_head:
  assumes "tx_ok C t" and "holds_at s c (tx_head C t)"
  shows "Tx_Decode C s c =
    rbind (read_many (Tx_Output_Decode C) (length (tx_outputs t)) s (c + length (tx_head C t)))
      (\<lambda>(outputs, cr). Inr (t\<lparr>tx_hash := SHA256 C s, tx_sig := [], tx_outputs := outputs\<rparr>, cr))"
proof -
  let ?k = "pub_Save C (tx_origin t)" and ?ins = "concat (map Tx_Input_Serialize (tx_inputs t))"
  have key: "key_ok C (tx_origin t)" and ins: "list_all input_ok (tx_inputs t)"
    using assms(1) by (simp_all add: tx_ok_def)
  have sizes: "unat (word_of_nat (length (tx_inputs t)) :: u32) = length (tx_inputs t)"
      "unat (word_of_nat (length (tx_outputs t)) :: u32) = length (tx_outputs t)"
    using assms(1) by (simp_all add: tx_ok_def unat_of_nat_small)
  have h: "holds_at s c (le_bytes 4 (tx_version t))"
      "holds_at s (c + 4) (le_bytes 4 (tx_timestamp t))"
      "holds_at s (c + 8) (le_bytes 4 (word_of_nat (length ?k) :: u32))"
      "holds_at s (c + 12) ?k"
      "holds_at s (c + 12 + length ?k) (le_bytes 4 (word_of_nat (length (tx_inputs t)) :: u32))"
      "holds_at s (c + 12 + length ?k + 4) ?ins"
      "holds_at s (c + 12 + length ?k + 4 + length ?ins)
         (le_bytes 4 (word_of_nat (length (tx_outputs t)) :: u32))"
    using assms(2) by (simp_all add: tx_head_def holds_at_append add.assoc)
  have many: "read_many Tx_Input_Decode (length (tx_inputs t)) s (c + 12 + length ?k + 4) =
      Inr (tx_inputs t, c + 12 + length ?k + 4 + length ?ins)"
    using input_wire.many_holds [OF ins h(6)] by simp
  note loads = h(1,2,3,5,7) [THEN load_u32_holds] h(4) [THEN load_bytes_holds, OF refl]
    many
  have "c + length (tx_head C t) = c + 12 + length ?k + 4 + length ?ins + 4"
    by (simp add: tx_head_def)
  then show ?thesis
    by (simp only: Tx_Decode_def Let_def loads sizes key_ok_length [OF key]
          BERDecode_Save [OF key] rbind.simps prod.case)
       (cases t, simp add: CalculateSHA256_def)
qed

lemma Tx_Decode_advance:
  assumes "Tx_Decode C s c = Inr (t, c')"
  shows "c + 20 + 12 * length (tx_inputs t) + 12 * length (tx_outputs t) \<le> c'
    \<and> c' \<le> Suc (length s)"
proof -
  from assms obtain n c1 m c2 where
    ins: "read_many Tx_Input_Decode n s c1 = Inr (tx_inputs t, c2)" and c1: "c + 16 \<le> c1"
    and c1s: "c1 \<le> Suc (length s)" and c2: "load_u32 s c2 = Inr m"
    and outs: "read_many (Tx_Output_Decode C) (unat m) s (c2 + 4) = Inr (tx_outputs t, c')"
    by (auto simp: Tx_Decode_def Let_def dest: load_u32_bound)
  have "c1 + n * 12 \<le> c2" using input_wire.many_advance [OF ins c1s] by simp
  moreover have "length (tx_inputs t) = n" using ins by (rule read_many_length)
  moreover have "c2 + 4 \<le> Suc (length s)" using c2 by (rule load_u32_bound)
  moreover from output_wire.many_advance [OF outs this]
  have "c2 + 4 + unat m * 12 \<le> c'" and "c' \<le> Suc (length s)" by simp_all
  moreover have "length (tx_outputs t) = unat m" using outs by (rule read_many_length)
  ultimately show ?thesis using c1 by linarith
qed

subsection \<open>Transactions: the format the decoder reads\<close>

definition tx_read_format :: "('pub, 'priv) cryptopp \<Rightarrow> 'pub tx \<Rightarrow> bytes" where
  "tx_read_format C t = tx_head C t @ concat (map (output_read_format C) (tx_outputs t))"

definition tx_as_read :: "('pub, 'priv) cryptopp \<Rightarrow> bytes \<Rightarrow> 'pub tx \<Rightarrow> 'pub tx" where
  "tx_as_read C s t =
     t\<lparr>tx_hash := SHA256 C s, tx_sig := [], tx_outputs := map output_as_read (tx_outputs t)\<rparr>"

lemma Tx_Decode_format:
  assumes "tx_ok C t" and "holds_at s c (tx_read_format C t)"
  shows "Tx_Decode C s c = Inr (tx_as_read C s t, c + length (tx_read_format C t))"
proof -
  have h: "holds_at s c (tx_head C t)"
      "holds_at s (c + length (tx_head C t)) (concat (map (output_read_format C) (tx_outputs t)))"
    using assms(2) by (simp_all add: tx_read_format_def holds_at_append)
  have "list_all (output_ok C) (tx_outputs t)" using assms(1) by (simp add: tx_ok_def)
  from output_wire.many_holds [OF this h(2)] show ?thesis
    by (simp add: Tx_Decode_head [OF assms(1) h(1)] tx_as_read_def tx_read_format_def)
qed

lemma Tx_Decode_advance_20:
  "Tx_Decode C s c = Inr (t, c') \<Longrightarrow> c + 20 \<le> c' \<and> c' \<le> Suc (length s)"
  using Tx_Decode_advance by fastforce

interpretation tx_wire:
  cursor_codec "Tx_Decode C" 20 "tx_read_format C" "tx_ok C" "tx_as_read C" for C
  by unfold_locales (simp_all add: Tx_Decode_advance_20 Tx_Decode_format)

text \<open>
  With one output the serialised form is the read format and four more bytes, the high half of
  the coins, which the decoder leaves behind its cursor. With two, the second output is decoded
  from those four bytes on.
\<close>

lemma Tx_Serialize_single:
  "tx_outputs t = [o1] \<Longrightarrow>
     Tx_Serialize C t = tx_read_format C t @ le_bytes 4 (drop_bit 32 (txo_coins o1))"
  by (simp add: Tx_Serialize_split tx_read_format_def Tx_Output_Serialize_split)

lemma tx_ok_outputs: "tx_ok C t \<Longrightarrow> tx_outputs t = o1 # os \<Longrightarrow> output_ok C o1"
  by (simp add: tx_ok_def)

lemma Tx_Decode_two_outputs:
  assumes ok: "tx_ok C t" and outs: "tx_outputs t = o1 # o2 # os"
    and small: "txo_coins o1 < 2 ^ 32" and empty: "pub_BERDecode C [] = None"
    and held: "holds_at s c (Tx_Serialize C t)"
  shows "Tx_Decode C s c = Inl BERDecodeErr"
proof -
  let ?p = "c + length (tx_head C t)"
  have h: "holds_at s c (tx_head C t)" "holds_at s ?p (output_read_format C o1)"
      "holds_at s (?p + length (output_read_format C o1)) (le_bytes 4 (0 :: u32))"
    using held small
    by (simp_all add: Tx_Serialize_split outs Tx_Output_Serialize_split holds_at_append
        u64_small(2) del: le_bytes_0) (simp_all add: u64_small(2))
  have "Tx_Output_Decode C s ?p = Inr (output_as_read o1, ?p + length (output_read_format C o1))"
    using tx_ok_outputs [OF ok outs] h(2) by (rule Tx_Output_Decode_format)
  moreover have "Tx_Output_Decode C s (?p + length (output_read_format C o1)) = Inl BERDecodeErr"
    using empty h(3) by (rule Tx_Output_Decode_empty_key)
  ultimately show ?thesis by (simp add: Tx_Decode_head [OF ok h(1)] outs)
qed

text \<open>The two ways a decoder fails.\<close>

definition decode_errors :: "error set" where
  "decode_errors = {Out_of_bounds, BERDecodeErr}"

lemma Tx_Input_Decode_Inl: "Tx_Input_Decode s c = Inl e \<Longrightarrow> e = Out_of_bounds"
  by (auto simp: Tx_Input_Decode_def Let_def rbind_eq_Inl load_Inl)

lemma Tx_Output_Decode_Inl: "Tx_Output_Decode C s c = Inl e \<Longrightarrow> e \<in> decode_errors"
  by (auto simp: Tx_Output_Decode_def Let_def rbind_eq_Inl load_Inl decode_errors_def
      dest: BERDecode_Inl)

lemma Tx_Decode_Inl: "Tx_Decode C s c = Inl e \<Longrightarrow> e \<in> decode_errors"
  by (auto simp: Tx_Decode_def Let_def rbind_eq_Inl load_Inl decode_errors_def
      dest: BERDecode_Inl dest!: read_many_Inl Tx_Input_Decode_Inl Tx_Output_Decode_Inl)

subsection \<open>Properties of the wire format\<close>

text \<open>
  A serialised input, wherever it stands in a buffer, is decoded to itself and the cursor
  moves to its end; the two hashes must fit their 32-bit size fields.
\<close>

theorem input_roundtrip:
  assumes "length (txi_block_hash i) < 2 ^ 32" and "length (txi_input_hash i) < 2 ^ 32"
  shows "Tx_Input_Decode (pre @ Tx_Input_Serialize i @ post) (length pre) =
    Inr (i, length pre + length (Tx_Input_Serialize i))"
  using assms by (intro input_wire.dec_enc_at) (simp add: input_ok_def)

definition demo_input :: tx_input where
  "demo_input =
     \<lparr>txi_block_hash = lit ''ABCDEFG'', txi_input_hash = lit ''XYZZZZZ'', txi_index = 3\<rparr>"

theorem input_roundtrip_witness:
  "Tx_Input_Decode ([9] @ Tx_Input_Serialize demo_input @ [7, 7]) (length [9 :: u8]) =
    Inr (demo_input, length [9 :: u8] + length (Tx_Input_Serialize demo_input))"
  by (rule input_roundtrip) (simp_all add: demo_input_def)

text \<open>
  C37: decoding inputs loses nothing. If a counted run of input decodes succeeds from a cursor
  inside the buffer, serialising the inputs it returned gives exactly the bytes between the two
  cursors (of the string and its terminating zero).
\<close>

theorem inputs_reprint:
  assumes "read_many Tx_Input_Decode n s c = Inr (ins, c')" and "c \<le> length s + 1"
  shows "concat (map Tx_Input_Serialize ins) = segment s c c'"
  using assms by (intro input_lossless.many_reprint) simp_all

theorem inputs_reprint_witness:
  "concat (map Tx_Input_Serialize [demo_input, demo_input]) =
     segment (Tx_Input_Serialize demo_input @ Tx_Input_Serialize demo_input) 0
       (length (Tx_Input_Serialize demo_input @ Tx_Input_Serialize demo_input))"
proof (rule inputs_reprint)
  have "list_all input_ok [demo_input, demo_input]"
    by (simp add: input_ok_def demo_input_def)
  from input_wire.many_roundtrip [OF this, of "[]" "[]"]
  show "read_many Tx_Input_Decode (length [demo_input, demo_input])
      (Tx_Input_Serialize demo_input @ Tx_Input_Serialize demo_input) 0
      = Inr ([demo_input, demo_input],
          length (Tx_Input_Serialize demo_input @ Tx_Input_Serialize demo_input))"
    by (simp del: read_many.simps)
qed simp

text \<open>
  C35: an output is not decoded to itself. For every output whose key decodes, the decoder
  returns it with the coins cut to their low 32 bits and stops 4 bytes before the end of what
  the serialiser wrote.
\<close>

theorem output_decode_lossy:
  assumes "key_ok C (txo_target o1)"
  shows "Tx_Output_Decode C (pre @ Tx_Output_Serialize C o1 @ post) (length pre) =
    Inr (o1\<lparr>txo_coins := take_bit 32 (txo_coins o1)\<rparr>,
         length pre + length (Tx_Output_Serialize C o1) - 4)"
  using output_wire.dec_enc_at [of C o1 pre "le_bytes 4 (drop_bit 32 (txo_coins o1)) @ post"] assms
  by (simp add: Tx_Output_Serialize_split output_ok_def output_as_read_def)

definition demo_output :: "u8 tx_output" where
  "demo_output = \<lparr>txo_target = 5, txo_index = 3, txo_coins = 2 ^ 32 + 100\<rparr>"

theorem output_decode_lossy_witness:
  "Tx_Output_Decode toy_crypto ([] @ Tx_Output_Serialize toy_crypto demo_output @ []) (length ([] :: bytes)) =
    Inr (demo_output\<lparr>txo_coins := take_bit 32 (txo_coins demo_output)\<rparr>,
         length ([] :: bytes) + length (Tx_Output_Serialize toy_crypto demo_output) - 4)"
  by (rule output_decode_lossy) (rule crypto_laws_key_ok [OF toy_crypto_laws])

subsection \<open>Construction and verification\<close>

lemma Tx_Serialize_unsigned [simp]:
  "Tx_Serialize C (t\<lparr>tx_hash := h\<rparr>) = Tx_Serialize C t"
  "Tx_Serialize C (t\<lparr>tx_sig := g\<rparr>) = Tx_Serialize C t"
  by (simp_all add: Tx_Serialize_def Let_def)

lemma tx_ok_unsigned [simp]:
  "tx_ok C (t\<lparr>tx_hash := h\<rparr>) = tx_ok C t"
  "tx_ok C (t\<lparr>tx_sig := g\<rparr>) = tx_ok C t"
  by (simp_all add: tx_ok_def)

lemma ConstructAndSign_Inr:
  assumes "ConstructAndSign C rng now ins outs pk sk = Inr t"
  shows "tx_inputs t = ins" and "tx_outputs t = outs" and "tx_origin t = pk"
    and "tx_hash t = SHA256 C (Tx_Serialize C t)"
    and "tx_sig t = SignMessage C rng (Tx_Serialize C t @ tx_hash t) pk sk"
    and "ins \<noteq> []" and "outs \<noteq> []" and "\<not> list_ex (\<lambda>out. txo_target out = pk) outs"
  using assms by (auto simp: ConstructAndSign_def Tx_Serialize_def Let_def split: if_splits)

lemma DecodeAndVerify_Inr:
  "DecodeAndVerify C s g key = Inr t \<longleftrightarrow>
     (\<exists>t' c'. Tx_Decode C s 0 = Inr (t', c') \<and>
        ValidateSignature C (s @ tx_hash t') g key \<and> t = t'\<lparr>tx_sig := g\<rparr>)"
  by (cases "Tx_Decode C s 0") (auto simp: DecodeAndVerify_def split: if_splits)

lemma Tx_Decode_hash: "Tx_Decode C s c = Inr (t, c') \<Longrightarrow> tx_hash t = SHA256 C s"
  by (auto simp: Tx_Decode_def Let_def CalculateSHA256_def)

lemma Tx_Decode_single:
  assumes "tx_ok C t" and "tx_outputs t = [o1]"
  shows "Tx_Decode C (Tx_Serialize C t) 0 =
    Inr (tx_as_read C (Tx_Serialize C t) t, length (Tx_Serialize C t) - 4)"
  using Tx_Decode_format [OF assms(1), of "Tx_Serialize C t" 0] assms(2)
  by (simp add: Tx_Serialize_single)

text \<open>A transaction of one output, decoded and checked.\<close>

lemma DecodeAndVerify_single:
  assumes "tx_ok C t" "tx_outputs t = [o1]" "txo_coins o1 < 2 ^ 32"
    and "tx_hash t = SHA256 C (Tx_Serialize C t)"
  shows "DecodeAndVerify C (Tx_Serialize C t) g key =
     (if ValidateSignature C (Tx_Serialize C t @ tx_hash t) g key then Inr (t\<lparr>tx_sig := g\<rparr>)
      else Inl (Runtime_error ''Failed to DecodeAndVerify Tx''))"
proof -
  have "tx_as_read C (Tx_Serialize C t) t\<lparr>tx_sig := g\<rparr> = t\<lparr>tx_sig := g\<rparr>"
    using assms(2-4) by (cases t) (simp add: tx_as_read_def output_as_read_small)
  moreover have "tx_hash (tx_as_read C (Tx_Serialize C t) t) = tx_hash t"
    using assms(4) by (simp add: tx_as_read_def)
  ultimately show ?thesis
    using Tx_Decode_single [OF assms(1,2)] by (simp add: DecodeAndVerify_def)
qed

text \<open>
  C1: a transaction with one output, of fewer than 2^32 coins, that \<open>ConstructAndSign\<close> built
  survives the trip to another node: what \<open>DecodeAndVerify\<close> returns for its bytes, its
  signature and the sender's key is the same transaction, hash and signature included.
\<close>

theorem signed_tx_roundtrip:
  assumes laws: "crypto_laws C"
    and made: "ConstructAndSign C rng now ins [o1] (AssignFrom C sk) sk = Inr t"
    and small: "txo_coins o1 < 2 ^ 32"
    and ins: "list_all input_ok ins" "length ins < 2 ^ 32"
  shows "DecodeAndVerify C (Tx_Serialize C t) (tx_sig t) (AssignFrom C sk) = Inr t"
proof -
  note t = ConstructAndSign_Inr [OF made]
  have ok: "tx_ok C t"
    using t ins laws by (simp add: tx_ok_def output_ok_def crypto_laws_key_ok)
  have "ValidateSignature C (Tx_Serialize C t @ tx_hash t) (tx_sig t) (AssignFrom C sk)"
    unfolding t(5) by (rule dsa.verify_sign) (simp add: key_pair_def laws)
  then show ?thesis using DecodeAndVerify_single [OF ok t(2) small t(4)] by simp
qed

definition demo_target :: "u8 tx_output" where
  "demo_target = \<lparr>txo_target = 5, txo_index = 3, txo_coins = 100\<rparr>"

definition demo_tx :: "u8 tx" where
  "demo_tx =
     (case ConstructAndSign toy_crypto 0 1000 [demo_input] [demo_target] 7 7 of
        Inl _ \<Rightarrow> undefined | Inr t \<Rightarrow> t)"

lemma demo_tx_signed:
  "ConstructAndSign toy_crypto 0 1000 [demo_input] [demo_target] (AssignFrom toy_crypto 7) 7 =
     Inr demo_tx"
  by (simp add: demo_tx_def ConstructAndSign_def Let_def demo_target_def toy_crypto_def)

lemma demo_tx_ok: "tx_ok toy_crypto demo_tx"
  using ConstructAndSign_Inr [OF demo_tx_signed]
  by (simp add: tx_ok_def output_ok_def crypto_laws_key_ok [OF toy_crypto_laws]
      input_ok_def demo_input_def)

theorem signed_tx_roundtrip_witness:
  "DecodeAndVerify toy_crypto (Tx_Serialize toy_crypto demo_tx) (tx_sig demo_tx)
     (AssignFrom toy_crypto 7) = Inr demo_tx"
proof (rule signed_tx_roundtrip [OF toy_crypto_laws demo_tx_signed])
  show "txo_coins demo_target < 2 ^ 32" by (simp add: demo_target_def)
  show "list_all input_ok [demo_input]" by (simp add: input_ok_def demo_input_def)
qed simp

text \<open>
  C5: a transaction with two or more outputs cannot be received. Whatever \<open>ConstructAndSign\<close>
  signs with a second output, if the first one carries fewer than 2^32 coins, \<open>DecodeAndVerify\<close>
  throws \<open>BERDecodeErr\<close> on its bytes, for every signature and key.
\<close>

theorem two_outputs_rejected:
  assumes laws: "crypto_laws C"
    and made: "ConstructAndSign C rng now ins (o1 # o2 # os) pk sk = Inr t"
    and small: "txo_coins o1 < 2 ^ 32"
    and sizes: "list_all input_ok ins" "length ins < 2 ^ 32" "length os + 2 < 2 ^ 32"
  shows "DecodeAndVerify C (Tx_Serialize C t) g key = Inl BERDecodeErr"
proof -
  note t = ConstructAndSign_Inr [OF made]
  have "tx_ok C t"
    using t sizes laws by (auto simp: tx_ok_def output_ok_def crypto_laws_key_ok list_all_iff)
  from Tx_Decode_two_outputs [OF this t(2) small crypto_laws_empty [OF laws] holds_at_whole]
  show ?thesis by (simp add: DecodeAndVerify_def)
qed

theorem two_outputs_rejected_witness:
  "\<exists>t. ConstructAndSign toy_crypto 0 1000 [demo_input] [demo_target, demo_target] 7 7 = Inr t \<and>
     DecodeAndVerify toy_crypto (Tx_Serialize toy_crypto t) (tx_sig t) 7 = Inl BERDecodeErr"
proof -
  obtain t where t: "ConstructAndSign toy_crypto 0 1000 [demo_input] [demo_target, demo_target] 7 7 = Inr t"
    by (simp add: ConstructAndSign_def Let_def demo_target_def toy_crypto_def)
  have "DecodeAndVerify toy_crypto (Tx_Serialize toy_crypto t) (tx_sig t) 7 = Inl BERDecodeErr"
    by (rule two_outputs_rejected [OF toy_crypto_laws t])
      (simp_all add: input_ok_def demo_input_def demo_target_def)
  with t show ?thesis by blast
qed

text \<open>
  C9: \<open>ConstructAndSign\<close> returns a transaction exactly when there is an input, there is an
  output and no output pays the sender; with a key pair the transaction then verifies, and its
  hash is the digest of its own serialisation.
\<close>

theorem construct_and_sign_correct:
  assumes "key_pair C pk sk"
  shows "((\<exists>t. ConstructAndSign C rng now ins outs pk sk = Inr t) \<longleftrightarrow>
           ins \<noteq> [] \<and> outs \<noteq> [] \<and> pk \<notin> txo_target ` set outs) \<and>
         (\<forall>t. ConstructAndSign C rng now ins outs pk sk = Inr t \<longrightarrow>
           Tx_Verify C t \<and> tx_hash t = CalculateSHA256 C (Tx_Serialize C t) \<and>
           tx_inputs t = ins \<and> tx_outputs t = outs \<and> tx_origin t = pk)"
proof
  show "(\<exists>t. ConstructAndSign C rng now ins outs pk sk = Inr t) \<longleftrightarrow>
           ins \<noteq> [] \<and> outs \<noteq> [] \<and> pk \<notin> txo_target ` set outs"
    by (auto simp: ConstructAndSign_def Let_def list_ex_iff)
next
  show "\<forall>t. ConstructAndSign C rng now ins outs pk sk = Inr t \<longrightarrow>
           Tx_Verify C t \<and> tx_hash t = CalculateSHA256 C (Tx_Serialize C t) \<and>
           tx_inputs t = ins \<and> tx_outputs t = outs \<and> tx_origin t = pk"
  proof (intro allI impI)
    fix t
    assume "ConstructAndSign C rng now ins outs pk sk = Inr t"
    note t = ConstructAndSign_Inr [OF this]
    have "ValidateSignature C (Tx_Serialize C t @ tx_hash t) (tx_sig t) (tx_origin t)"
      unfolding t(3,5) using assms by (rule dsa.verify_sign)
    then show "Tx_Verify C t \<and> tx_hash t = CalculateSHA256 C (Tx_Serialize C t) \<and>
        tx_inputs t = ins \<and> tx_outputs t = outs \<and> tx_origin t = pk"
      using t by (simp add: Tx_Verify_def CalculateSHA256_def)
  qed
qed

theorem construct_and_sign_correct_witness:
  "Tx_Verify toy_crypto demo_tx \<and> tx_inputs demo_tx = [demo_input]"
proof -
  have "key_pair toy_crypto (AssignFrom toy_crypto 7) 7"
    by (simp add: key_pair_def toy_crypto_laws)
  from construct_and_sign_correct [OF this, of 0 1000 "[demo_input]" "[demo_target]"] demo_tx_signed
  show ?thesis by simp
qed

text \<open>
  Acceptance is exact. \<open>DecodeAndVerify\<close> returns a transaction exactly when the buffer
  decodes and the signature checks, under the given key, over the buffer followed by its digest;
  a buffer that decodes but does not check raises the runtime error, and no other result exists.
\<close>

theorem decode_and_verify_exact:
  "DecodeAndVerify C s g key =
     (case Tx_Decode C s 0 of
        Inl e \<Rightarrow> Inl e
      | Inr (t, c') \<Rightarrow>
          if Verifier_check C key (s @ SHA256 C s @ g) then Inr (t\<lparr>tx_sig := g\<rparr>)
          else Inl (Runtime_error ''Failed to DecodeAndVerify Tx''))"
  by (auto simp: DecodeAndVerify_def ValidateSignature_def Tx_Decode_hash split: sum.split)

text \<open>
  C31: the sender's key inside the transaction is not compared with the key the signature is
  checked under. Anyone with a key pair gets any decodable transaction accepted under their own
  key, with the origin it names untouched.
\<close>

theorem origin_not_bound:
  assumes laws: "crypto_laws C" and dec: "Tx_Decode C s 0 = Inr (t, c')"
  shows "DecodeAndVerify C s
      (SignMessage C rng (s @ CalculateSHA256 C s) (AssignFrom C mallory) mallory)
      (AssignFrom C mallory) =
    Inr (t\<lparr>tx_sig := SignMessage C rng (s @ CalculateSHA256 C s) (AssignFrom C mallory) mallory\<rparr>)"
proof -
  have "ValidateSignature C (s @ tx_hash t)
      (SignMessage C rng (s @ tx_hash t) (AssignFrom C mallory) mallory) (AssignFrom C mallory)"
    by (rule dsa.verify_sign) (simp add: key_pair_def laws)
  then show ?thesis
    using dec by (simp add: DecodeAndVerify_def CalculateSHA256_def Tx_Decode_hash [OF dec])
qed

theorem origin_not_bound_witness:
  "\<exists>g t. DecodeAndVerify toy_crypto (Tx_Serialize toy_crypto demo_tx) g (AssignFrom toy_crypto 99) = Inr t
     \<and> tx_origin t = 7"
proof -
  note t = ConstructAndSign_Inr [OF demo_tx_signed]
  let ?g = "SignMessage toy_crypto 0 (Tx_Serialize toy_crypto demo_tx @
    CalculateSHA256 toy_crypto (Tx_Serialize toy_crypto demo_tx)) (AssignFrom toy_crypto 99) 99"
  have "DecodeAndVerify toy_crypto (Tx_Serialize toy_crypto demo_tx) ?g (AssignFrom toy_crypto 99) =
      Inr (tx_as_read toy_crypto (Tx_Serialize toy_crypto demo_tx) demo_tx\<lparr>tx_sig := ?g\<rparr>)"
    by (rule origin_not_bound [OF toy_crypto_laws Tx_Decode_single [OF demo_tx_ok t(2)]])
  moreover have "tx_origin demo_tx = 7" using t(3) by (simp add: toy_crypto_def)
  ultimately show ?thesis by (intro exI conjI) (assumption, simp add: tx_as_read_def)
qed

end
