(* ===== verification/Chain.thy ===== *)
theory Chain
  imports Transaction
begin

section \<open>Blocks and the chain (blockchain.hpp, blockchain.cpp)\<close>

text \<open>
  The block record, its wire format, hash and decoder, and the blockchain object, most of whose
  operations are empty bodies at this commit.
\<close>

subsection \<open>Data\<close>

record 'pub block =
  b_tx :: "'pub tx list"
  b_index :: u64
  b_solved :: u8
  b_bit_thresh :: u8
  b_prev_hash :: bytes
  b_hash :: bytes
  b_timestamp :: u64
  b_nonce :: u32
  b_coinbase :: "'pub tx_coinbase"

record 'pub mempool =
  mp_trans :: "'pub tx list"

text \<open>The shared pointers are never written through, so the map holds the blocks themselves.\<close>

record 'pub blockchain =
  bc_genesis :: "'pub block"
  bc_blocks_by_hash :: "bytes \<rightharpoonup> 'pub block"
  bc_mempool :: "'pub mempool"

text \<open>
  What the constructor \<open>Block()\<close> finds: the clock, and whatever bytes stand in the two fields it
  leaves uninitialised (\<open>solved\<close> and \<open>coinbase.coins\<close>).
\<close>

record fresh =
  fr_now :: u64
  fr_solved :: u8
  fr_coins :: u64

definition Block_new :: "('pub, 'priv) cryptopp \<Rightarrow> fresh \<Rightarrow> 'pub block" where
  "Block_new C fr =
     \<lparr>b_tx = [], b_index = 0, b_solved = fr_solved fr, b_bit_thresh = 0, b_prev_hash = [],
      b_hash = [], b_timestamp = fr_now fr, b_nonce = 0,
      b_coinbase = \<lparr>cb_coins = fr_coins fr, cb_target = pub_default C\<rparr>\<rparr>"

subsection \<open>Wire format and hash\<close>

definition Block_Serialize :: "('pub, 'priv) cryptopp \<Rightarrow> 'pub block \<Rightarrow> bytes" where
  "Block_Serialize C b =
     (let hash_size = (word_of_nat (length (b_prev_hash b)) :: u32);
          coinbase_string = pub_Save C (cb_target (b_coinbase b));
          keysize = (word_of_nat (length coinbase_string) :: u32);
          tx_size = (word_of_nat (length (b_tx b)) :: u32)
      in le_bytes 8 (b_index b) @
         le_bytes 1 (b_bit_thresh b) @
         le_bytes 4 hash_size @ b_prev_hash b @
         le_bytes 4 (b_nonce b) @
         le_bytes 8 (b_timestamp b) @
         le_bytes 4 keysize @ coinbase_string @
         le_bytes 8 (cb_coins (b_coinbase b)) @
         le_bytes 4 tx_size @ concat (map (Tx_Serialize C) (b_tx b)))"

text \<open>\<open>Hash()\<close> stores the digest in the block and returns it.\<close>

definition Block_Hash :: "('pub, 'priv) cryptopp \<Rightarrow> 'pub block \<Rightarrow> bytes \<times> 'pub block" where
  "Block_Hash C b =
     (let h = CalculateSHA256 C (Block_Serialize C b) in (h, b\<lparr>b_hash := h\<rparr>))"

text \<open>
  The transactions are decoded before the coinbase key is. \<open>fr\<close> is what the local \<open>Block b\<close> starts
  from: its \<open>solved\<close> byte is never assigned.
\<close>

definition DecodeBlock ::
  "('pub, 'priv) cryptopp \<Rightarrow> fresh \<Rightarrow> bytes \<Rightarrow> 'pub block result" where
  "DecodeBlock C fr serial =
     (let b = Block_new C fr; cr = 0 in
     rbind (load_u64 serial cr) (\<lambda>blockindex. let cr = cr + 8 in
     rbind (load_u8 serial cr) (\<lambda>bit_thresh. let cr = cr + 1 in
     rbind (load_u32 serial cr) (\<lambda>hashlen.
     rbind (load_bytes serial (cr + 4) (unat hashlen)) (\<lambda>prev_hash. let cr = cr + (unat hashlen + 4) in
     rbind (load_u32 serial cr) (\<lambda>nonce. let cr = cr + 4 in
     rbind (load_u64 serial cr) (\<lambda>timestamp. let cr = cr + 8 in
     rbind (load_u32 serial cr) (\<lambda>coinbase_keysize.
     rbind (load_bytes serial (cr + 4) (unat coinbase_keysize)) (\<lambda>coinbase_key.
       let cr = cr + (unat coinbase_keysize + 4) in
     rbind (load_u64 serial cr) (\<lambda>coinbase_coins. let cr = cr + 8 in
     rbind (load_u32 serial cr) (\<lambda>nTx. let cr = cr + 4 in
     rbind (read_many (Tx_Decode C) (unat nTx) serial cr) (\<lambda>(transactions, cr).
     let b = b\<lparr>b_index := blockindex, b_bit_thresh := bit_thresh, b_prev_hash := prev_hash,
               b_nonce := nonce, b_timestamp := timestamp, b_tx := transactions\<rparr> in
     rbind (BERDecode C coinbase_key) (\<lambda>target.
     let b = b\<lparr>b_coinbase := \<lparr>cb_coins = coinbase_coins, cb_target = target\<rparr>\<rparr>;
         (h, b) = Block_Hash C b;
         b = b\<lparr>b_hash := h\<rparr>
     in Inr b)))))))))))))"

subsection \<open>The chain\<close>

text \<open>
  \<open>now\<close> is the constructor's own call of \<open>time\<close>, after the one in \<open>Block()\<close>. The genesis block
  is not entered into the map.
\<close>

definition Blockchain_new :: "('pub, 'priv) cryptopp \<Rightarrow> fresh \<Rightarrow> u64 \<Rightarrow> 'pub blockchain" where
  "Blockchain_new C fr now =
     \<lparr>bc_genesis = (Block_new C fr)\<lparr>b_index := 0, b_timestamp := now, b_nonce := 0,
                                  b_bit_thresh := 3, b_solved := 1\<rparr>,
      bc_blocks_by_hash = Map.empty, bc_mempool = \<lparr>mp_trans = []\<rparr>\<rparr>"

text \<open>The operations that have no body, or return a constant.\<close>

definition AddBlock :: "'pub blockchain \<Rightarrow> 'pub block \<Rightarrow> 'pub blockchain" where
  "AddBlock bc b = bc"

definition AcceptBlock :: "'pub blockchain \<Rightarrow> 'pub block \<Rightarrow> 'pub blockchain" where
  "AcceptBlock bc b = bc"

definition IsSolved :: "'pub block \<Rightarrow> bool" where
  "IsSolved b = True"

definition Block_Mine :: "'pub block \<Rightarrow> 'pub block" where
  "Block_Mine b = b"

definition IsValidBlock :: "'pub block \<Rightarrow> 'pub block \<Rightarrow> bool" where
  "IsValidBlock block prev_block = True"

definition IsValidChain :: "'pub blockchain \<Rightarrow> bool" where
  "IsValidChain bc = True"

subsection \<open>The part before the transactions\<close>

definition block_head :: "('pub, 'priv) cryptopp \<Rightarrow> 'pub block \<Rightarrow> bytes" where
  "block_head C b =
     le_bytes 8 (b_index b) @ le_bytes 1 (b_bit_thresh b) @
     le_bytes 4 (word_of_nat (length (b_prev_hash b)) :: u32) @ b_prev_hash b @
     le_bytes 4 (b_nonce b) @ le_bytes 8 (b_timestamp b) @
     le_bytes 4 (word_of_nat (length (pub_Save C (cb_target (b_coinbase b)))) :: u32) @
     pub_Save C (cb_target (b_coinbase b)) @
     le_bytes 8 (cb_coins (b_coinbase b)) @
     le_bytes 4 (word_of_nat (length (b_tx b)) :: u32)"

definition block_ok :: "('pub, 'priv) cryptopp \<Rightarrow> 'pub block \<Rightarrow> bool" where
  "block_ok C b \<longleftrightarrow>
     key_ok C (cb_target (b_coinbase b)) \<and> length (b_prev_hash b) < 2 ^ 32 \<and>
     list_all (tx_ok C) (b_tx b) \<and> length (b_tx b) < 2 ^ 32"

lemma Block_Serialize_split:
  "Block_Serialize C b = block_head C b @ concat (map (Tx_Serialize C) (b_tx b))"
  by (simp add: Block_Serialize_def block_head_def Let_def)

lemma Block_Serialize_frame [simp]:
  "Block_Serialize C (b\<lparr>b_hash := h\<rparr>) = Block_Serialize C b"
  "Block_Serialize C (b\<lparr>b_solved := v\<rparr>) = Block_Serialize C b"
  by (simp_all add: Block_Serialize_def Let_def)

text \<open>The block a receiver builds when the transactions decode to \<open>txs\<close>.\<close>

definition block_received ::
  "('pub, 'priv) cryptopp \<Rightarrow> fresh \<Rightarrow> 'pub block \<Rightarrow> 'pub tx list \<Rightarrow> 'pub block" where
  "block_received C fr b txs =
     (let b' = b\<lparr>b_tx := txs, b_solved := fr_solved fr\<rparr>
      in b'\<lparr>b_hash := SHA256 C (Block_Serialize C b')\<rparr>)"

lemma DecodeBlock_head:
  assumes "block_ok C b" and "holds_at s 0 (block_head C b)"
  shows "DecodeBlock C fr s =
    rbind (read_many (Tx_Decode C) (length (b_tx b)) s (length (block_head C b)))
      (\<lambda>(txs, cr). Inr (block_received C fr b txs))"
proof -
  let ?h = "b_prev_hash b" and ?k = "pub_Save C (cb_target (b_coinbase b))"
  have key: "key_ok C (cb_target (b_coinbase b))" using assms(1) by (simp add: block_ok_def)
  have sizes: "unat (word_of_nat (length ?h) :: u32) = length ?h"
      "unat (word_of_nat (length (b_tx b)) :: u32) = length (b_tx b)"
    using assms(1) by (simp_all add: block_ok_def unat_of_nat_small)
  have h: "holds_at s 0 (le_bytes 8 (b_index b))"
      "holds_at s (0 + 8) (le_bytes 1 (b_bit_thresh b))"
      "holds_at s (0 + 8 + 1) (le_bytes 4 (word_of_nat (length ?h) :: u32))"
      "holds_at s (0 + 8 + 1 + 4) ?h"
      "holds_at s (0 + 8 + 1 + (length ?h + 4)) (le_bytes 4 (b_nonce b))"
      "holds_at s (0 + 8 + 1 + (length ?h + 4) + 4) (le_bytes 8 (b_timestamp b))"
      "holds_at s (0 + 8 + 1 + (length ?h + 4) + 4 + 8) (le_bytes 4 (word_of_nat (length ?k) :: u32))"
      "holds_at s (0 + 8 + 1 + (length ?h + 4) + 4 + 8 + 4) ?k"
      "holds_at s (0 + 8 + 1 + (length ?h + 4) + 4 + 8 + (length ?k + 4))
         (le_bytes 8 (cb_coins (b_coinbase b)))"
      "holds_at s (0 + 8 + 1 + (length ?h + 4) + 4 + 8 + (length ?k + 4) + 8)
         (le_bytes 4 (word_of_nat (length (b_tx b)) :: u32))"
    using assms(2)
    by (simp_all only: block_head_def holds_at_append length_le_bytes ac_simps)
  note loads = h(1,6,9) [THEN load_u64_holds] h(2) [THEN load_u8_holds]
    h(3,5,7,10) [THEN load_u32_holds] h(4,8) [THEN load_bytes_holds, OF refl]
  have len: "length (block_head C b) = 0 + 8 + 1 + (length ?h + 4) + 4 + 8 + (length ?k + 4) + 8 + 4"
    by (simp add: block_head_def)
  show ?thesis
    by (simp only: DecodeBlock_def Let_def loads sizes key_ok_length [OF key] len
          BERDecode_Save [OF key] rbind.simps prod.case)
       (cases b, cases "b_coinbase b", simp add: Block_Hash_def CalculateSHA256_def
          block_received_def Block_new_def Block_Serialize_def Let_def)
qed

subsection \<open>Success and failure of the block decoder\<close>

lemma DecodeBlock_Inr:
  assumes "DecodeBlock C fr s = Inr b"
  shows "b_hash b = SHA256 C (Block_Serialize C b)"
    and "list_all (\<lambda>t. tx_hash t = SHA256 C s \<and> tx_sig t = []) (b_tx b)"
    and "41 + 20 * length (b_tx b) \<le> Suc (length s)"
    and "b_solved b = fr_solved fr"
proof -
  from assms obtain n c ts c' where
    ts: "read_many (Tx_Decode C) n s c = Inr (ts, c')" and c: "41 \<le> c" "c \<le> Suc (length s)"
    and b: "b_tx b = ts" "b_hash b = SHA256 C (Block_Serialize C b)" "b_solved b = fr_solved fr"
    by (auto simp: DecodeBlock_def Block_Hash_def CalculateSHA256_def Let_def Block_new_def
        Block_Serialize_def dest!: load_u32_bound)
  show "b_hash b = SHA256 C (Block_Serialize C b)" and "b_solved b = fr_solved fr"
    using b by simp_all
  show "list_all (\<lambda>t. tx_hash t = SHA256 C s \<and> tx_sig t = []) (b_tx b)"
    unfolding b(1) using ts
    by (rule read_many_all) (auto simp: Tx_Decode_def Let_def CalculateSHA256_def)
  have "c + n * 20 \<le> Suc (length s)"
    using tx_wire.many_advance [OF ts c(2)] by simp
  with c(1) read_many_length [OF ts] show "41 + 20 * length (b_tx b) \<le> Suc (length s)"
    by (simp add: b(1))
qed

lemma DecodeBlock_Inl: "DecodeBlock C fr s = Inl e \<Longrightarrow> e \<in> decode_errors"
  by (auto simp: DecodeBlock_def Block_Hash_def Let_def rbind_eq_Inl load_Inl decode_errors_def
      dest: BERDecode_Inl dest!: read_many_Inl Tx_Decode_Inl)

lemma DecodeBlock_short:
  assumes "length s < 40"
  shows "DecodeBlock C fr s = Inl Out_of_bounds"
proof (cases "DecodeBlock C fr s")
  case (Inr b)
  from DecodeBlock_Inr(3) [OF this] assms show ?thesis by simp
next
  case (Inl e)
  have "e \<noteq> BERDecodeErr"
  proof
    assume "e = BERDecodeErr"
    with Inl obtain p w where "load_u32 s p = Inr w" and "37 \<le> p"
      by (auto simp: DecodeBlock_def Block_Hash_def Let_def rbind_eq_Inl load_Inl)
    with assms show False by (auto dest: load_u32_bound)
  qed
  with DecodeBlock_Inl [OF Inl] Inl show ?thesis by (simp add: decode_errors_def)
qed

subsection \<open>Which blocks survive the wire\<close>

text \<open>
  A transaction is relayable when its serialised form is what the decoder consumes, but for four
  zero bytes at its end: one output, of fewer than 2^32 coins. A block is relayable when it is
  empty or holds one relayable transaction, whose four left-over bytes end the buffer.
\<close>

definition tx_relayable :: "'pub tx \<Rightarrow> bool" where
  "tx_relayable t \<longleftrightarrow> (\<exists>o1. tx_outputs t = [o1] \<and> txo_coins o1 < 2 ^ 32)"

definition block_relayable :: "'pub block \<Rightarrow> bool" where
  "block_relayable b \<longleftrightarrow> b_tx b = [] \<or> (\<exists>t. b_tx b = [t] \<and> tx_relayable t)"

lemma tx_relayable_as_read:
  "tx_relayable t \<Longrightarrow> tx_as_read C s t = t\<lparr>tx_hash := SHA256 C s, tx_sig := []\<rparr>"
  by (cases t) (auto simp: tx_relayable_def tx_as_read_def output_as_read_small)

lemma DecodeBlock_relayable_at:
  assumes ok: "block_ok C b" and relayable: "block_relayable b"
  shows "DecodeBlock C fr (Block_Serialize C b @ post) =
    Inr (block_received C fr b (map (tx_as_read C (Block_Serialize C b @ post)) (b_tx b)))"
proof -
  let ?s = "Block_Serialize C b @ post"
  have head: "holds_at ?s 0 (block_head C b)" by (simp add: Block_Serialize_split)
  have "\<exists>tail. ?s = block_head C b @ concat (map (tx_read_format C) (b_tx b)) @ tail"
    using relayable
    by (auto simp: block_relayable_def tx_relayable_def Block_Serialize_split Tx_Serialize_single)
  then have "holds_at ?s (length (block_head C b)) (concat (map (tx_read_format C) (b_tx b)))"
    using holds_at_self by metis
  moreover have "list_all (tx_ok C) (b_tx b)" using ok by (simp add: block_ok_def)
  ultimately have "read_many (Tx_Decode C) (length (b_tx b)) ?s (length (block_head C b)) =
      Inr (map (tx_as_read C ?s) (b_tx b),
           length (block_head C b) + length (concat (map (tx_read_format C) (b_tx b))))"
    by (intro tx_wire.many_holds)
  then show ?thesis by (simp add: DecodeBlock_head [OF ok head])
qed

lemmas DecodeBlock_relayable = DecodeBlock_relayable_at [where post = "[]", simplified]

lemma relayable_block_decoded:
  fixes fr :: fresh
  assumes "block_ok C b" and "block_relayable b"
  defines "b' \<equiv> b\<lparr>b_hash := fst (Block_Hash C b), b_solved := fr_solved fr,
           b_tx := map (\<lambda>t. t\<lparr>tx_hash := fst (Block_Hash C b), tx_sig := []\<rparr>) (b_tx b)\<rparr>"
  shows "DecodeBlock C fr (Block_Serialize C b) = Inr b'" and "Block_Serialize C b' = Block_Serialize C b"
proof -
  let ?s = "Block_Serialize C b"
  let ?txs = "map (\<lambda>t. t\<lparr>tx_hash := SHA256 C ?s, tx_sig := []\<rparr>) (b_tx b)"
  have txs: "map (tx_as_read C ?s) (b_tx b) = ?txs"
    using assms(2) by (auto simp: block_relayable_def tx_relayable_as_read)
  let ?b = "b\<lparr>b_tx := ?txs, b_solved := fr_solved fr\<rparr>"
  have b': "b' = ?b\<lparr>b_hash := SHA256 C ?s\<rparr>"
    by (simp add: b'_def Block_Hash_def CalculateSHA256_def Let_def)
  have same: "Block_Serialize C ?b = ?s"
    by (simp add: Block_Serialize_def Let_def comp_def)
  show "DecodeBlock C fr ?s = Inr b'"
    unfolding DecodeBlock_relayable [OF assms(1,2)] txs block_received_def Let_def same b' ..
  show "Block_Serialize C b' = ?s" by (simp only: b' Block_Serialize_frame(1) same)
qed

text \<open>
  C2: a relayable block is received unchanged as a block: its serialisation and its hash are the
  sender's, and every field but the uninitialised \<open>solved\<close> byte is kept; each transaction in it
  keeps what it says but loses its signature and gets the block's digest as its hash.
\<close>

theorem block_roundtrip:
  assumes "block_ok C b" and "block_relayable b"
  shows "\<exists>b'. DecodeBlock C fr (Block_Serialize C b) = Inr b' \<and>
    Block_Serialize C b' = Block_Serialize C b \<and>
    b' = b\<lparr>b_hash := fst (Block_Hash C b), b_solved := fr_solved fr,
           b_tx := map (\<lambda>t. t\<lparr>tx_hash := fst (Block_Hash C b), tx_sig := []\<rparr>) (b_tx b)\<rparr>"
  using relayable_block_decoded [OF assms, of fr] by blast

definition demo_fresh :: fresh where
  "demo_fresh = \<lparr>fr_now = 5, fr_solved = 77, fr_coins = 0\<rparr>"

definition demo_block :: "u8 block" where
  "demo_block =
     \<lparr>b_tx = [demo_tx], b_index = 7, b_solved = 0, b_bit_thresh = 1, b_prev_hash = lit ''0'',
      b_hash = lit ''0'', b_timestamp = 1000, b_nonce = 0,
      b_coinbase = \<lparr>cb_coins = 100, cb_target = 9\<rparr>\<rparr>"

lemma demo_block_ok: "block_ok toy_crypto demo_block"
  by (simp add: block_ok_def demo_block_def demo_tx_ok crypto_laws_key_ok [OF toy_crypto_laws])

lemma demo_block_relayable: "block_relayable demo_block"
  using ConstructAndSign_Inr(2) [OF demo_tx_signed]
  by (simp add: block_relayable_def tx_relayable_def demo_block_def demo_target_def)

theorem block_roundtrip_witness:
  "\<exists>b'. DecodeBlock toy_crypto demo_fresh
      (Block_Serialize toy_crypto demo_block) = Inr b' \<and>
    Block_Serialize toy_crypto b' = Block_Serialize toy_crypto demo_block"
  using block_roundtrip [OF demo_block_ok demo_block_relayable] by blast

text \<open>
  C11: a block with two transactions sends the receiver out of the buffer. If the first has one
  output of fewer than 2^32 coins, the second is decoded four bytes early, so that its timestamp
  is taken for the size of its key; whenever that number exceeds the size of the block, as any
  recent Unix time does, the decoder reads past the end.
\<close>

theorem two_transactions_overread:
  assumes ok: "block_ok C b" and txs: "b_tx b = t1 # t2 # ts" and relayable: "tx_relayable t1"
    and late: "length (Block_Serialize C b) < unat (tx_timestamp t2)"
  shows "DecodeBlock C fr (Block_Serialize C b) = Inl Out_of_bounds"
proof -
  let ?s = "Block_Serialize C b" and ?p = "length (block_head C b)"
  let ?q = "?p + length (tx_read_format C t1)"
  from relayable have s1: "Tx_Serialize C t1 = tx_read_format C t1 @ le_bytes 4 (0 :: u32)"
    by (auto simp: tx_relayable_def Tx_Serialize_single u64_small)
  have s: "?s = block_head C b @ tx_read_format C t1 @ le_bytes 4 (0 :: u32) @
      le_bytes 4 (tx_version t2) @ le_bytes 4 (tx_timestamp t2) @
      (drop 8 (tx_head C t2) @ concat (map (Tx_Output_Serialize C) (tx_outputs t2)) @
       concat (map (Tx_Serialize C) ts))"
    by (simp add: Block_Serialize_split txs s1 Tx_Serialize_split [of C t2] tx_head_def
        del: le_bytes_0)
  have "holds_at ?s 0 ?s" by (rule holds_at_whole)
  then have h: "holds_at ?s 0 (block_head C b)" "holds_at ?s ?p (tx_read_format C t1)"
      "holds_at ?s ?q (le_bytes 4 (0 :: u32))"
      "holds_at ?s (?q + 4) (le_bytes 4 (tx_version t2))"
      "holds_at ?s (?q + 8) (le_bytes 4 (tx_timestamp t2))"
    by (subst (asm) (2) s, simp add: holds_at_append add.assoc del: le_bytes_0)+
  have "tx_ok C t1" using ok by (simp add: block_ok_def txs)
  then have "Tx_Decode C ?s ?p = Inr (tx_as_read C ?s t1, ?q)"
    using h(2) by (rule Tx_Decode_format)
  moreover have "Tx_Decode C ?s ?q = Inl Out_of_bounds"
    using h(3-5) [THEN load_u32_holds] late by (simp add: Tx_Decode_def Let_def load_bytes_def)
  ultimately show ?thesis
    by (simp add: DecodeBlock_head [OF ok h(1)] txs)
qed

definition late_tx :: "u8 tx" where
  "late_tx = demo_tx\<lparr>tx_timestamp := 1617000000\<rparr>"

lemma demo_tx_size: "length (Tx_Serialize toy_crypto demo_tx) = 64"
  using ConstructAndSign_Inr(1-3) [OF demo_tx_signed]
  by (simp add: Tx_Serialize_def Let_def toy_crypto_def demo_input_def demo_target_def
      Tx_Input_Serialize_def Tx_Output_Serialize_def)

theorem two_transactions_overread_witness:
  "DecodeBlock toy_crypto demo_fresh (Block_Serialize toy_crypto (demo_block\<lparr>b_tx := [demo_tx, late_tx]\<rparr>))
     = Inl Out_of_bounds"
proof (rule two_transactions_overread)
  let ?b = "demo_block\<lparr>b_tx := [demo_tx, late_tx]\<rparr>"
  have late: "Tx_Serialize toy_crypto late_tx = take 4 (Tx_Serialize toy_crypto demo_tx) @
      le_bytes 4 (1617000000 :: u32) @ drop 8 (Tx_Serialize toy_crypto demo_tx)"
    by (simp add: late_tx_def Tx_Serialize_def Let_def)
  have "tx_ok toy_crypto late_tx" using demo_tx_ok by (simp add: late_tx_def tx_ok_def)
  then show "block_ok toy_crypto ?b" using demo_block_ok demo_tx_ok by (simp add: block_ok_def)
  show "b_tx ?b = demo_tx # late_tx # []" by simp
  show "tx_relayable demo_tx" using demo_block_relayable
    by (simp add: block_relayable_def demo_block_def)
  show "length (Block_Serialize toy_crypto ?b) < unat (tx_timestamp late_tx)"
    using demo_tx_size by (simp add: Block_Serialize_def Let_def demo_block_def late)
      (simp add: late_tx_def toy_crypto_def)
qed

text \<open>
  C30: whatever the bytes, a block that \<open>DecodeBlock\<close> returns carries the digest of its own
  serialisation, and each of its transactions carries no signature and, in place of its own hash,
  the digest of the whole buffer: \<open>Tx::Verify\<close> on it checks an empty signature over the
  transaction followed by the block's digest. There is one transaction per 20 bytes at most.
\<close>

theorem received_block_contents:
  assumes "DecodeBlock C fr s = Inr b"
  shows "b_hash b = fst (Block_Hash C b) \<and>
    (\<forall>t \<in> set (b_tx b). tx_sig t = [] \<and> tx_hash t = CalculateSHA256 C s \<and>
       Tx_Verify C t = Verifier_check C (tx_origin t) (Tx_Serialize C t @ SHA256 C s)) \<and>
    41 + 20 * length (b_tx b) \<le> length s + 1"
proof -
  note b = DecodeBlock_Inr [OF assms]
  have "\<forall>t \<in> set (b_tx b). tx_hash t = SHA256 C s \<and> tx_sig t = []"
    using b(2) by (simp add: list_all_iff)
  then have "\<forall>t \<in> set (b_tx b). tx_sig t = [] \<and> tx_hash t = CalculateSHA256 C s \<and>
      Tx_Verify C t = Verifier_check C (tx_origin t) (Tx_Serialize C t @ SHA256 C s)"
    by (simp add: Tx_Verify_def ValidateSignature_def CalculateSHA256_def)
  with b(1,3) show ?thesis by (simp add: Block_Hash_def CalculateSHA256_def Let_def)
qed

theorem received_block_contents_witness:
  "\<exists>b. DecodeBlock toy_crypto demo_fresh (Block_Serialize toy_crypto demo_block) = Inr b \<and>
     b_hash b = fst (Block_Hash toy_crypto b)"
proof -
  obtain b where b: "DecodeBlock toy_crypto demo_fresh (Block_Serialize toy_crypto demo_block) = Inr b"
    using DecodeBlock_relayable [OF demo_block_ok demo_block_relayable] by blast
  from received_block_contents [OF b] b show ?thesis by blast
qed

text \<open>
  C39: the decoder of blocks has no failure of its own. On every buffer it returns a block, or
  CryptoPP throws \<open>BERDecodeErr\<close> on a key, or it reads out of bounds; and on every buffer of
  fewer than 40 bytes, the empty one included, it reads out of bounds.
\<close>

theorem decode_block_failures:
  "((\<exists>b. DecodeBlock C fr s = Inr b) \<or> DecodeBlock C fr s = Inl BERDecodeErr \<or>
     DecodeBlock C fr s = Inl Out_of_bounds) \<and>
   (length s < 40 \<longrightarrow> DecodeBlock C fr s = Inl Out_of_bounds)"
  using DecodeBlock_Inl [of C fr s] DecodeBlock_short [of s C fr]
  by (cases "DecodeBlock C fr s") (auto simp: decode_errors_def)

theorem decode_block_failures_witness:
  "DecodeBlock toy_crypto demo_fresh (lit ''hello'') =
     Inl Out_of_bounds"
  using decode_block_failures [of toy_crypto "demo_fresh" "lit ''hello''"]
  by simp

text \<open>
  A block whose first transaction has two outputs, the first of fewer than 2^32 coins, is
  refused by every receiver with \<open>BERDecodeErr\<close>.
\<close>

theorem block_two_outputs_rejected:
  assumes ok: "block_ok C b" and txs: "b_tx b = t1 # ts" and outs: "tx_outputs t1 = o1 # o2 # os"
    and small: "txo_coins o1 < 2 ^ 32" and laws: "crypto_laws C"
  shows "DecodeBlock C fr (Block_Serialize C b) = Inl BERDecodeErr"
proof -
  let ?s = "Block_Serialize C b"
  have "holds_at ?s 0 ?s" by (rule holds_at_whole)
  then have h: "holds_at ?s 0 (block_head C b)"
      "holds_at ?s (length (block_head C b)) (Tx_Serialize C t1)"
    by (subst (asm) (2) Block_Serialize_split, simp add: holds_at_append txs)+
  have "tx_ok C t1" using ok by (simp add: block_ok_def txs)
  from Tx_Decode_two_outputs [OF this outs small crypto_laws_empty [OF laws] h(2)]
  show ?thesis by (simp add: DecodeBlock_head [OF ok h(1)] txs)
qed

definition split_tx :: "u8 tx" where
  "split_tx = demo_tx\<lparr>tx_outputs := [demo_target, demo_target]\<rparr>"

theorem block_two_outputs_rejected_witness:
  "DecodeBlock toy_crypto demo_fresh
     (Block_Serialize toy_crypto (demo_block\<lparr>b_tx := [split_tx]\<rparr>)) = Inl BERDecodeErr"
proof (rule block_two_outputs_rejected [OF _ _ _ _ toy_crypto_laws])
  have "tx_ok toy_crypto split_tx"
    using demo_tx_ok by (simp add: split_tx_def tx_ok_def output_ok_def
        crypto_laws_key_ok [OF toy_crypto_laws])
  then show "block_ok toy_crypto (demo_block\<lparr>b_tx := [split_tx]\<rparr>)"
    using demo_block_ok by (simp add: block_ok_def)
  show "b_tx (demo_block\<lparr>b_tx := [split_tx]\<rparr>) = split_tx # []" by simp
  show "tx_outputs split_tx = demo_target # demo_target # []" by (simp add: split_tx_def)
  show "txo_coins demo_target < 2 ^ 32" by (simp add: demo_target_def)
qed

end
