(* ===== verification/JumboPacket.thy ===== *)
theory JumboPacket
  imports Chain
begin

section \<open>Packets (jumbopacket.hpp, jumbopacket.cpp)\<close>

text \<open>
  The message framing between nodes: a magic word, a message type, and data whose shape depends
  on the type. The pointers of \<open>EncodedPacket.targets\<close> are addresses (\<open>nat\<close>).
\<close>

subsection \<open>Constants and data\<close>

definition MAGIC_WORD :: u32 where "MAGIC_WORD = 0xFA00AF00"

definition HIGHEST_MESSAGE_TYPE :: int where "HIGHEST_MESSAGE_TYPE = 0x0005"

definition CLIENT_NULL :: u16 where "CLIENT_NULL = 0x0000"
definition CLIENT_POKE :: u16 where "CLIENT_POKE = 0x0001"
definition CLIENT_HEARTBEAT :: u16 where "CLIENT_HEARTBEAT = 0x0002"
definition SIMPLE_STRING :: u16 where "SIMPLE_STRING = 0x0003"
definition MINED_BLOCK :: u16 where "MINED_BLOCK = 0x0004"
definition BLOCK_HEADERS :: u16 where "BLOCK_HEADERS = 0x0005"
definition BROADCAST_TX :: u16 where "BROADCAST_TX = 0x0006"

definition DATA_START :: nat where "DATA_START = 0x06"

lemmas type_defs = CLIENT_NULL_def CLIENT_POKE_def CLIENT_HEARTBEAT_def SIMPLE_STRING_def
  MINED_BLOCK_def BLOCK_HEADERS_def BROADCAST_TX_def

record encoded_packet =
  ep_targets :: "nat list"
  ep_serial :: bytes

definition AddTarget :: "encoded_packet \<Rightarrow> nat \<Rightarrow> encoded_packet" where
  "AddTarget p client = p\<lparr>ep_targets := ep_targets p @ [client]\<rparr>"

record 'a decoded_packet =
  dp_messageType :: u16
  dp_data :: 'a

definition packet_Is :: "'a decoded_packet \<Rightarrow> u16 \<Rightarrow> bool" where
  "packet_Is p m \<longleftrightarrow> m = dp_messageType p"

text \<open>
  The constructor of \<open>Packet\<close> writes its argument to the stream and leaves the member
  \<open>messageType\<close> unset (None here).
\<close>

record packet =
  pk_data :: bytes
  pk_messageType :: "u16 option"

definition Packet_new :: "u16 \<Rightarrow> packet" where
  "Packet_new message_type =
     \<lparr>pk_data = le_bytes 4 MAGIC_WORD @ le_bytes 2 message_type, pk_messageType = None\<rparr>"

definition packet_write :: "packet \<Rightarrow> bytes \<Rightarrow> packet" where
  "packet_write p bs = p\<lparr>pk_data := pk_data p @ bs\<rparr>"

definition Packet_Serialize :: "packet \<Rightarrow> encoded_packet" where
  "Packet_Serialize p = \<lparr>ep_targets = [], ep_serial = pk_data p\<rparr>"

subsection \<open>Headers\<close>

definition ReadHeader :: "bytes \<Rightarrow> u16 result" where
  "ReadHeader packet =
     (if length packet < 6 then Inr CLIENT_NULL
      else rbind (load_u32 packet 0) (\<lambda>magic.
           rbind (load_u16 packet 4) (\<lambda>message_type.
           if int (unat message_type) > HIGHEST_MESSAGE_TYPE then Inr CLIENT_NULL
           else Inr message_type)))"

subsection \<open>Message formats\<close>

definition SerializeClientPoke :: "bytes \<Rightarrow> encoded_packet" where
  "SerializeClientPoke IP =
     (let packet = Packet_new CLIENT_POKE;
          size = (word_of_nat (length IP) :: u32);
          packet = packet_write packet (le_bytes 4 size);
          packet = packet_write packet IP
      in Packet_Serialize packet)"

definition DecodeClientPoke :: "bytes \<Rightarrow> bytes decoded_packet result" where
  "DecodeClientPoke packet =
     rbind (load_u32 packet DATA_START) (\<lambda>ipLength.
     rbind (load_bytes packet (DATA_START + 4) (unat ipLength)) (\<lambda>ip.
     Inr \<lparr>dp_messageType = CLIENT_POKE, dp_data = ip\<rparr>))"

definition SerializeHeartbeat :: encoded_packet where
  "SerializeHeartbeat = Packet_Serialize (Packet_new CLIENT_HEARTBEAT)"

definition DecodeHeartbeat :: "bytes \<Rightarrow> bytes decoded_packet result" where
  "DecodeHeartbeat packet = Inr \<lparr>dp_messageType = CLIENT_HEARTBEAT, dp_data = lit ''HEARTBEAT''\<rparr>"

definition SerializeSimpleString :: "bytes \<Rightarrow> encoded_packet" where
  "SerializeSimpleString str =
     (let packet = Packet_new SIMPLE_STRING;
          size = (word_of_nat (length str) :: u32);
          packet = packet_write packet (le_bytes 4 size);
          packet = packet_write packet str
      in Packet_Serialize packet)"

definition DecodeSimpleString :: "bytes \<Rightarrow> bytes decoded_packet result" where
  "DecodeSimpleString packet =
     rbind (load_u32 packet DATA_START) (\<lambda>strLength.
     rbind (load_bytes packet (DATA_START + 4) (unat strLength)) (\<lambda>str.
     Inr \<lparr>dp_messageType = SIMPLE_STRING, dp_data = str\<rparr>))"

definition SerializeMinedBlock :: "('pub, 'priv) cryptopp \<Rightarrow> 'pub block \<Rightarrow> encoded_packet" where
  "SerializeMinedBlock C block =
     Packet_Serialize (packet_write (Packet_new MINED_BLOCK) (Block_Serialize C block))"

text \<open>\<open>substr\<close> throws \<open>std::out_of_range\<close> when its start lies beyond the end.\<close>

definition substr :: "bytes \<Rightarrow> nat \<Rightarrow> bytes result" where
  "substr s p = (if length s < p then Inl Out_of_range else Inr (drop p s))"

definition DecodeMinedBlock ::
  "('pub, 'priv) cryptopp \<Rightarrow> fresh \<Rightarrow> bytes \<Rightarrow> 'pub block decoded_packet result" where
  "DecodeMinedBlock C fr packet =
     rbind (substr packet DATA_START) (\<lambda>s.
     rbind (DecodeBlock C fr s) (\<lambda>b.
     Inr \<lparr>dp_messageType = MINED_BLOCK, dp_data = b\<rparr>))"

text \<open>
  \<open>DecodePacket\<close> is a template over the type of the data that nothing instantiates (its branches
  return packets of different types). Its result is modelled as the union of those types.
\<close>

datatype 'pub any_packet =
    String_packet "bytes decoded_packet"
  | Block_packet "'pub block decoded_packet"

definition DecodePacket ::
  "('pub, 'priv) cryptopp \<Rightarrow> fresh \<Rightarrow> bytes \<Rightarrow> 'pub any_packet result" where
  "DecodePacket C fr packet =
     (if length packet < 6 then Inl (Runtime_error ''JumboPacket: invalid packet'')
      else
        rbind (load_u32 packet 0) (\<lambda>magic_word.
        rbind (load_u16 packet 4) (\<lambda>message_type.
        if magic_word \<noteq> MAGIC_WORD
          then Inl (Runtime_error ''JumboPacket DecodePacket: invalid magic word'')
        else if message_type = CLIENT_POKE
          then rbind (DecodeClientPoke packet) (\<lambda>p. Inr (String_packet p))
        else if message_type = CLIENT_HEARTBEAT
          then rbind (DecodeHeartbeat packet) (\<lambda>p. Inr (String_packet p))
        else if message_type = SIMPLE_STRING
          then rbind (DecodeSimpleString packet) (\<lambda>p. Inr (String_packet p))
        else if message_type = MINED_BLOCK
          then rbind (DecodeMinedBlock C fr packet) (\<lambda>p. Inr (Block_packet p))
        else Inl (Runtime_error ''JumboPacket DecodePacket: invalid messageType''))))"

subsection \<open>The local address\<close>

text \<open>
  What the operating system answers to the four calls of \<open>GetMyIP\<close>; the text of the address is
  None when \<open>inet_ntop\<close> fails, and then the code prints a message and returns a string built from
  an array that nothing wrote. The result comes with the descriptors the function closed.
\<close>

record ip_replies =
  re_socket :: int
  re_connect :: int
  re_getsockname :: int
  re_inet_ntop :: "bytes option"

definition GetMyIP :: "ip_replies \<Rightarrow> bytes result \<times> int list" where
  "GetMyIP os =
     (let sock = re_socket os in
      if sock = -1 then (Inl (Runtime_error ''getMyIp: could not socket''), [])
      else if re_connect os = -1
        then (Inl (Runtime_error ''getMyIp: could not connect''), [sock])
      else if re_getsockname os = -1
        then (Inl (Runtime_error ''getMyIp: could not getsockname''), [sock])
      else (case re_inet_ntop os of
              None \<Rightarrow> (Inl Indeterminate, [sock])
            | Some buf \<Rightarrow> (Inr buf, [sock])))"

subsection \<open>Shapes of the serialised messages\<close>

definition packet_bytes :: "u16 \<Rightarrow> bytes \<Rightarrow> bytes" where
  "packet_bytes t payload = le_bytes 4 MAGIC_WORD @ le_bytes 2 t @ payload"

lemma SerializeClientPoke_bytes:
  "ep_serial (SerializeClientPoke ip) =
     packet_bytes CLIENT_POKE (le_bytes 4 (word_of_nat (length ip) :: u32) @ ip)"
  by (simp add: SerializeClientPoke_def Packet_new_def packet_write_def Packet_Serialize_def
      packet_bytes_def Let_def)

lemma SerializeHeartbeat_bytes:
  "ep_serial SerializeHeartbeat = packet_bytes CLIENT_HEARTBEAT []"
  by (simp add: SerializeHeartbeat_def Packet_new_def Packet_Serialize_def packet_bytes_def)

lemma SerializeSimpleString_bytes:
  "ep_serial (SerializeSimpleString str) =
     packet_bytes SIMPLE_STRING (le_bytes 4 (word_of_nat (length str) :: u32) @ str)"
  by (simp add: SerializeSimpleString_def Packet_new_def packet_write_def Packet_Serialize_def
      packet_bytes_def Let_def)

lemma SerializeMinedBlock_bytes:
  "ep_serial (SerializeMinedBlock C b) = packet_bytes MINED_BLOCK (Block_Serialize C b)"
  by (simp add: SerializeMinedBlock_def Packet_new_def packet_write_def Packet_Serialize_def
      packet_bytes_def)

lemmas packet_shapes = SerializeClientPoke_bytes SerializeHeartbeat_bytes
  SerializeSimpleString_bytes SerializeMinedBlock_bytes

lemma packet_bytes_append: "packet_bytes t d @ post = packet_bytes t (d @ post)"
  by (simp add: packet_bytes_def)

lemma length_packet_bytes [simp]: "length (packet_bytes t d) = 6 + length d"
  by (simp add: packet_bytes_def)

lemma drop_packet_bytes [simp]: "drop 6 (packet_bytes t d) = d"
  by (simp add: packet_bytes_def)

lemma holds_at_packet:
  "holds_at (packet_bytes t (d @ post)) 0 (le_bytes 4 MAGIC_WORD)"
  "holds_at (packet_bytes t (d @ post)) 4 (le_bytes 2 t)"
  "holds_at (packet_bytes t (d @ post)) 6 d"
  by (simp_all add: holds_at_def packet_bytes_def)

text \<open>The header of any packet of six bytes or more is its type, magic word or not.\<close>

lemma ReadHeader_prefix:
  "length m = 4 \<Longrightarrow>
     ReadHeader (m @ le_bytes 2 t @ rest) = Inr (if unat t \<le> 5 then t else CLIENT_NULL)"
proof -
  assume m: "length m = 4"
  let ?p = "m @ le_bytes 2 t @ rest"
  have "load_u16 ?p 4 = Inr t"
    using holds_at_self [of m "le_bytes 2 t" rest] m by (intro load_u16_holds) simp
  moreover obtain w where "load_u32 ?p 0 = Inr w"
    using m by (cases "load_u32 ?p 0") (auto simp: load_u32_Inl)
  moreover have "5 < int (unat t) \<longleftrightarrow> \<not> unat t \<le> 5" by linarith
  ultimately show ?thesis
    using m by (simp add: ReadHeader_def HIGHEST_MESSAGE_TYPE_def)
qed

lemma ReadHeader_packet:
  "ReadHeader (packet_bytes t d) = Inr (if unat t \<le> 5 then t else CLIENT_NULL)"
  unfolding packet_bytes_def by (rule ReadHeader_prefix) simp

lemma packet_split:
  assumes "6 \<le> length p"
  obtains m t rest where "p = m @ le_bytes 2 (t :: u16) @ rest" and "length m = 4"
    and "t = from_le (take 2 (drop 4 p))"
proof
  show "p = take 4 p @ le_bytes 2 (from_le (take 2 (drop 4 p)) :: u16) @ drop 6 p"
  proof -
    have "length (take 2 (drop 4 p)) = 2" using assms by simp
    then have "le_bytes 2 (from_le (take 2 (drop 4 p)) :: u16) = take 2 (drop 4 p)"
      using le_bytes_from_le [of "take 2 (drop 4 p)", where 'a = 16] by simp
    moreover have "take 4 p @ take 2 (drop 4 p) = take 6 p"
      using take_add [of 4 2 p] by simp
    ultimately show ?thesis by (metis append.assoc append_take_drop_id)
  qed
qed (use assms in simp_all)

subsection \<open>The packet contract\<close>

text \<open>
  What the dispatchers of both nodes rely on: the header tells the type of every message a
  serialiser builds, and the type's decoder gives its data back. Both hold with other bytes
  behind the message, as the end of a message is marked nowhere; what the decoder returns may
  then depend on them (\<open>norm\<close>).
\<close>

locale packet_format =
  fixes mtype :: u16
    and ser :: "'a \<Rightarrow> bytes"
    and dec :: "bytes \<Rightarrow> 'b decoded_packet result"
    and ok :: "'a \<Rightarrow> bool"
    and norm :: "bytes \<Rightarrow> 'a \<Rightarrow> 'b"
  assumes header: "ReadHeader (ser x @ post) = Inr mtype"
    and decode: "ok x \<Longrightarrow> dec (ser x @ post) = Inr \<lparr>dp_messageType = mtype, dp_data = norm post x\<rparr>"
begin

lemma roundtrip:
  "ok x \<Longrightarrow> ReadHeader (ser x) = Inr mtype \<and>
     dec (ser x) = Inr \<lparr>dp_messageType = mtype, dp_data = norm [] x\<rparr>"
  using header [of x "[]"] decode [of x "[]"] by simp

lemma second_message_lost:
  assumes "ok x" and "\<And>post. norm post x = norm [] x"
  shows "ReadHeader (ser x @ other) = ReadHeader (ser x) \<and> dec (ser x @ other) = dec (ser x)"
  using assms roundtrip [of x] header [of x other] decode [of x other] by metis

end

definition sized_ok :: "bytes \<Rightarrow> bool" where
  "sized_ok s \<longleftrightarrow> length s < 2 ^ 32"

lemma sized_payload_decode:
  assumes "sized_ok str"
  shows "load_u32 (packet_bytes t (le_bytes 4 (word_of_nat (length str) :: u32) @ str @ post)) 6 =
      Inr (word_of_nat (length str))"
    and "load_bytes (packet_bytes t (le_bytes 4 (word_of_nat (length str) :: u32) @ str @ post)) 10
      (unat (word_of_nat (length str) :: u32)) = Inr str"
proof -
  let ?n = "le_bytes 4 (word_of_nat (length str) :: u32)"
  have h: "holds_at (packet_bytes t (?n @ str @ post)) 6 ?n"
      "holds_at (packet_bytes t (?n @ str @ post)) 10 str"
    using holds_at_packet(3) [of t "?n @ str" post] by (simp_all add: holds_at_append)
  show "load_u32 (packet_bytes t (?n @ str @ post)) 6 = Inr (word_of_nat (length str))"
    using h(1) by (rule load_u32_holds)
  show "load_bytes (packet_bytes t (?n @ str @ post)) 10
      (unat (word_of_nat (length str) :: u32)) = Inr str"
    using h(2) assms by (intro load_bytes_holds) (simp_all add: sized_ok_def unat_of_nat_small)
qed

interpretation simple_string:
  packet_format SIMPLE_STRING "\<lambda>s. ep_serial (SerializeSimpleString s)" DecodeSimpleString
    sized_ok "\<lambda>_ s. s"
proof unfold_locales
  fix x post
  show "ReadHeader (ep_serial (SerializeSimpleString x) @ post) = Inr SIMPLE_STRING"
    by (simp add: packet_shapes packet_bytes_append ReadHeader_packet type_defs)
  assume "sized_ok x"
  note sized_payload_decode [OF this, of SIMPLE_STRING post]
  then show "DecodeSimpleString (ep_serial (SerializeSimpleString x) @ post) =
      Inr \<lparr>dp_messageType = SIMPLE_STRING, dp_data = x\<rparr>"
    by (simp add: packet_shapes packet_bytes_append DecodeSimpleString_def DATA_START_def)
qed

interpretation client_poke:
  packet_format CLIENT_POKE "\<lambda>s. ep_serial (SerializeClientPoke s)" DecodeClientPoke
    sized_ok "\<lambda>_ s. s"
proof unfold_locales
  fix x post
  show "ReadHeader (ep_serial (SerializeClientPoke x) @ post) = Inr CLIENT_POKE"
    by (simp add: packet_shapes packet_bytes_append ReadHeader_packet type_defs)
  assume "sized_ok x"
  note sized_payload_decode [OF this, of CLIENT_POKE post]
  then show "DecodeClientPoke (ep_serial (SerializeClientPoke x) @ post) =
      Inr \<lparr>dp_messageType = CLIENT_POKE, dp_data = x\<rparr>"
    by (simp add: packet_shapes packet_bytes_append DecodeClientPoke_def DATA_START_def)
qed

interpretation heartbeat:
  packet_format CLIENT_HEARTBEAT "\<lambda>_ :: unit. ep_serial SerializeHeartbeat" DecodeHeartbeat
    "\<lambda>_. True" "\<lambda>_ _. lit ''HEARTBEAT''"
  by unfold_locales
     (simp_all add: packet_shapes packet_bytes_append ReadHeader_packet type_defs DecodeHeartbeat_def)

definition block_sendable :: "('pub, 'priv) cryptopp \<Rightarrow> 'pub block \<Rightarrow> bool" where
  "block_sendable C b \<longleftrightarrow> block_ok C b \<and> block_relayable b"

definition block_as_received ::
  "('pub, 'priv) cryptopp \<Rightarrow> fresh \<Rightarrow> bytes \<Rightarrow> 'pub block \<Rightarrow> 'pub block" where
  "block_as_received C fr post b =
     block_received C fr b (map (tx_as_read C (Block_Serialize C b @ post)) (b_tx b))"

interpretation mined_block:
  packet_format MINED_BLOCK "\<lambda>b. ep_serial (SerializeMinedBlock C b)" "DecodeMinedBlock C fr"
    "block_sendable C" "block_as_received C fr" for C fr
proof unfold_locales
  fix x post
  show "ReadHeader (ep_serial (SerializeMinedBlock C x) @ post) = Inr MINED_BLOCK"
    by (simp add: packet_shapes packet_bytes_append ReadHeader_packet type_defs)
  assume "block_sendable C x"
  then show "DecodeMinedBlock C fr (ep_serial (SerializeMinedBlock C x) @ post) =
      Inr \<lparr>dp_messageType = MINED_BLOCK, dp_data = block_as_received C fr post x\<rparr>"
    by (simp add: packet_shapes packet_bytes_append DecodeMinedBlock_def DATA_START_def substr_def
        block_sendable_def DecodeBlock_relayable_at block_as_received_def)
qed

subsection \<open>Properties of the packet layer\<close>

text \<open>
  A string or an address of fewer than 2^32 bytes comes back from its packet, and the header
  names the message, whatever follows it in the receive buffer.
\<close>

theorem string_packets_roundtrip:
  assumes "length s < 2 ^ 32"
  shows "ReadHeader (ep_serial (SerializeSimpleString s) @ post) = Inr SIMPLE_STRING \<and>
    DecodeSimpleString (ep_serial (SerializeSimpleString s) @ post) =
      Inr \<lparr>dp_messageType = SIMPLE_STRING, dp_data = s\<rparr> \<and>
    ReadHeader (ep_serial (SerializeClientPoke s) @ post) = Inr CLIENT_POKE \<and>
    DecodeClientPoke (ep_serial (SerializeClientPoke s) @ post) =
      Inr \<lparr>dp_messageType = CLIENT_POKE, dp_data = s\<rparr>"
proof -
  have "sized_ok s" using assms by (simp add: sized_ok_def)
  then show ?thesis
    by (intro conjI simple_string.header client_poke.header simple_string.decode
        client_poke.decode)
qed

theorem string_packets_roundtrip_witness:
  "DecodeClientPoke (ep_serial (SerializeClientPoke (lit ''127.0.0.1'')) @ [1, 2]) =
     Inr \<lparr>dp_messageType = CLIENT_POKE, dp_data = lit ''127.0.0.1''\<rparr>"
  using string_packets_roundtrip [of "lit ''127.0.0.1''" "[1, 2]"] by simp

text \<open>
  C40: \<open>ReadHeader\<close> is total: on every buffer it returns a type without reading outside it. The
  type is that of bytes 4 and 5 when there are six bytes and the number is at most 5, and
  \<open>CLIENT_NULL\<close> otherwise; so the first four bytes, the magic word, play no part.
\<close>

theorem read_header_total:
  "ReadHeader p =
     Inr (let t = from_le (take 2 (drop 4 p)) :: u16
          in if 6 \<le> length p \<and> unat t \<le> 5 then t else CLIENT_NULL)"
proof (cases "6 \<le> length p")
  case True
  then obtain m t rest where p: "p = m @ le_bytes 2 (t :: u16) @ rest" "length m = 4"
    and t: "t = from_le (take 2 (drop 4 p))" by (rule packet_split)
  have "ReadHeader p = Inr (if unat t \<le> 5 then t else CLIENT_NULL)"
    unfolding p(1) using p(2) by (rule ReadHeader_prefix)
  with True t show ?thesis by (simp add: Let_def)
next
  case False
  then show ?thesis by (simp add: ReadHeader_def Let_def)
qed

text \<open>
  No packet is ever taken for a \<open>BROADCAST_TX\<close>: its number 6 lies above
  \<open>HIGHEST_MESSAGE_TYPE\<close>, so a packet of that type reads as \<open>CLIENT_NULL\<close>.
\<close>

theorem broadcast_tx_unreachable:
  "ReadHeader p \<noteq> Inr BROADCAST_TX \<and>
     ReadHeader (ep_serial (Packet_Serialize (packet_write (Packet_new BROADCAST_TX) d))) = Inr CLIENT_NULL"
proof -
  have "ReadHeader p \<noteq> Inr BROADCAST_TX"
    by (auto simp: ReadHeader_def HIGHEST_MESSAGE_TYPE_def type_defs split: if_splits)
  moreover have "ep_serial (Packet_Serialize (packet_write (Packet_new BROADCAST_TX) d)) =
      packet_bytes BROADCAST_TX d"
    by (simp add: Packet_Serialize_def packet_write_def Packet_new_def packet_bytes_def)
  ultimately show ?thesis by (simp add: ReadHeader_packet) (simp add: type_defs)
qed

text \<open>
  The size field of a string message is trusted. For a claimed size \<open>n\<close> and the bytes
  \<open>rest\<close> that really follow it, the decoder returns \<open>n\<close> bytes when \<open>n\<close> is at most the number
  that follow, one byte more than was sent (the terminating zero) when it exceeds it by one, and
  reads out of bounds beyond that; the header check passes in every case.
\<close>

theorem string_size_trusted:
  "ReadHeader (packet_bytes SIMPLE_STRING (le_bytes 4 n @ rest)) = Inr SIMPLE_STRING \<and>
   DecodeSimpleString (packet_bytes SIMPLE_STRING (le_bytes 4 (n :: u32) @ rest)) =
     (if unat n \<le> length rest + 1
      then Inr \<lparr>dp_messageType = SIMPLE_STRING, dp_data = take (unat n) (rest @ [0])\<rparr>
      else Inl Out_of_bounds)"
proof -
  let ?p = "packet_bytes SIMPLE_STRING (le_bytes 4 n @ rest)"
  have "load_u32 ?p 6 = Inr n"
    using holds_at_packet(3) [of SIMPLE_STRING "le_bytes 4 n" rest] by (rule load_u32_holds)
  moreover have "drop 10 (c_str ?p) = rest @ [0]"
    by (simp add: c_str_def packet_bytes_def)
  ultimately show ?thesis
    by (simp add: ReadHeader_packet DecodeSimpleString_def DATA_START_def load_bytes_def)
       (simp add: type_defs)
qed

text \<open>The type a decoded packet names.\<close>

definition any_type :: "'pub any_packet \<Rightarrow> u16" where
  "any_type q = (case q of String_packet p \<Rightarrow> dp_messageType p | Block_packet p \<Rightarrow> dp_messageType p)"

text \<open>
  \<open>DecodePacket\<close> is stricter than \<open>ReadHeader\<close> and agrees with it: a packet it decodes starts
  with the magic word and its header reads as the type of the result, one of the four it handles.
\<close>

theorem decode_packet_agrees:
  assumes "DecodePacket C fr p = Inr q"
  shows "take 4 p = le_bytes 4 MAGIC_WORD \<and> ReadHeader p = Inr (any_type q) \<and>
    any_type q \<in> {CLIENT_POKE, CLIENT_HEARTBEAT, SIMPLE_STRING, MINED_BLOCK}"
proof -
  from assms have len: "6 \<le> length p" by (simp add: DecodePacket_def split: if_splits)
  from assms obtain t where magic: "load_u32 p 0 = Inr MAGIC_WORD" and t: "load_u16 p 4 = Inr t"
    and q: "any_type q = t" "t \<in> {CLIENT_POKE, CLIENT_HEARTBEAT, SIMPLE_STRING, MINED_BLOCK}"
    by (auto simp: DecodePacket_def any_type_def DecodeClientPoke_def DecodeHeartbeat_def
        DecodeSimpleString_def DecodeMinedBlock_def split: if_splits)
  have "ReadHeader p = Inr t"
    using len magic t q(2) by (auto simp: ReadHeader_def HIGHEST_MESSAGE_TYPE_def type_defs)
  moreover have "take 4 p = le_bytes 4 MAGIC_WORD"
    using load_u32_segment [OF magic] len by (simp add: segment_def c_str_def)
  ultimately show ?thesis using q by simp
qed

theorem decode_packet_agrees_witness:
  "ReadHeader (ep_serial SerializeHeartbeat) = Inr CLIENT_HEARTBEAT"
proof -
  have "DecodePacket toy_crypto demo_fresh (ep_serial SerializeHeartbeat) =
      Inr (String_packet \<lparr>dp_messageType = CLIENT_HEARTBEAT, dp_data = lit ''HEARTBEAT''\<rparr>)"
    using holds_at_packet(1,2) [of CLIENT_HEARTBEAT "[]" "[]"]
    by (simp add: packet_shapes DecodePacket_def load_u32_holds load_u16_holds DecodeHeartbeat_def)
       (simp add: type_defs)
  from decode_packet_agrees [OF this] show ?thesis by (simp add: any_type_def)
qed

text \<open>
  A mined block that is relayable (no transaction, or one with one output of fewer than 2^32
  coins) reaches the other node through its packet, with the same serialisation and hash.
\<close>

theorem mined_block_roundtrip:
  assumes "block_ok C b" and "block_relayable b"
  shows "ReadHeader (ep_serial (SerializeMinedBlock C b)) = Inr MINED_BLOCK \<and>
    (\<exists>b'. DecodeMinedBlock C fr (ep_serial (SerializeMinedBlock C b)) =
        Inr \<lparr>dp_messageType = MINED_BLOCK, dp_data = b'\<rparr> \<and>
      Block_Serialize C b' = Block_Serialize C b \<and> b_hash b' = fst (Block_Hash C b))"
proof -
  let ?b = "block_as_received C fr [] b"
  have "DecodeBlock C fr (Block_Serialize C b) = Inr ?b"
    using DecodeBlock_relayable [OF assms] by (simp add: block_as_received_def)
  moreover have "Block_Serialize C ?b = Block_Serialize C b"
    using assms(2) by (auto simp: block_as_received_def block_received_def Let_def
        block_relayable_def tx_relayable_as_read Block_Serialize_def)
  ultimately have same: "Block_Serialize C ?b = Block_Serialize C b \<and> b_hash ?b = fst (Block_Hash C b)"
    by (simp add: DecodeBlock_Inr(1) Block_Hash_def CalculateSHA256_def Let_def)
  then show ?thesis
    using mined_block.roundtrip [of C b fr] assms same by (auto simp: block_sendable_def)
qed

theorem mined_block_roundtrip_witness:
  "\<exists>b'. DecodeMinedBlock toy_crypto demo_fresh (ep_serial (SerializeMinedBlock toy_crypto demo_block)) =
     Inr \<lparr>dp_messageType = MINED_BLOCK, dp_data = b'\<rparr>"
  using mined_block_roundtrip [OF demo_block_ok demo_block_relayable, of demo_fresh] by blast

text \<open>
  \<open>GetMyIP\<close> leaks no socket: on every answer of the system calls it closes exactly the
  descriptor it opened, and nothing when it opened none; it returns an address only when every
  call succeeded.
\<close>

theorem get_my_ip_closes:
  "snd (GetMyIP os) = (if re_socket os = -1 then [] else [re_socket os]) \<and>
     ((\<exists>ip. fst (GetMyIP os) = Inr ip) \<longleftrightarrow>
        re_socket os \<noteq> -1 \<and> re_connect os \<noteq> -1 \<and> re_getsockname os \<noteq> -1 \<and>
        re_inet_ntop os \<noteq> None)"
  by (auto simp: GetMyIP_def Let_def split: option.splits)

end
