(* ===== verification/Mining.thy ===== *)
theory Mining
  imports JumboPacket
begin

section \<open>Mining (mine.hpp, mine.cpp)\<close>

text \<open>
  The proof-of-work test and the search for a nonce. The broadcast of a mined block is the list of
  packets the search hands to the server: empty, or the one packet of the block found.
\<close>

subsection \<open>The test\<close>

text \<open>
  The code compares the first \<open>bit_thresh\<close> bytes of the digest with the character \<open>'0'\<close>. The
  guard keeps the index inside the hash.
\<close>

definition IsMined :: "'pub block \<Rightarrow> bool" where
  "IsMined b =
     (if unat (b_bit_thresh b) > length (b_hash b) then False
      else list_all (\<lambda>i. b_hash b ! i = of_char CHR ''0'') [0..<unat (b_bit_thresh b)])"

subsection \<open>The search\<close>

definition UINT32_MAX :: u32 where "UINT32_MAX = 4294967295"

lemma unat_less_UINT32_MAX: "n < UINT32_MAX \<Longrightarrow> unat n < 4294967295"
  by (simp add: UINT32_MAX_def word_less_nat_alt)

lemma unat_Suc_u32: "n < UINT32_MAX \<Longrightarrow> unat (n + 1) = Suc (unat n)"
  by (auto simp: UINT32_MAX_def word_less_nat_alt unat_word_ariths)

definition BroadcastMinedBlock :: "('pub, 'priv) cryptopp \<Rightarrow> 'pub block \<Rightarrow> encoded_packet list" where
  "BroadcastMinedBlock C b = [SerializeMinedBlock C b]"

text \<open>
  The inner loop, from the nonce of \<open>b\<close> on. The result is the flag \<open>good\<close>, the block, the number of
  attempts and what was broadcast.
\<close>

function mine_for ::
  "('pub, 'priv) cryptopp \<Rightarrow> 'pub block \<Rightarrow> u64 \<Rightarrow> bool \<times> 'pub block \<times> u64 \<times> encoded_packet list"
where
  "mine_for C b attempts =
     (if b_nonce b < UINT32_MAX then
        (let b = snd (Block_Hash C b) in
         if IsMined b then (True, b, attempts, BroadcastMinedBlock C b)
         else
           (let attempts = attempts + 1 in
            if attempts mod 10000 = 0 then (True, b, attempts, [])
            else mine_for C (b\<lparr>b_nonce := b_nonce b + 1\<rparr>) attempts))
      else (False, b, attempts, []))"
  by pat_completeness auto

termination
  by (relation "measure (\<lambda>(C, b, attempts). 4294967295 - unat (b_nonce b))")
     (auto simp: Block_Hash_def Let_def unat_Suc_u32 dest: unat_less_UINT32_MAX)

declare mine_for.simps [simp del]

text \<open>
  The outer loop starts over with the time of the clock when every nonce below \<open>UINT32_MAX\<close> was
  tried. \<open>clock k\<close> is what the \<open>k\<close>th call of \<open>std::time\<close> returns. A round that ends that way
  has broadcast nothing.
\<close>

partial_function (option) mine_while ::
  "('pub, 'priv) cryptopp \<Rightarrow> (nat \<Rightarrow> u64) \<Rightarrow> nat \<Rightarrow> 'pub block \<Rightarrow> u64 \<Rightarrow>
     ('pub block \<times> encoded_packet list) option"
where
  "mine_while C clock k b attempts =
     (case mine_for C (b\<lparr>b_nonce := 0\<rparr>) attempts of (good, b, attempts, out) \<Rightarrow>
        if good then Some (b, out)
        else mine_while C clock (Suc k) (b\<lparr>b_timestamp := clock k\<rparr>) attempts)"

definition MineBlock ::
  "('pub, 'priv) cryptopp \<Rightarrow> (nat \<Rightarrow> u64) \<Rightarrow> 'pub block \<Rightarrow>
     ('pub block \<times> encoded_packet list) option" where
  "MineBlock C clock b = mine_while C clock 0 b 0"

subsection \<open>The search against its specification\<close>

text \<open>The block after trying nonce \<open>n\<close>: the nonce set and the hash brought up to date.\<close>

definition tried :: "('pub, 'priv) cryptopp \<Rightarrow> 'pub block \<Rightarrow> nat \<Rightarrow> 'pub block" where
  "tried C b n = snd (Block_Hash C (b\<lparr>b_nonce := word_of_nat n\<rparr>))"

definition solves :: "('pub, 'priv) cryptopp \<Rightarrow> 'pub block \<Rightarrow> nat \<Rightarrow> bool" where
  "solves C b n \<longleftrightarrow> IsMined (tried C b n)"

text \<open>What the search should do: the least of the first 10000 nonces that solves the block.\<close>

definition first_solution :: "('pub, 'priv) cryptopp \<Rightarrow> 'pub block \<Rightarrow> nat option" where
  "first_solution C b = find (solves C b) [0..<10000]"

definition mine_spec ::
  "('pub, 'priv) cryptopp \<Rightarrow> 'pub block \<Rightarrow> 'pub block \<times> encoded_packet list" where
  "mine_spec C b =
     (case first_solution C b of
        Some n \<Rightarrow> (tried C b n, [SerializeMinedBlock C (tried C b n)])
      | None \<Rightarrow> (tried C b 9999, []))"

lemma tried_fields [simp]:
  "b_nonce (tried C b n) = word_of_nat n" "b_timestamp (tried C b n) = b_timestamp b"
  "b_bit_thresh (tried C b n) = b_bit_thresh b" "b_tx (tried C b n) = b_tx b"
  "b_coinbase (tried C b n) = b_coinbase b" "b_prev_hash (tried C b n) = b_prev_hash b"
  "b_index (tried C b n) = b_index b"
  by (simp_all add: tried_def Block_Hash_def Let_def)

lemma tried_hash: "b_hash (tried C b n) = SHA256 C (Block_Serialize C (tried C b n))"
  by (simp add: tried_def Block_Hash_def Let_def CalculateSHA256_def)

lemma tried_next:
  "snd (Block_Hash C ((tried C b n)\<lparr>b_nonce := word_of_nat m\<rparr>)) = tried C b m"
  by (cases b) (simp add: tried_def Block_Hash_def Let_def CalculateSHA256_def Block_Serialize_def)

lemma tried_start: "tried C (b\<lparr>b_nonce := k\<rparr>) n = tried C b n"
  by (simp add: tried_def)

lemma IsMined_iff:
  "IsMined b \<longleftrightarrow> unat (b_bit_thresh b) \<le> length (b_hash b) \<and>
     take (unat (b_bit_thresh b)) (b_hash b) = replicate (unat (b_bit_thresh b)) 48"
  by (auto simp: IsMined_def list_all_iff list_eq_iff_nth_eq of_char_def)

lemma attempts_limit:
  assumes "k < 10000"
  shows "(word_of_nat k + 1 :: u64) mod 10000 = 0 \<longleftrightarrow> k = 9999"
proof -
  have "unat (word_of_nat k + 1 :: u64) = Suc k"
    using assms by (simp add: unat_word_ariths unat_of_nat_small)
  then have "unat ((word_of_nat k + 1 :: u64) mod 10000) = Suc k mod 10000"
    by (simp add: unat_mod)
  moreover have "Suc k mod 10000 = 0 \<longleftrightarrow> k = 9999"
    using assms by (cases "k = 9999") (simp_all add: mod_less)
  ultimately show ?thesis by (metis unat_eq_zero)
qed

lemma hash_is_tried: "b_nonce c = word_of_nat k \<Longrightarrow> snd (Block_Hash C c) = tried C c k"
  by (cases c) (simp add: tried_def)

text \<open>
  The loop from nonce \<open>k\<close> on, when as many attempts were made. \<open>c\<close> is the block as the earlier
  attempts left it: \<open>b\<close> but for its nonce and hash.
\<close>

lemma mine_for_run:
  assumes "k < 10000" and "b_nonce c = word_of_nat k" and "\<And>n. tried C c n = tried C b n"
  shows "mine_for C c (word_of_nat k) =
    (case find (solves C b) [k..<10000] of
       Some n \<Rightarrow> (True, tried C b n, word_of_nat n, [SerializeMinedBlock C (tried C b n)])
     | None \<Rightarrow> (True, tried C b 9999, 10000, []))"
  using assms
proof (induction "9999 - k" arbitrary: k c)
  case 0
  then have k: "k = 9999" by simp
  then have "b_nonce c < UINT32_MAX" using 0 by (simp add: UINT32_MAX_def)
  moreover have "snd (Block_Hash C c) = tried C b 9999"
    using hash_is_tried [OF 0(3), of C] 0(4) k by simp
  ultimately show ?case
    by (simp add: k mine_for.simps [of C c] Let_def solves_def BroadcastMinedBlock_def
        upt_conv_Cons)
next
  case (Suc d)
  then have k: "k < 9999" by simp
  then have "unat (word_of_nat k :: u32) = k" by (intro unat_of_nat_small) simp
  with k have lt: "b_nonce c < UINT32_MAX"
    by (simp add: Suc.prems(2) UINT32_MAX_def word_less_nat_alt)
  have hash: "snd (Block_Hash C c) = tried C b k"
    using hash_is_tried [OF Suc.prems(2), of C] Suc.prems(3) by simp
  have more: "(word_of_nat k + 1 :: u64) mod 10000 \<noteq> 0"
    using attempts_limit k by simp
  have IH: "mine_for C ((tried C b k)\<lparr>b_nonce := word_of_nat k + 1\<rparr>) (word_of_nat k + 1) =
      (case find (solves C b) [Suc k..<10000] of
         Some n \<Rightarrow> (True, tried C b n, word_of_nat n, [SerializeMinedBlock C (tried C b n)])
       | None \<Rightarrow> (True, tried C b 9999, 10000, []))"
  proof -
    let ?c = "(tried C b k)\<lparr>b_nonce := word_of_nat k + 1\<rparr>"
    have "tried C ?c n = tried C b n" for n
      using tried_next [where C = C and b = b and n = k and m = n] by (simp add: tried_start) (simp add: tried_def)
    moreover have "d = 9999 - Suc k" using Suc.hyps(2) by linarith
    ultimately show ?thesis using Suc.hyps(1) [of "Suc k" ?c] k by (simp add: add.commute)
  qed
  show ?case
    using k by (simp add: mine_for.simps [of C c] lt hash more IH Let_def solves_def
        BroadcastMinedBlock_def upt_conv_Cons)
qed

text \<open>The search computes its specification, after its first round.\<close>

lemma MineBlock_mine_spec:
  "MineBlock C clock b = Some (mine_spec C b)"
proof -
  let ?c = "b\<lparr>b_nonce := 0\<rparr>"
  have "mine_for C ?c (word_of_nat 0) =
    (case first_solution C b of
       Some n \<Rightarrow> (True, tried C b n, word_of_nat n, [SerializeMinedBlock C (tried C b n)])
     | None \<Rightarrow> (True, tried C b 9999, 10000, []))"
    unfolding first_solution_def by (rule mine_for_run) (simp_all add: tried_start)
  then show ?thesis
    by (simp add: MineBlock_def mine_while.simps mine_spec_def split: option.split del: upt_conv_Cons)
qed

lemma first_solution_Some:
  "first_solution C b = Some n \<longleftrightarrow>
     n < 10000 \<and> solves C b n \<and> (\<forall>m < n. \<not> solves C b m)"
proof -
  have "find P [0..<k] = Some n \<longleftrightarrow> n < k \<and> P n \<and> (\<forall>m < n. \<not> P m)" for P k
    by (auto simp: find_Some_iff)
  then show ?thesis unfolding first_solution_def .
qed

lemma first_solution_None: "first_solution C b = None \<longleftrightarrow> (\<forall>n < 10000. \<not> solves C b n)"
proof -
  have "find P [0..<k] = None \<longleftrightarrow> (\<forall>n < k. \<not> P n)" for P k
    by (auto simp: find_None_iff)
  then show ?thesis unfolding first_solution_def .
qed

lemma mine_spec_cases:
  obtains (found) n where "mine_spec C b = (tried C b n, [SerializeMinedBlock C (tried C b n)])"
    and "n < 10000" and "solves C b n" and "\<forall>m < n. \<not> solves C b m"
  | (gave_up) "mine_spec C b = (tried C b 9999, [])" and "\<forall>n < 10000. \<not> solves C b n"
  by (cases "first_solution C b")
     (auto simp: mine_spec_def first_solution_None first_solution_Some)

subsection \<open>Properties of the search\<close>

text \<open>
  What the miner broadcasts is mined. If \<open>MineBlock\<close> ends with block \<open>b'\<close>, then \<open>b'\<close> is the
  block it was given but for nonce and hash, its hash is the digest of its serialisation, and
  every packet it broadcast is that of \<open>b'\<close>, which passes \<open>IsMined\<close> while no smaller nonce does.
\<close>

theorem mined_broadcast_sound:
  assumes "MineBlock C clock b = Some (b', out)"
  shows "b' = b\<lparr>b_nonce := b_nonce b', b_hash := b_hash b'\<rparr> \<and>
    b_hash b' = CalculateSHA256 C (Block_Serialize C b') \<and>
    (\<forall>p \<in> set out. p = SerializeMinedBlock C b' \<and> IsMined b' \<and>
       (\<forall>n < unat (b_nonce b'). \<not> solves C b n))"
proof -
  have spec: "mine_spec C b = (b', out)" using assms by (simp add: MineBlock_mine_spec)
  have tried: "tried C b n = b\<lparr>b_nonce := b_nonce (tried C b n), b_hash := b_hash (tried C b n)\<rparr>
      \<and> b_hash (tried C b n) = CalculateSHA256 C (Block_Serialize C (tried C b n))" for n
    using tried_hash [of C b n]
    by (cases b) (simp add: CalculateSHA256_def tried_def Block_Hash_def Let_def)
  show ?thesis
  proof (cases rule: mine_spec_cases [of C b])
    case (found n)
    then have "unat (word_of_nat n :: u32) = n" by (intro unat_of_nat_small) simp
    with found spec tried [of n] show ?thesis by (auto simp: solves_def)
  next
    case gave_up
    with spec tried [of 9999] show ?thesis by auto
  qed
qed

definition easy_block :: "u8 block" where
  "easy_block = demo_block\<lparr>b_tx := [], b_index := 163\<rparr>"

lemma easy_block_solution: "first_solution toy_crypto easy_block = Some 2"
proof -
  have "\<not> solves toy_crypto easy_block 0" and "\<not> solves toy_crypto easy_block 1"
    and "solves toy_crypto easy_block 2"
    by (simp_all add: solves_def tried_def Block_Hash_def Let_def CalculateSHA256_def IsMined_iff
        easy_block_def demo_block_def toy_crypto_def Block_Serialize_def lit_def of_char_def
        le_bytes_unfold sum_list_replicate)
  then show ?thesis by (auto simp: first_solution_Some less_2_cases_iff)
qed

theorem mined_broadcast_sound_witness:
  "\<exists>b'. MineBlock toy_crypto (\<lambda>_. 0) easy_block = Some (b', [SerializeMinedBlock toy_crypto b']) \<and>
     IsMined b' \<and> b_nonce b' = 2"
proof -
  let ?b = "tried toy_crypto easy_block 2"
  have run: "MineBlock toy_crypto (\<lambda>_. 0) easy_block = Some (?b, [SerializeMinedBlock toy_crypto ?b])"
    by (simp add: MineBlock_mine_spec mine_spec_def easy_block_solution)
  from mined_broadcast_sound [OF run] run show ?thesis by auto
qed

text \<open>When the search gives up.\<close>

lemma MineBlock_gives_up:
  "\<exists>b' out. MineBlock C clock b = Some (b', out) \<and>
     (out \<noteq> [] \<longleftrightarrow> (\<exists>n < 10000. solves C b n)) \<and> b_timestamp b' = b_timestamp b \<and>
     unat (b_nonce b') < 10000"
proof -
  have small: "n < 10000 \<Longrightarrow> unat (word_of_nat n :: u32) < 10000" for n
    by (subst unat_of_nat_small) simp_all
  show ?thesis
  proof (cases rule: mine_spec_cases [of C b])
    case (found n)
    then show ?thesis using small by (auto simp: MineBlock_mine_spec)
  next
    case gave_up
    then show ?thesis by (auto simp: MineBlock_mine_spec)
  qed
qed

text \<open>
  C3: \<open>MineBlock\<close> returns, for every block, clock and hash function, after its first round: it
  computes \<open>mine_spec\<close>, which broadcasts the block with the least of the nonces 0 to 9999 that
  solves it, or nothing when none of them does, leaving the block at nonce 9999. The limit on the
  attempts ends the search whether or not another node's block arrived: a block whose first
  solution is nonce 10000 or later is never found, and its timestamp is never renewed.
\<close>

theorem mine_block_spec:
  "MineBlock C clock b = Some (mine_spec C b) \<and>
   (snd (mine_spec C b) \<noteq> [] \<longleftrightarrow> (\<exists>n < 10000. solves C b n)) \<and>
   b_timestamp (fst (mine_spec C b)) = b_timestamp b \<and> unat (b_nonce (fst (mine_spec C b))) < 10000"
  using MineBlock_gives_up [of C clock b] by (auto simp: MineBlock_mine_spec)

text \<open>
  What \<open>IsMined\<close> asks for. It holds when the digest is at least \<open>bit_thresh\<close> bytes long and
  starts with that many bytes of value 48, the character zero: whole bytes, not bits, and a digest
  that starts with a zero byte fails for every positive threshold.
\<close>

theorem is_mined_counts_characters:
  "(IsMined b \<longleftrightarrow> unat (b_bit_thresh b) \<le> length (b_hash b) \<and>
      take (unat (b_bit_thresh b)) (b_hash b) = replicate (unat (b_bit_thresh b)) 48) \<and>
   (0 < unat (b_bit_thresh b) \<longrightarrow> \<not> IsMined (b\<lparr>b_hash := 0 # d\<rparr>))"
proof -
  have "\<not> IsMined (b\<lparr>b_hash := 0 # d\<rparr>)" if "0 < unat (b_bit_thresh b)"
    using that by (cases "unat (b_bit_thresh b)") (auto simp: IsMined_iff)
  then show ?thesis using IsMined_iff by blast
qed

theorem is_mined_counts_characters_witness:
  "\<not> IsMined (demo_block\<lparr>b_hash := 0 # replicate 31 48\<rparr>)"
  using is_mined_counts_characters [of demo_block "replicate 31 48"] by (simp add: demo_block_def)

text \<open>
  With SHA-256 no block of a threshold above 32 can be mined: the search ends without a
  broadcast, at any clock.
\<close>

theorem threshold_unreachable:
  assumes "crypto_laws C" and "32 < unat (b_bit_thresh b)"
  shows "\<exists>b'. MineBlock C clock b = Some (b', [])"
proof -
  have "\<not> solves C b n" for n
    using assms by (simp add: solves_def IsMined_iff tried_hash crypto_laws_SHA256)
  then show ?thesis using MineBlock_gives_up [of C clock b] by auto
qed

theorem threshold_unreachable_witness:
  "\<exists>b'. MineBlock toy_crypto (\<lambda>_. 0) (demo_block\<lparr>b_bit_thresh := 33\<rparr>) = Some (b', [])"
  by (rule threshold_unreachable [OF toy_crypto_laws]) simp

end
