(* ===== verification/Net.thy ===== *)
theory Net
  imports Prelude "HOL-Library.List_Lexorder"
begin

section \<open>Shared network pieces: send results, ordered maps, calls out\<close>

text \<open>
  What both sides of the TCP layer use: \<open>pipe_ret_t\<close> (pipe_ret_t.h), the way a \<open>send\<close> is judged,
  \<open>std::map\<close> with string keys, and the effects the components hand to the operating system or to
  the functions their observers point at.
\<close>

subsection \<open>pipe_ret_t\<close>

record pipe_ret =
  pr_success :: bool
  pr_msg :: bytes

definition pipe_ret_new :: pipe_ret where
  "pipe_ret_new = \<lparr>pr_success = False, pr_msg = []\<rparr>"

subsection \<open>The result of a send\<close>

text \<open>\<open>%d\<close> and \<open>%lu\<close> of numbers that are not negative.\<close>

fun digits :: "nat \<Rightarrow> string" where
  "digits n = (if n < 10 then [char_of (48 + n)] else digits (n div 10) @ [char_of (48 + n mod 10)])"

declare digits.simps [simp del]

definition short_send_msg :: "nat \<Rightarrow> nat \<Rightarrow> bytes" where
  "short_send_msg sent sz =
     lit (''Only '' @ digits sent @ '' bytes out of '' @ digits sz @ '' was sent to client'')"

text \<open>
  \<open>numBytesSent\<close> is what \<open>send\<close> returned, \<open>err\<close> the text of \<open>errno\<close>. The cast to \<open>uint\<close> keeps a
  count that is not negative.
\<close>

definition judge_send :: "bytes \<Rightarrow> int \<Rightarrow> nat \<Rightarrow> pipe_ret" where
  "judge_send err numBytesSent sz =
     (let ret = pipe_ret_new in
      if numBytesSent < 0 then ret\<lparr>pr_success := False, pr_msg := err\<rparr>
      else if nat numBytesSent < sz
        then ret\<lparr>pr_success := False, pr_msg := short_send_msg (nat numBytesSent) sz\<rparr>
      else ret\<lparr>pr_success := True\<rparr>)"

lemma judge_send_success [simp]: "pr_success (judge_send err n sz) \<longleftrightarrow> 0 \<le> n \<and> sz \<le> nat n"
  by (auto simp: judge_send_def Let_def)

text \<open>The message of a short send fits the array of 100 characters it is printed into.\<close>

lemma length_digits: "0 < k \<Longrightarrow> n < 10 ^ k \<Longrightarrow> length (digits n) \<le> k"
proof (induction k arbitrary: n)
  case 0
  then show ?case by simp
next
  case (Suc k)
  show ?case
  proof (cases "n < 10")
    case True
    then show ?thesis by (simp add: digits.simps [of n])
  next
    case False
    then have "0 < k" using Suc.prems(2) by (cases k) simp_all
    moreover have "n div 10 < 10 ^ k" using Suc.prems(2) by (simp add: less_mult_imp_div_less)
    ultimately have "length (digits (n div 10)) \<le> k" by (rule Suc.IH)
    with False show ?thesis by (simp add: digits.simps [of n])
  qed
qed

subsection \<open>The answers of recv\<close>

text \<open>
  What one \<open>recv\<close> returns: some bytes (at least one, and no more than the buffer of
  \<open>MAX_PACKET_SIZE\<close> holds), 0 when the peer closed the connection, -1 with \<open>errno\<close>.
\<close>

definition MAX_PACKET_SIZE :: nat where
  "MAX_PACKET_SIZE = 4096"

datatype recv_reply =
    Received bytes
  | Peer_closed
  | Recv_failed bytes

fun recv_ok :: "recv_reply \<Rightarrow> bool" where
  "recv_ok (Received msg) = (0 < length msg \<and> length msg \<le> MAX_PACKET_SIZE)"
| "recv_ok _ = True"

subsection \<open>Effects\<close>

text \<open>
  The calls that leave a component, in order: to the operating system, to the functions of its
  observers (named by an address), and the lines it prints.
\<close>

datatype ('c, 'd) effect =
    Close_fd int
  | Send_fd int bytes
  | Call_message nat 'c bytes
  | Call_disconnected nat 'd
  | Print bytes

text \<open>
  Both ends publish to the observers subscribed to them, in the order of subscription. The contract
  of the three operations, and what follows for any list of subscriptions.
\<close>

locale publisher =
  fixes publish :: "'s \<Rightarrow> 'e list"
    and subscribe :: "'o \<Rightarrow> 's \<Rightarrow> 's"
    and clear :: "'s \<Rightarrow> 's"
    and notify :: "'o \<Rightarrow> 'e list"
  assumes publish_subscribe: "publish (subscribe ob s) = publish s @ notify ob"
    and publish_clear: "publish (clear s) = []"
begin

lemma publish_subscribe_all:
  "publish (fold subscribe obs s) = publish s @ concat (map notify obs)"
  by (induction obs arbitrary: s) (simp_all add: publish_subscribe)

lemma publish_subscribe_only: "publish (subscribe ob (clear s)) = notify ob"
  by (simp add: publish_subscribe publish_clear)

end

subsection \<open>std::map\<close>

text \<open>
  An ordered map is the list of its pairs by increasing key, as iteration visits them.
\<close>

type_synonym ('k, 'v) ordmap = "('k \<times> 'v) list"

fun map_set :: "'k::linorder \<Rightarrow> 'v \<Rightarrow> ('k, 'v) ordmap \<Rightarrow> ('k, 'v) ordmap" where
  "map_set k v [] = [(k, v)]"
| "map_set k v ((k', v') # m) =
     (if k < k' then (k, v) # (k', v') # m
      else if k = k' then (k, v) # m
      else (k', v') # map_set k v m)"

definition map_erase :: "'k::linorder \<Rightarrow> ('k, 'v) ordmap \<Rightarrow> ('k, 'v) ordmap" where
  "map_erase k m = filter (\<lambda>(k', _). k' \<noteq> k) m"

definition map_find :: "('k, 'v) ordmap \<Rightarrow> 'k::linorder \<Rightarrow> 'v option" where
  "map_find m k = map_of m k"

definition ordered :: "('k::linorder, 'v) ordmap \<Rightarrow> bool" where
  "ordered m \<longleftrightarrow> sorted_wrt (<) (map fst m)"

text \<open>What the users of a map rely on, and a lemma they share: erasing a list of keys.\<close>

locale std_map =
  fixes find :: "'m \<Rightarrow> 'k \<Rightarrow> 'v option"
    and set :: "'k \<Rightarrow> 'v \<Rightarrow> 'm \<Rightarrow> 'm"
    and erase :: "'k \<Rightarrow> 'm \<Rightarrow> 'm"
    and inv :: "'m \<Rightarrow> bool"
  assumes find_set: "inv m \<Longrightarrow> find (set k v m) = (find m)(k \<mapsto> v)"
    and find_erase: "inv m \<Longrightarrow> find (erase k m) = (find m)(k := None)"
    and inv_set: "inv m \<Longrightarrow> inv (set k v m)"
    and inv_erase: "inv m \<Longrightarrow> inv (erase k m)"
begin

lemma inv_erase_all: "inv m \<Longrightarrow> inv (fold erase ks m)"
  by (induction ks arbitrary: m) (simp_all add: inv_erase)

lemma find_erase_all:
  "inv m \<Longrightarrow> find (fold erase ks m) k = (if k \<in> List.set ks then None else find m k)"
  by (induction ks arbitrary: m) (auto simp: inv_erase find_erase)

end

lemma ordered_Cons: "ordered ((k, v) # m) \<longleftrightarrow> (\<forall>k' \<in> fst ` set m. k < k') \<and> ordered m"
  by (auto simp: ordered_def)

lemma ordered_distinct: "ordered m \<Longrightarrow> distinct (map fst m)"
proof (induction m)
  case (Cons p m)
  then show ?case by (cases p) (fastforce simp: ordered_Cons)
qed simp

lemma keys_map_set: "fst ` set (map_set k v m) = insert k (fst ` set m)"
  by (induction k v m rule: map_set.induct) auto

lemma ordered_map_set: "ordered m \<Longrightarrow> ordered (map_set k v m)"
  by (induction k v m rule: map_set.induct) (auto simp: ordered_Cons keys_map_set)

lemma find_map_set: "ordered m \<Longrightarrow> map_find (map_set k v m) = (map_find m)(k \<mapsto> v)"
proof (induction k v m rule: map_set.induct)
  case (2 k v k' v' m)
  then show ?case by (auto simp: map_find_def ordered_Cons fun_eq_iff)
qed (auto simp: map_find_def fun_eq_iff)

lemma keys_map_erase: "fst ` set (map_erase k m) = fst ` set m - {k}"
  by (auto simp: map_erase_def)

lemma ordered_map_erase: "ordered m \<Longrightarrow> ordered (map_erase k m)"
  by (induction m) (auto simp: map_erase_def ordered_Cons)

lemma find_map_erase: "map_find (map_erase k m) = (map_find m)(k := None)"
  by (induction m) (auto simp: map_find_def map_erase_def fun_eq_iff)

lemma map_find_None: "map_find m k = None \<longleftrightarrow> k \<notin> fst ` set m"
  by (simp add: map_find_def map_of_eq_None_iff)

lemma map_find_in: "ordered m \<Longrightarrow> map_find m k = Some v \<longleftrightarrow> (k, v) \<in> set m"
  by (simp add: map_find_def ordered_distinct)

interpretation ordmap: std_map map_find map_set map_erase ordered
  by unfold_locales (simp_all add: find_map_set find_map_erase ordered_map_set ordered_map_erase)

end
