(* ===== verification/TcpServer.thy ===== *)
theory TcpServer
  imports Net
begin

section \<open>tcp_server.cpp, tclient.h, tclient.cpp: the TCP server\<close>

text \<open>
  \<open>TcpServer\<close> keeps its clients in a \<open>std::vector<Client>\<close>. A \<open>Client\<close> owns a
  \<open>std::thread\<close> through a raw pointer, its destructor deletes it, and it has no copy constructor
  of its own: copying the object copies the pointer. The model keeps what that costs. A thread
  handle is a number, \<open>ts_live\<close> holds the handles that are allocated and not yet deleted, and an
  element of the vector that is destroyed deletes its handle, once more if a copy did it before.
  A \<open>Client *\<close> into the vector is its index and the generation of the buffer (a reallocation
  starts a new one).

  The answers of the system calls are arguments of the operations.
\<close>

subsection \<open>Client\<close>

text \<open>\<open>m_isConnected\<close> has no initialiser: \<open>None\<close> until one of the setters ran.\<close>

record client =
  c_sockfd :: int
  c_ip :: bytes
  c_errorMsg :: bytes
  c_isConnected :: "bool option"
  c_threadHandler :: "nat option"

definition Client_new :: client where
  "Client_new = \<lparr>c_sockfd = 0, c_ip = [], c_errorMsg = [], c_isConnected = None,
                 c_threadHandler = None\<rparr>"

text \<open>
  \<open>unset\<close> is how the byte reads when no setter ran. One that happens to read as false is taken as
  false; one that reads as true makes the caller go on with an object that was never set up, and the
  model stops. The table's clients are read with True: their flag is always set (theory ServerThreads).
\<close>

definition isConnected :: "bool \<Rightarrow> client \<Rightarrow> bool result" where
  "isConnected unset c = (case c_isConnected c of
     None \<Rightarrow> if unset then Inl Indeterminate else Inr False
   | Some b \<Rightarrow> Inr b)"

text \<open>\<open>operator ==\<close> looks at these two.\<close>

definition client_key :: "client \<Rightarrow> int \<times> bytes" where
  "client_key c = (c_sockfd c, c_ip c)"

definition client_eq :: "client \<Rightarrow> client \<Rightarrow> bool" where
  "client_eq c d \<longleftrightarrow> c_sockfd c = c_sockfd d \<and> c_ip c = c_ip d"

lemma client_eq_key: "client_eq c d \<longleftrightarrow> client_key c = client_key d"
  by (auto simp: client_eq_def client_key_def)

text \<open>\<open>~Client\<close>: \<open>detach\<close> and \<open>delete\<close> through the pointer.\<close>

definition destroy_client :: "client \<Rightarrow> nat set \<Rightarrow> nat set result" where
  "destroy_client c live =
     (case c_threadHandler c of
        None \<Rightarrow> Inr live
      | Some h \<Rightarrow> if h \<in> live then Inr (live - {h}) else Inl Use_after_free)"

fun destroy_clients :: "client list \<Rightarrow> nat set \<Rightarrow> nat set result" where
  "destroy_clients [] live = Inr live"
| "destroy_clients (c # cs) live = rbind (destroy_client c live) (destroy_clients cs)"

text \<open>The handles a list of clients holds, in order.\<close>

definition handles :: "client list \<Rightarrow> nat list" where
  "handles cs = List.map_filter c_threadHandler cs"

lemma handles_simps [simp]:
  "handles [] = []"
  "handles (c # cs) = (case c_threadHandler c of None \<Rightarrow> handles cs | Some h \<Rightarrow> h # handles cs)"
  "handles (cs @ ds) = handles cs @ handles ds"
  by (auto simp: handles_def map_filter_def split: option.splits)

lemma destroy_clients_ok:
  "distinct (handles cs) \<Longrightarrow> set (handles cs) \<subseteq> live \<Longrightarrow>
   destroy_clients cs live = Inr (live - set (handles cs))"
proof (induction cs arbitrary: live)
  case (Cons c cs)
  then show ?case
    by (cases "c_threadHandler c") (auto simp: destroy_client_def subset_Diff_insert insert_Diff_if)
qed simp

lemma destroy_clients_Inr:
  "destroy_clients cs live = Inr live' \<Longrightarrow>
   distinct (handles cs) \<and> set (handles cs) \<subseteq> live \<and> live' = live - set (handles cs)"
proof (induction cs arbitrary: live)
  case (Cons c cs)
  then show ?case
    by (cases "c_threadHandler c") (auto simp: destroy_client_def split: if_splits)
qed simp

subsection \<open>Observers\<close>

text \<open>The functions an observer points at are addresses, \<open>None\<close> is \<open>NULL\<close>.\<close>

record server_observer =
  so_wantedIp :: bytes
  so_incoming :: "nat option"
  so_disconnected :: "nat option"

definition server_observer_new :: server_observer where
  "server_observer_new = \<lparr>so_wantedIp = [], so_incoming = None, so_disconnected = None\<rparr>"

subsection \<open>The server object\<close>

record tcp_server =
  ts_sockfd :: int
  ts_clients :: "client list"
  ts_capacity :: nat
  ts_generation :: nat
  ts_subscribers :: "server_observer list"
  ts_live :: "nat set"
  ts_next :: nat

text \<open>The object of the program is a global, so its members start at zero.\<close>

definition TcpServer_new :: tcp_server where
  "TcpServer_new = \<lparr>ts_sockfd = 0, ts_clients = [], ts_capacity = 0, ts_generation = 0,
                    ts_subscribers = [], ts_live = {}, ts_next = 0\<rparr>"

text \<open>Every handle belongs to one client of the vector and is allocated.\<close>

definition wf_server :: "tcp_server \<Rightarrow> bool" where
  "wf_server s \<longleftrightarrow>
     distinct (handles (ts_clients s)) \<and> set (handles (ts_clients s)) \<subseteq> ts_live s \<and>
     (\<forall>h \<in> ts_live s. h < ts_next s) \<and> length (ts_clients s) \<le> ts_capacity s"

subsection \<open>The vector of clients\<close>

text \<open>A new buffer: the elements are copied into it, then the old ones are destroyed.\<close>

definition reallocate :: "nat \<Rightarrow> tcp_server \<Rightarrow> tcp_server result" where
  "reallocate n s =
     rbind (destroy_clients (ts_clients s) (ts_live s)) (\<lambda>live.
     Inr (s\<lparr>ts_capacity := n, ts_generation := Suc (ts_generation s), ts_live := live\<rparr>))"

definition reserve :: "nat \<Rightarrow> tcp_server \<Rightarrow> tcp_server result" where
  "reserve n s = (if ts_capacity s < n then reallocate n s else Inr s)"

text \<open>\<open>grow\<close> is the library's rule for the next capacity of a full vector.\<close>

definition push_back :: "(nat \<Rightarrow> nat) \<Rightarrow> client \<Rightarrow> tcp_server \<Rightarrow> tcp_server result" where
  "push_back grow c s =
     rbind (if length (ts_clients s) < ts_capacity s then Inr s
            else reallocate (grow (ts_capacity s)) s) (\<lambda>s.
     Inr (s\<lparr>ts_clients := ts_clients s @ [c]\<rparr>))"

text \<open>
  \<open>erase\<close> at a valid position assigns every later element to the place before it and destroys the
  last one.
\<close>

definition erase :: "nat \<Rightarrow> tcp_server \<Rightarrow> tcp_server result" where
  "erase i s =
     rbind (destroy_client (last (ts_clients s)) (ts_live s)) (\<lambda>live.
     Inr (s\<lparr>ts_clients := take i (ts_clients s) @ drop (Suc i) (ts_clients s), ts_live := live\<rparr>))"

definition clear_clients :: "tcp_server \<Rightarrow> tcp_server result" where
  "clear_clients s =
     rbind (destroy_clients (ts_clients s) (ts_live s)) (\<lambda>live.
     Inr (s\<lparr>ts_clients := [], ts_live := live\<rparr>))"

text \<open>Pointers into the vector.\<close>

type_synonym client_ptr = "nat \<times> nat"

definition deref :: "client_ptr \<Rightarrow> tcp_server \<Rightarrow> client result" where
  "deref p s =
     (if fst p = ts_generation s \<and> snd p < length (ts_clients s)
      then Inr (ts_clients s ! snd p) else Inl Use_after_free)"

definition store :: "client_ptr \<Rightarrow> client \<Rightarrow> tcp_server \<Rightarrow> tcp_server" where
  "store p c s = s\<lparr>ts_clients := (ts_clients s)[snd p := c]\<rparr>"

definition back_ptr :: "tcp_server \<Rightarrow> client_ptr result" where
  "back_ptr s =
     (if ts_clients s = [] then Inl Out_of_bounds
      else Inr (ts_generation s, length (ts_clients s) - 1))"

subsection \<open>Operations\<close>

definition subscribe :: "server_observer \<Rightarrow> tcp_server \<Rightarrow> tcp_server" where
  "subscribe ob s = s\<lparr>ts_subscribers := ts_subscribers s @ [ob]\<rparr>"

definition unsubscribeAll :: "tcp_server \<Rightarrow> tcp_server" where
  "unsubscribeAll s = s\<lparr>ts_subscribers := []\<rparr>"

type_synonym server_effect = "(client, client) effect"

definition notify_message :: "client \<Rightarrow> bytes \<Rightarrow> server_observer \<Rightarrow> server_effect list" where
  "notify_message c msg ob =
     (if so_wantedIp ob = c_ip c \<or> so_wantedIp ob = [] then
        (case so_incoming ob of None \<Rightarrow> [] | Some f \<Rightarrow> [Call_message f c msg])
      else [])"

definition notify_disconnected :: "client \<Rightarrow> server_observer \<Rightarrow> server_effect list" where
  "notify_disconnected c ob =
     (if so_wantedIp ob = c_ip c then
        (case so_disconnected ob of None \<Rightarrow> [] | Some f \<Rightarrow> [Call_disconnected f c])
      else [])"

definition publishClientMsg :: "tcp_server \<Rightarrow> client \<Rightarrow> bytes \<Rightarrow> server_effect list" where
  "publishClientMsg s c msg = concat (map (notify_message c msg) (ts_subscribers s))"

definition publishClientDisconnected :: "tcp_server \<Rightarrow> client \<Rightarrow> server_effect list" where
  "publishClientDisconnected s c = concat (map (notify_disconnected c) (ts_subscribers s))"

interpretation message_publisher:
  publisher "\<lambda>s. publishClientMsg s c msg" subscribe unsubscribeAll "notify_message c msg" for c msg
  by unfold_locales (simp_all add: publishClientMsg_def subscribe_def unsubscribeAll_def)

interpretation disconnection_publisher:
  publisher "\<lambda>s. publishClientDisconnected s c" subscribe unsubscribeAll "notify_disconnected c" for c
  by unfold_locales (simp_all add: publishClientDisconnected_def subscribe_def unsubscribeAll_def)

text \<open>The first index whose element equals the client.\<close>

fun find_client :: "client \<Rightarrow> client list \<Rightarrow> nat option" where
  "find_client c [] = None"
| "find_client c (d # ds) =
     (if client_eq d c then Some 0 else map_option Suc (find_client c ds))"

definition deleteClient :: "client \<Rightarrow> tcp_server \<Rightarrow> (bool \<times> tcp_server) result" where
  "deleteClient c s =
     (case find_client c (ts_clients s) of
        Some clientIndex \<Rightarrow> rbind (erase clientIndex s) (\<lambda>s. Inr (True, s))
      | None \<Rightarrow> Inr (False, s))"

text \<open>\<open>killClient\<close> on an object outside the vector: it returns that object as well.\<close>

definition killClient ::
  "client \<Rightarrow> tcp_server \<Rightarrow> (client \<times> server_effect list \<times> tcp_server) result" where
  "killClient c s =
     (let c = c\<lparr>c_isConnected := Some False\<rparr>;
          effs = Close_fd (c_sockfd c) # publishClientDisconnected s c in
      rbind (deleteClient c s) (\<lambda>(_, s). Inr (c, effs, s)))"

text \<open>
  \<open>start\<close>: what \<open>socket\<close>, \<open>bind\<close> and \<open>listen\<close> return, and the text of \<open>errno\<close> at the first that
  fails. The socket of a failed start stays open.
\<close>

record start_env =
  se_socket :: int
  se_bind :: int
  se_listen :: int
  se_error :: bytes

definition start :: "start_env \<Rightarrow> tcp_server \<Rightarrow> (pipe_ret \<times> tcp_server) result" where
  "start env s =
     (let s = s\<lparr>ts_sockfd := 0\<rparr> in
      rbind (reserve 10 s) (\<lambda>s.
      let ret = pipe_ret_new;
          s = s\<lparr>ts_sockfd := se_socket env\<rparr>;
          failed = ret\<lparr>pr_success := False, pr_msg := se_error env\<rparr> in
      if ts_sockfd s = -1 then Inr (failed, s)
      else if se_bind env = -1 then Inr (failed, s)
      else if se_listen env = -1 then Inr (failed, s)
      else Inr (ret\<lparr>pr_success := True\<rparr>, s)))"

text \<open>
  \<open>acceptClient\<close>: what \<open>select\<close> returns and leaves in the set, what \<open>accept\<close> returns with the
  peer's address as \<open>inet_ntoa\<close> prints it, the text of \<open>errno\<close>, and how the flag of the new
  object reads as long as it is unset. On success the vector gets a
  copy of the client, and that copy a new thread, which will run \<open>receiveTask\<close>.
\<close>

record accept_env =
  ae_select :: int
  ae_isset :: bool
  ae_accept :: int
  ae_ip :: bytes
  ae_error :: bytes
  ae_unset :: bool

definition setThreadHandler :: "client_ptr \<Rightarrow> tcp_server \<Rightarrow> tcp_server result" where
  "setThreadHandler p s =
     rbind (deref p s) (\<lambda>c.
     Inr (store p (c\<lparr>c_threadHandler := Some (ts_next s)\<rparr>) s
            \<lparr>ts_live := insert (ts_next s) (ts_live s), ts_next := Suc (ts_next s)\<rparr>))"

definition acceptClient ::
  "(nat \<Rightarrow> nat) \<Rightarrow> nat \<Rightarrow> accept_env \<Rightarrow> tcp_server \<Rightarrow> (client \<times> tcp_server) result" where
  "acceptClient grow timeout env s =
     (let newClient = Client_new in
      if 0 < timeout \<and> ae_select env = -1 then Inr (newClient\<lparr>c_errorMsg := ae_error env\<rparr>, s)
      else if 0 < timeout \<and> ae_select env = 0 then
        Inr (newClient\<lparr>c_errorMsg := lit ''Timeout waiting for client''\<rparr>, s)
      else if 0 < timeout \<and> \<not> ae_isset env then
        Inr (newClient\<lparr>c_errorMsg := lit ''File descriptor is not set''\<rparr>, s)
      else if ae_accept env = -1 then Inr (newClient\<lparr>c_errorMsg := ae_error env\<rparr>, s)
      else
        let newClient = newClient\<lparr>c_sockfd := ae_accept env, c_isConnected := Some True,
                                  c_ip := ae_ip env\<rparr> in
        rbind (push_back grow newClient s) (\<lambda>s.
        rbind (back_ptr s) (\<lambda>p.
        rbind (setThreadHandler p s) (\<lambda>s. Inr (newClient, s)))))"

text \<open>
  \<open>receiveTask\<close>, cut at its blocking call: the pointer it takes when the thread starts, the test of
  the loop before \<open>recv\<close>, and what it does with the answer. The second component says whether the
  loop goes on.
\<close>

definition receive_test :: "client_ptr \<Rightarrow> tcp_server \<Rightarrow> bool result" where
  "receive_test p s = rbind (deref p s) (isConnected True)"

definition receive_reply ::
  "client_ptr \<Rightarrow> recv_reply \<Rightarrow> tcp_server \<Rightarrow> (server_effect list \<times> bool \<times> tcp_server) result" where
  "receive_reply p reply s =
     rbind (deref p s) (\<lambda>c.
     case reply of
       Received msg \<Rightarrow> Inr (publishClientMsg s c msg, True, s)
     | _ \<Rightarrow>
       (let c = c\<lparr>c_isConnected := Some False,
                  c_errorMsg := (case reply of Recv_failed err \<Rightarrow> err
                                 | _ \<Rightarrow> lit ''Client closed connection'')\<rparr>;
            s = store p c s;
            effs = Close_fd (c_sockfd c) # publishClientDisconnected s c in
        rbind (deleteClient c s) (\<lambda>(_, s). Inr (effs, False, s))))"

text \<open>Sending. \<open>os\<close> is the answer of the n-th \<open>send\<close> of the call and the text of \<open>errno\<close>.\<close>

definition sendToClient ::
  "int \<times> bytes \<Rightarrow> client \<Rightarrow> bytes \<Rightarrow> server_effect list \<times> pipe_ret" where
  "sendToClient os c msg =
     ([Send_fd (c_sockfd c) msg], judge_send (snd os) (fst os) (length msg))"

fun send_from ::
  "(nat \<Rightarrow> int \<times> bytes) \<Rightarrow> nat \<Rightarrow> client list \<Rightarrow> bytes \<Rightarrow> pipe_ret \<Rightarrow>
   server_effect list \<times> pipe_ret" where
  "send_from os i [] msg ret = ([], ret\<lparr>pr_success := True\<rparr>)"
| "send_from os i (c # cs) msg ret =
     (let (effs, ret) = sendToClient (os i) c msg in
      if \<not> pr_success ret then (effs, ret)
      else let (effs', ret) = send_from os (Suc i) cs msg ret in (effs @ effs', ret))"

definition sendToAllClients ::
  "(nat \<Rightarrow> int \<times> bytes) \<Rightarrow> bytes \<Rightarrow> tcp_server \<Rightarrow> server_effect list \<times> pipe_ret" where
  "sendToAllClients os msg s = send_from os 0 (ts_clients s) msg pipe_ret_new"

text \<open>
  \<open>finish\<close>: \<open>cl\<close> tells what \<open>close\<close> returns for a descriptor (0 or -1).
\<close>

fun close_from :: "(int \<Rightarrow> int) \<Rightarrow> client list \<Rightarrow> client list \<times> server_effect list \<times> bool" where
  "close_from cl [] = ([], [], True)"
| "close_from cl (c # cs) =
     (let c = c\<lparr>c_isConnected := Some False\<rparr> in
      if cl (c_sockfd c) = -1 then (c # cs, [Close_fd (c_sockfd c)], False)
      else let (cs, effs, ok) = close_from cl cs in (c # cs, Close_fd (c_sockfd c) # effs, ok))"

definition finish ::
  "(int \<Rightarrow> int) \<Rightarrow> bytes \<Rightarrow> tcp_server \<Rightarrow> (server_effect list \<times> pipe_ret \<times> tcp_server) result" where
  "finish cl err s =
     (let ret = pipe_ret_new;
          failed = ret\<lparr>pr_success := False, pr_msg := err\<rparr>;
          (cs, effs, ok) = close_from cl (ts_clients s);
          s = s\<lparr>ts_clients := cs\<rparr> in
      if \<not> ok then Inr (effs, failed, s)
      else if cl (ts_sockfd s) = -1 then Inr (effs @ [Close_fd (ts_sockfd s)], failed, s)
      else rbind (clear_clients s) (\<lambda>s.
           Inr (effs @ [Close_fd (ts_sockfd s)], ret\<lparr>pr_success := True\<rparr>, s)))"

definition show_int :: "int \<Rightarrow> string" where
  "show_int n = (if n < 0 then ''-'' @ digits (nat (- n)) else digits (nat n))"

fun printClients_from :: "client list \<Rightarrow> bytes result" where
  "printClients_from [] = Inr []"
| "printClients_from (c # cs) =
     rbind (isConnected True c) (\<lambda>b.
     rbind (printClients_from cs) (\<lambda>rest.
     Inr (lit (''-----------------'' @ [CHR 0x0A] @ ''IP address: '') @ c_ip c
        @ lit ([CHR 0x0A] @ ''Connected?: '' @ (if b then ''True'' else ''False'')
             @ [CHR 0x0A] @ ''Socket FD: '' @ show_int (c_sockfd c)
             @ [CHR 0x0A] @ ''Message: '')
        @ takeWhile (\<lambda>x. x \<noteq> 0) (c_errorMsg c) @ lit [CHR 0x0A] @ rest)))"

definition printClients :: "tcp_server \<Rightarrow> bytes result" where
  "printClients s = printClients_from (ts_clients s)"

subsection \<open>The vector: what its operations keep\<close>

lemma handles_map_filter: "set (handles cs) = {h. \<exists>c \<in> set cs. c_threadHandler c = Some h}"
  by (induction cs) (auto split: option.splits)

lemma handles_remove_nth:
  "i < length cs \<Longrightarrow> set (handles (take i cs @ drop (Suc i) cs)) \<subseteq> set (handles cs)"
  by (auto simp: handles_map_filter dest: in_set_takeD in_set_dropD)

lemma handles_store:
  "i < length cs \<Longrightarrow> c_threadHandler c = c_threadHandler (cs ! i) \<Longrightarrow> handles (cs[i := c]) = handles cs"
  by (induction cs arbitrary: i) (auto split: nat.splits option.splits)

lemma handles_last:
  assumes "cs \<noteq> []"
  shows "handles cs = handles (butlast cs) @ handles [last cs]"
  by (metis append_butlast_last_id assms handles_simps(3))

lemma remove_last: "cs \<noteq> [] \<Longrightarrow> take (length cs - 1) cs @ drop (Suc (length cs - 1)) cs = butlast cs"
  by (simp add: butlast_conv_take)

lemma destroy_last_ok:
  assumes "wf_server s" "ts_clients s \<noteq> []"
  shows "destroy_client (last (ts_clients s)) (ts_live s)
         = Inr (ts_live s - set (handles [last (ts_clients s)]))"
proof -
  have "set (handles [last (ts_clients s)]) \<subseteq> ts_live s"
    using assms handles_last [OF assms(2)] by (auto simp: wf_server_def)
  then show ?thesis by (auto simp: destroy_client_def split: option.splits)
qed

text \<open>Erasing from a well-formed server does not fail, and erasing its last element keeps it so.\<close>

lemma erase_ok:
  "wf_server s \<Longrightarrow> i < length (ts_clients s) \<Longrightarrow>
   erase i s = Inr (s\<lparr>ts_clients := take i (ts_clients s) @ drop (Suc i) (ts_clients s),
                      ts_live := ts_live s - set (handles [last (ts_clients s)])\<rparr>)"
  using destroy_last_ok by (force simp: erase_def)

lemma wf_erase_last:
  assumes "wf_server s" "ts_clients s \<noteq> []"
  shows "wf_server (s\<lparr>ts_clients := butlast (ts_clients s),
                       ts_live := ts_live s - set (handles [last (ts_clients s)])\<rparr>)"
  using assms(1) handles_last [OF assms(2)]
  by (auto simp: wf_server_def split: option.splits)

lemma wf_push_back:
  assumes "wf_server s" "length (ts_clients s) < ts_capacity s" "c_threadHandler c = None"
  shows "push_back grow c s = Inr (s\<lparr>ts_clients := ts_clients s @ [c]\<rparr>)"
    and "wf_server (s\<lparr>ts_clients := ts_clients s @ [c]\<rparr>)"
  using assms by (auto simp: push_back_def wf_server_def)

lemma push_back_full:
  assumes "wf_server s" "length (ts_clients s) = ts_capacity s"
  shows "push_back grow c s
         = Inr (s\<lparr>ts_clients := ts_clients s @ [c], ts_capacity := grow (ts_capacity s),
                  ts_generation := Suc (ts_generation s),
                  ts_live := ts_live s - set (handles (ts_clients s))\<rparr>)"
  using assms destroy_clients_ok [of "ts_clients s" "ts_live s"]
  by (simp add: push_back_def reallocate_def wf_server_def)

lemma find_client_Some:
  "find_client c cs = Some i \<Longrightarrow>
   i < length cs \<and> client_key (cs ! i) = client_key c \<and>
   map client_key (take i cs @ drop (Suc i) cs) = remove1 (client_key c) (map client_key cs)"
  by (induction cs arbitrary: i) (auto simp: client_eq_key split: if_splits)

lemma find_client_None: "find_client c cs = None \<longleftrightarrow> client_key c \<notin> set (map client_key cs)"
  by (induction cs) (auto simp: client_eq_key)

lemma find_client_nth:
  "distinct (map client_key cs) \<Longrightarrow> i < length cs \<Longrightarrow> client_key (cs ! i) = client_key c \<Longrightarrow>
   find_client c cs = Some i"
proof (induction cs arbitrary: i)
  case (Cons d ds)
  then show ?case
    by (cases i) (simp_all add: client_eq_key, metis imageI nth_mem)
qed simp

text \<open>The vector as an abstract list of keys: what a user of the client table relies on.\<close>

locale client_table =
  fixes keys :: "'s \<Rightarrow> 'k list"
    and key :: "'c \<Rightarrow> 'k"
    and delete :: "'c \<Rightarrow> 's \<Rightarrow> (bool \<times> 's) result"
  assumes delete_keys: "delete c s = Inr (b, s') \<Longrightarrow> keys s' = remove1 (key c) (keys s)"
    and delete_found: "delete c s = Inr (b, s') \<Longrightarrow> b \<longleftrightarrow> key c \<in> set (keys s)"
begin

lemma delete_distinct: "delete c s = Inr (b, s') \<Longrightarrow> distinct (keys s) \<Longrightarrow> distinct (keys s')"
  by (simp add: delete_keys)

lemma delete_twice:
  "distinct (keys s) \<Longrightarrow> delete c s = Inr (b, s') \<Longrightarrow> delete c s' = Inr (b', s'') \<Longrightarrow>
   \<not> b' \<and> keys s'' = keys s'"
  using delete_found [of c s' b' s''] delete_keys [of c s b s'] delete_keys [of c s' b' s'']
  by (auto simp: remove1_idem)

lemma delete_others:
  "distinct (keys s) \<Longrightarrow> delete c s = Inr (b, s') \<Longrightarrow> set (keys s') = set (keys s) - {key c}"
  by (simp add: delete_keys)

lemma delete_length:
  "delete c s = Inr (True, s') \<Longrightarrow> Suc (length (keys s')) = length (keys s)"
  using delete_found [of c s True s'] delete_keys [of c s True s']
  by (auto simp: length_remove1 dest: length_pos_if_in_set)

end

definition server_keys :: "tcp_server \<Rightarrow> (int \<times> bytes) list" where
  "server_keys s = map client_key (ts_clients s)"

interpretation vec: client_table server_keys client_key deleteClient
proof
  fix c s b s'
  assume d: "deleteClient c s = Inr (b, s')"
  then show "server_keys s' = remove1 (client_key c) (server_keys s)"
    using find_client_Some [of c "ts_clients s"] find_client_None [of c "ts_clients s"]
    by (auto simp: deleteClient_def erase_def server_keys_def remove1_idem split: option.splits)
  show "b \<longleftrightarrow> client_key c \<in> set (server_keys s)"
    using d find_client_None [of c "ts_clients s"]
    by (auto simp: deleteClient_def erase_def server_keys_def split: option.splits)
qed

lemma deleteClient_other_fields:
  "deleteClient c s = Inr (b, s') \<Longrightarrow>
   ts_generation s' = ts_generation s \<and> ts_capacity s' = ts_capacity s \<and>
   ts_subscribers s' = ts_subscribers s \<and> ts_sockfd s' = ts_sockfd s \<and> ts_next s' = ts_next s"
  by (auto simp: deleteClient_def erase_def split: option.splits)

lemma deleteClient_removes:
  assumes "deleteClient c s = Inr (b, s')" "client_key c \<in> set (server_keys s)"
  shows "length (ts_clients s) = Suc (length (ts_clients s'))"
proof -
  have "b" using vec.delete_found [OF assms(1)] assms(2) by simp
  then show ?thesis using vec.delete_length assms(1) by (fastforce simp: server_keys_def)
qed

lemma deleteClient_ok:
  assumes "wf_server s"
  shows "\<exists>b s'. deleteClient c s = Inr (b, s')"
  using assms erase_ok [of s] find_client_Some [of c "ts_clients s"]
  by (fastforce simp: deleteClient_def split: option.splits)

lemma deref_stale: "deref p s = Inl Use_after_free \<Longrightarrow> receive_reply p r s = Inl Use_after_free"
  by (simp add: receive_reply_def)

lemma store_fields [simp]:
  "ts_generation (store p c s) = ts_generation s" "ts_live (store p c s) = ts_live s"
  "ts_capacity (store p c s) = ts_capacity s" "ts_subscribers (store p c s) = ts_subscribers s"
  "ts_next (store p c s) = ts_next s" "length (ts_clients (store p c s)) = length (ts_clients s)"
  by (simp_all add: store_def)

text \<open>A receive loop that ends has removed one client from the vector.\<close>

lemma receive_reply_end:
  assumes "receive_reply p r s = Inr (effs, False, s')"
  shows "fst p = ts_generation s \<and> snd p < length (ts_clients s) \<and>
         length (ts_clients s) = Suc (length (ts_clients s')) \<and> ts_generation s' = ts_generation s"
proof -
  define c where "c = (ts_clients s ! snd p)
    \<lparr>c_isConnected := Some False,
     c_errorMsg := (case r of Recv_failed err \<Rightarrow> err | _ \<Rightarrow> lit ''Client closed connection'')\<rparr>"
  have v: "fst p = ts_generation s" "snd p < length (ts_clients s)"
    using assms by (auto simp: receive_reply_def deref_def split: if_splits)
  obtain b where d: "deleteClient c (store p c s) = Inr (b, s')"
    using assms by (auto simp: receive_reply_def deref_def Let_def c_def
        split: if_splits recv_reply.splits)
  have "client_key c \<in> set (server_keys (store p c s))"
    using v(2) by (auto simp: server_keys_def store_def set_update_memI)
  with deleteClient_removes [OF d] deleteClient_other_fields [OF d] v show ?thesis by simp
qed

subsection \<open>Properties of single operations\<close>

text \<open>
  C25: \<open>deleteClient\<close> on a well-formed server never fails, removes the first client with the
  descriptor and address of its argument from the list of clients, and tells whether there was one.\<close>

theorem deleteClient_refines_remove1:
  assumes "wf_server s"
  shows "\<exists>s'. deleteClient c s = Inr (client_key c \<in> set (map client_key (ts_clients s)), s') \<and>
              map client_key (ts_clients s') = remove1 (client_key c) (map client_key (ts_clients s))"
proof -
  obtain b s' where d: "deleteClient c s = Inr (b, s')" using deleteClient_ok [OF assms] by blast
  with vec.delete_found [OF d] vec.delete_keys [OF d] show ?thesis by (auto simp: server_keys_def)
qed

text \<open>
  C24: after \<open>deleteClient\<close> removed a client that is not the last of the vector, the thread handle of
  the last client is gone although the client is still there. If the next operation on the vector is
  another \<open>deleteClient\<close> that finds a client, it deletes that handle again: use after free.\<close>

theorem second_delete_after_shift_fails:
  assumes "wf_server s" "find_client c (ts_clients s) = Some i" "Suc i < length (ts_clients s)"
    and "c_threadHandler (last (ts_clients s)) = Some h"
    and "deleteClient c s = Inr (b, s')"
    and "client_key d \<in> set (map client_key (ts_clients s'))"
  shows "deleteClient d s' = Inl Use_after_free"
proof -
  have "s' = s\<lparr>ts_clients := take i (ts_clients s) @ drop (Suc i) (ts_clients s),
               ts_live := ts_live s - {h}\<rparr>"
    using assms(2-5) erase_ok [OF assms(1), of i] by (auto simp: deleteClient_def)
  then have "last (ts_clients s') = last (ts_clients s)" "h \<notin> ts_live s'"
    using assms(3) by (simp_all add: last_drop)
  moreover obtain j where "find_client d (ts_clients s') = Some j"
    using assms(6) find_client_None [of d "ts_clients s'"] by auto
  ultimately show ?thesis
    using assms(4) by (simp add: deleteClient_def erase_def destroy_client_def)
qed

text \<open>
  C33: when the receive thread of any client ends, the pointer of the thread that serves the last
  client of the vector dangles: whatever that thread receives next is handled through freed memory.\<close>

theorem departure_dangles_last_task:
  assumes "receive_reply p r s = Inr (effs, False, s')"
    and "q = (ts_generation s, length (ts_clients s) - 1)"
  shows "receive_reply q r' s' = Inl Use_after_free"
  using receive_reply_end [OF assms(1)] assms(2) by (intro deref_stale) (simp add: deref_def)

text \<open>
  The same after \<open>killClient\<close>. With one client connected, the thread left dangling is the one
  that serves the client just killed.\<close>

theorem kill_dangles_last_task:
  assumes "killClient c s = Inr (c', effs, s')" "client_key c \<in> set (map client_key (ts_clients s))"
  shows "receive_reply (ts_generation s, length (ts_clients s) - 1) r s' = Inl Use_after_free"
proof -
  obtain b where d: "deleteClient (c\<lparr>c_isConnected := Some False\<rparr>) s = Inr (b, s')"
    using assms(1) by (auto simp: killClient_def Let_def)
  moreover have "client_key (c\<lparr>c_isConnected := Some False\<rparr>) = client_key c"
    by (simp add: client_key_def)
  ultimately have "length (ts_clients s) = Suc (length (ts_clients s'))"
    using deleteClient_removes [OF d] assms(2) by (simp add: server_keys_def)
  then show ?thesis by (intro deref_stale) (simp add: deref_def)
qed

text \<open>
  C34: accepting a client into a full vector moves it: the pointer of every receive thread started
  before is stale, and what such a thread receives next is handled through freed memory.\<close>

theorem accept_beyond_capacity_dangles:
  assumes "wf_server s" "length (ts_clients s) = ts_capacity s" "ae_accept env \<noteq> -1"
    and "acceptClient grow 0 env s = Inr (c, s')" and "fst p = ts_generation s"
  shows "receive_reply p r s' = Inl Use_after_free"
proof -
  have "ts_generation s' = Suc (ts_generation s)"
    using assms(3,4) push_back_full [OF assms(1,2)]
    by (auto simp: acceptClient_def Let_def setThreadHandler_def)
  then show ?thesis using assms(5) by (intro deref_stale) (simp add: deref_def)
qed

text \<open>Sending: the sends that are made are those up to the first that fails.\<close>

definition sends_ok :: "(nat \<Rightarrow> int \<times> bytes) \<Rightarrow> nat \<Rightarrow> nat \<Rightarrow> bool" where
  "sends_ok os i sz \<longleftrightarrow> 0 \<le> fst (os i) \<and> sz \<le> nat (fst (os i))"

lemma send_from_spec:
  "send_from os i cs msg ret =
     (case find (\<lambda>j. \<not> sends_ok os j (length msg)) [i ..< i + length cs] of
        None \<Rightarrow> (map (\<lambda>c. Send_fd (c_sockfd c) msg) cs,
                 (if cs = [] then ret else pipe_ret_new)\<lparr>pr_success := True\<rparr>)
      | Some j \<Rightarrow> (map (\<lambda>c. Send_fd (c_sockfd c) msg) (take (Suc (j - i)) cs),
                   judge_send (snd (os j)) (fst (os j)) (length msg)))"
proof (induction cs arbitrary: i ret)
  case (Cons c cs)
  have u: "[i ..< i + length (c # cs)] = i # [Suc i ..< Suc i + length cs]"
    by (simp add: upt_rec)
  show ?case
  proof (cases "sends_ok os i (length msg)")
    case True
    then have j: "judge_send (snd (os i)) (fst (os i)) (length msg) = pipe_ret_new\<lparr>pr_success := True\<rparr>"
      by (auto simp: judge_send_def Let_def sends_ok_def)
    have "j \<in> set [Suc i ..< Suc i + length cs]"
      if "find (\<lambda>j. \<not> sends_ok os j (length msg)) [Suc i ..< Suc i + length cs] = Some j" for j
      using that unfolding find_Some_iff by (metis nth_mem)
    then have "Suc (j - Suc i) = j - i"
      if "find (\<lambda>j. \<not> sends_ok os j (length msg)) [Suc i ..< Suc i + length cs] = Some j" for j
      using that by fastforce
    then show ?thesis unfolding u using True j Cons.IH [of "Suc i" "pipe_ret_new\<lparr>pr_success := True\<rparr>"]
      by (auto simp: sendToClient_def split: option.splits)
  next
    case False
    then show ?thesis unfolding u by (auto simp: sendToClient_def sends_ok_def)
  qed
qed simp

text \<open>
  C36: \<open>sendToAllClients\<close> hands the message to the clients in order and stops at the first one
  whose \<open>send\<close> fails or is short, whose verdict it returns; the clients after it get nothing. It
  reports success exactly when no \<open>send\<close> failed.\<close>

theorem sendToAllClients_stops_at_first_failure:
  "sendToAllClients os msg s =
     (case find (\<lambda>j. \<not> sends_ok os j (length msg)) [0 ..< length (ts_clients s)] of
        None \<Rightarrow> (map (\<lambda>c. Send_fd (c_sockfd c) msg) (ts_clients s), \<lparr>pr_success = True, pr_msg = []\<rparr>)
      | Some j \<Rightarrow> (map (\<lambda>c. Send_fd (c_sockfd c) msg) (take (Suc j) (ts_clients s)),
                   judge_send (snd (os j)) (fst (os j)) (length msg)))
   \<and> (pr_success (snd (sendToAllClients os msg s)) \<longleftrightarrow>
        filter (\<lambda>j. \<not> sends_ok os j (length msg)) [0 ..< length (ts_clients s)] = [])"
proof
  show eq: "sendToAllClients os msg s =
     (case find (\<lambda>j. \<not> sends_ok os j (length msg)) [0 ..< length (ts_clients s)] of
        None \<Rightarrow> (map (\<lambda>c. Send_fd (c_sockfd c) msg) (ts_clients s), \<lparr>pr_success = True, pr_msg = []\<rparr>)
      | Some j \<Rightarrow> (map (\<lambda>c. Send_fd (c_sockfd c) msg) (take (Suc j) (ts_clients s)),
                   judge_send (snd (os j)) (fst (os j)) (length msg)))"
    by (simp add: sendToAllClients_def send_from_spec pipe_ret_new_def split: option.splits)
  show "pr_success (snd (sendToAllClients os msg s)) \<longleftrightarrow>
        filter (\<lambda>j. \<not> sends_ok os j (length msg)) [0 ..< length (ts_clients s)] = []"
  proof (cases "find (\<lambda>j. \<not> sends_ok os j (length msg)) [0 ..< length (ts_clients s)]")
    case None
    then have "filter (\<lambda>j. \<not> sends_ok os j (length msg)) [0 ..< length (ts_clients s)] = []"
      by (simp add: find_None_iff filter_empty_conv)
    then show ?thesis unfolding eq None by simp
  next
    case (Some j)
    then have "\<not> sends_ok os j (length msg)" "j \<in> set [0 ..< length (ts_clients s)]"
      unfolding find_Some_iff by auto
    then show ?thesis unfolding eq Some by (auto simp: filter_empty_conv sends_ok_def)
  qed
qed

text \<open>
  An observer that listens to every address (\<open>wantedIp\<close> empty) gets the messages of every
  client, and the disconnection of none.\<close>

theorem any_ip_observer_misses_disconnections:
  assumes "c_ip c \<noteq> []" "so_wantedIp ob = []"
  shows "publishClientDisconnected (subscribe ob s) c = publishClientDisconnected s c \<and>
         publishClientMsg (subscribe ob s) c msg =
           publishClientMsg s c msg @
           (case so_incoming ob of None \<Rightarrow> [] | Some f \<Rightarrow> [Call_message f c msg])"
  using assms by (simp add: disconnection_publisher.publish_subscribe
      message_publisher.publish_subscribe notify_message_def notify_disconnected_def)

subsection \<open>A concrete server\<close>

text \<open>Two clients, accepted into the reserved buffer of ten, and the same with a full buffer.\<close>

definition demo_client_a :: client where
  "demo_client_a = \<lparr>c_sockfd = 5, c_ip = lit ''10.0.0.1'', c_errorMsg = [],
     c_isConnected = Some True, c_threadHandler = Some 0\<rparr>"

definition demo_client_b :: client where
  "demo_client_b = \<lparr>c_sockfd = 6, c_ip = lit ''10.0.0.2'', c_errorMsg = [],
     c_isConnected = Some True, c_threadHandler = Some 1\<rparr>"

definition demo_server :: "nat \<Rightarrow> tcp_server" where
  "demo_server cap = \<lparr>ts_sockfd = 4, ts_clients = [demo_client_a, demo_client_b],
     ts_capacity = cap, ts_generation = 1, ts_subscribers = [], ts_live = {0, 1}, ts_next = 2\<rparr>"

definition demo_accept :: accept_env where
  "demo_accept = \<lparr>ae_select = 0, ae_isset = False, ae_accept = 5, ae_ip = lit ''10.0.0.1'',
     ae_error = [], ae_unset = False\<rparr>"

definition demo_start :: start_env where
  "demo_start = \<lparr>se_socket = 4, se_bind = 0, se_listen = 0, se_error = []\<rparr>"

lemmas demo_server_defs = demo_server_def demo_client_a_def demo_client_b_def client_key_def
  client_eq_def lit_def

lemma wf_demo: "2 \<le> cap \<Longrightarrow> wf_server (demo_server cap)"
  by (simp add: wf_server_def demo_server_defs)

lemma find_demo_a: "find_client demo_client_a (ts_clients (demo_server 10)) = Some 0"
  by (simp add: demo_server_defs)

lemma demo_keys:
  "client_key demo_client_a \<noteq> client_key demo_client_b"
  "map client_key (ts_clients (demo_server cap)) = [client_key demo_client_a, client_key demo_client_b]"
  by (simp_all add: demo_server_defs)

lemma delete_demo_a:
  "deleteClient demo_client_a (demo_server 10)
   = Inr (True, (demo_server 10)\<lparr>ts_clients := [demo_client_b], ts_live := {0}\<rparr>)"
  using erase_ok [OF wf_demo, of 10 0] find_demo_a
  by (simp add: deleteClient_def) (simp add: demo_server_defs insert_Diff_if)

lemma deleteClient_refines_remove1_witness:
  "\<exists>s'. deleteClient demo_client_a (demo_server 10) = Inr (True, s') \<and>
        map client_key (ts_clients s') = [client_key demo_client_b]"
  using deleteClient_refines_remove1 [OF wf_demo, of 10 demo_client_a] by (simp add: demo_keys)

lemma second_delete_after_shift_fails_witness:
  "deleteClient demo_client_b ((demo_server 10)\<lparr>ts_clients := [demo_client_b], ts_live := {0}\<rparr>)
   = Inl Use_after_free"
  by (rule second_delete_after_shift_fails [OF wf_demo find_demo_a _ _ delete_demo_a, of 1])
    (simp_all add: demo_server_def demo_client_b_def)

lemma demo_departure:
  "\<exists>effs s'. receive_reply (1, 0) Peer_closed (demo_server 10) = Inr (effs, False, s')"
  by (simp add: receive_reply_def deref_def Let_def store_def deleteClient_def erase_def
      destroy_client_def) (simp add: demo_server_defs erase_def destroy_client_def)

lemma departure_dangles_last_task_witness:
  "\<exists>effs s'. receive_reply (1, 0) Peer_closed (demo_server 10) = Inr (effs, False, s') \<and>
             receive_reply (1, 1) (Received [1]) s' = Inl Use_after_free"
proof -
  obtain effs s' where "receive_reply (1, 0) Peer_closed (demo_server 10) = Inr (effs, False, s')"
    using demo_departure by blast
  then show ?thesis
    using departure_dangles_last_task [of "(1, 0)" Peer_closed "demo_server 10" effs s' "(1, 1)" "Received [1]"]
    by (simp add: demo_server_def)
qed

lemma kill_dangles_last_task_witness:
  "\<exists>c' effs s'. killClient demo_client_b (demo_server 10) = Inr (c', effs, s') \<and>
                receive_reply (1, 1) (Received [1]) s' = Inl Use_after_free"
proof -
  obtain b s' where "deleteClient (demo_client_b\<lparr>c_isConnected := Some False\<rparr>) (demo_server 10) = Inr (b, s')"
    using deleteClient_ok [OF wf_demo, of 10 "demo_client_b\<lparr>c_isConnected := Some False\<rparr>"] by auto
  then obtain c' effs where k: "killClient demo_client_b (demo_server 10) = Inr (c', effs, s')"
    by (auto simp: killClient_def Let_def)
  from kill_dangles_last_task [OF k, of "Received [1]"] k show ?thesis
    by (auto simp: demo_keys) (auto simp: demo_server_def)
qed

lemma accept_beyond_capacity_dangles_witness:
  "\<exists>c s'. acceptClient (\<lambda>n. 2 * n) 0 demo_accept (demo_server 2) = Inr (c, s') \<and>
          receive_reply (1, 0) (Received [1]) s' = Inl Use_after_free"
proof -
  have l: "length (ts_clients (demo_server 2)) = ts_capacity (demo_server 2)"
    "ae_accept demo_accept \<noteq> -1"
    by (simp_all add: demo_server_def demo_accept_def)
  then obtain c s' where a: "acceptClient (\<lambda>n. 2 * n) 0 demo_accept (demo_server 2) = Inr (c, s')"
    using push_back_full [OF wf_demo l(1)]
    by (auto simp: acceptClient_def Let_def back_ptr_def setThreadHandler_def deref_def)
  from accept_beyond_capacity_dangles [OF wf_demo l a, of "(1, 0)" "Received [1]"] a show ?thesis
    by (simp add: demo_server_def)
qed

lemma any_ip_observer_misses_disconnections_witness:
  "publishClientDisconnected (subscribe \<lparr>so_wantedIp = [], so_incoming = Some 1, so_disconnected = Some 2\<rparr>
     (demo_server 10)) demo_client_a = [] \<and>
   publishClientMsg (subscribe \<lparr>so_wantedIp = [], so_incoming = Some 1, so_disconnected = Some 2\<rparr>
     (demo_server 10)) demo_client_a [7] = [Call_message 1 demo_client_a [7]]"
  using any_ip_observer_misses_disconnections
    [of demo_client_a "\<lparr>so_wantedIp = [], so_incoming = Some 1, so_disconnected = Some 2\<rparr>"
        "demo_server 10" "[7]"]
  by (simp add: demo_client_a_def lit_def) (simp add: demo_server_def publishClientDisconnected_def
      publishClientMsg_def)

end
