(* ===== verification/ServerThreads.thy ===== *)
theory ServerThreads
  imports Runs TcpServer
begin

section \<open>tcp_server.cpp: accepts, receive threads and kills, interleaved\<close>

text \<open>
  The TCP server with its receive threads as a step relation: what every step keeps of the table of
  clients, and the schedules on which no step fails.
\<close>

subsection \<open>Accepting, receiving and leaving, interleaved\<close>

text \<open>
  The receive threads of the server: one that has not run yet, one that is blocked in \<open>recv\<close> and
  holds its pointer, one that returned. A step is an accepted client, the start of a thread, an
  answer of its \<open>recv\<close>, or a \<open>killClient\<close> from outside. A step can end in an error.
\<close>

datatype task = Starting | Waiting client_ptr | Finished

datatype server_event =
    Ev_accept accept_env
  | Ev_start nat
  | Ev_reply nat recv_reply
  | Ev_kill client

type_synonym net_config = "tcp_server \<times> task list"

definition resume :: "client_ptr \<Rightarrow> nat \<Rightarrow> tcp_server \<Rightarrow> task list \<Rightarrow> net_config result" where
  "resume p i s ts =
     rbind (receive_test p s) (\<lambda>b. Inr (s, ts[i := if b then Waiting p else Finished]))"

inductive server_step ::
  "(nat \<Rightarrow> nat) \<Rightarrow> net_config \<Rightarrow> server_event \<Rightarrow> (server_effect list \<times> net_config) result \<Rightarrow> bool"
  for grow where
  accept: "server_step grow (s, ts) (Ev_accept env)
     (rbind (acceptClient grow 0 env s) (\<lambda>(c, s').
      Inr ([], s', if ae_accept env = -1 then ts else ts @ [Starting])))"
| start: "i < length ts \<Longrightarrow> ts ! i = Starting \<Longrightarrow>
    server_step grow (s, ts) (Ev_start i)
     (rbind (back_ptr s) (\<lambda>p. rbind (resume p i s ts) (\<lambda>cfg. Inr ([], cfg))))"
| reply: "i < length ts \<Longrightarrow> ts ! i = Waiting p \<Longrightarrow> recv_ok r \<Longrightarrow>
    server_step grow (s, ts) (Ev_reply i r)
     (rbind (receive_reply p r s) (\<lambda>(effs, more, s').
      if more then rbind (resume p i s' ts) (\<lambda>cfg. Inr (effs, cfg))
      else Inr (effs, s', ts[i := Finished])))"
| kill: "server_step grow (s, ts) (Ev_kill c)
     (rbind (killClient c s) (\<lambda>(c, effs, s'). Inr (effs, s', ts)))"

inductive_cases server_step_acceptE: "server_step grow (s, ts) (Ev_accept env) r"
inductive_cases server_step_startE: "server_step grow (s, ts) (Ev_start i) r"
inductive_cases server_step_replyE: "server_step grow (s, ts) (Ev_reply i r) r'"
inductive_cases server_step_killE: "server_step grow (s, ts) (Ev_kill c) r"

text \<open>
  The schedules the code is safe on: accepts leave room in the buffer, wait for the last thread to
  have started and bring a descriptor not in the table, clients leave in the reverse order of their
  arrival, and nobody is killed.
\<close>

fun lifo :: "net_config \<Rightarrow> server_event \<Rightarrow> bool" where
  "lifo (s, ts) (Ev_accept env) =
     (length (ts_clients s) < ts_capacity s \<and> Starting \<notin> set ts \<and>
      (ae_accept env, ae_ip env) \<notin> set (server_keys s))"
| "lifo (s, ts) (Ev_start i) = True"
| "lifo (s, ts) (Ev_reply i (Received msg)) = True"
| "lifo (s, ts) (Ev_reply i _) = (ts ! i = Waiting (ts_generation s, length (ts_clients s) - 1))"
| "lifo (s, ts) (Ev_kill c) = False"

inductive lifo_reach :: "(nat \<Rightarrow> nat) \<Rightarrow> net_config \<Rightarrow> bool" for grow where
  init: "start env TcpServer_new = Inr (ret, s) \<Longrightarrow> lifo_reach grow (s, [])"
| step: "lifo_reach grow cfg \<Longrightarrow> lifo cfg ev \<Longrightarrow> server_step grow cfg ev (Inr (effs, cfg')) \<Longrightarrow>
    lifo_reach grow cfg'"

subsection \<open>Last in, first out is safe\<close>

definition task_inv :: "tcp_server \<Rightarrow> task list \<Rightarrow> bool" where
  "task_inv s ts \<longleftrightarrow>
     (\<forall>i p. i < length ts \<longrightarrow> ts ! i = Waiting p \<longrightarrow>
        fst p = ts_generation s \<and> snd p < length (ts_clients s) \<and>
        (Starting \<in> set ts \<longrightarrow> Suc (snd p) < length (ts_clients s))) \<and>
     (\<forall>i j p. i < length ts \<longrightarrow> j < length ts \<longrightarrow> ts ! i = Waiting p \<longrightarrow> ts ! j = Waiting p \<longrightarrow> i = j) \<and>
     (\<forall>i j. i < length ts \<longrightarrow> j < length ts \<longrightarrow> ts ! i = Starting \<longrightarrow> ts ! j = Starting \<longrightarrow> i = j) \<and>
     (Starting \<in> set ts \<longrightarrow> ts_clients s \<noteq> [])"

lemma task_invI:
  assumes "\<And>i p. i < length ts \<Longrightarrow> ts ! i = Waiting p \<Longrightarrow>
             fst p = ts_generation s \<and> snd p < length (ts_clients s) \<and>
             (Starting \<in> set ts \<longrightarrow> Suc (snd p) < length (ts_clients s))"
    and "\<And>i j p. i < length ts \<Longrightarrow> j < length ts \<Longrightarrow> ts ! i = Waiting p \<Longrightarrow> ts ! j = Waiting p \<Longrightarrow> i = j"
    and "\<And>i j. i < length ts \<Longrightarrow> j < length ts \<Longrightarrow> ts ! i = Starting \<Longrightarrow> ts ! j = Starting \<Longrightarrow> i = j"
    and "Starting \<in> set ts \<Longrightarrow> ts_clients s \<noteq> []"
  shows "task_inv s ts"
  unfolding task_inv_def using assms by blast

lemma task_invD:
  assumes "task_inv s ts"
  shows "i < length ts \<Longrightarrow> ts ! i = Waiting p \<Longrightarrow>
           fst p = ts_generation s \<and> snd p < length (ts_clients s)"
    and "i < length ts \<Longrightarrow> ts ! i = Waiting p \<Longrightarrow> Starting \<in> set ts \<Longrightarrow> Suc (snd p) < length (ts_clients s)"
    and "i < length ts \<Longrightarrow> j < length ts \<Longrightarrow> ts ! i = Waiting p \<Longrightarrow> ts ! j = Waiting p \<Longrightarrow> i = j"
    and "i < length ts \<Longrightarrow> j < length ts \<Longrightarrow> ts ! i = Starting \<Longrightarrow> ts ! j = Starting \<Longrightarrow> i = j"
    and "Starting \<in> set ts \<Longrightarrow> ts_clients s \<noteq> []"
  using assms unfolding task_inv_def by blast+

definition lifo_inv :: "net_config \<Rightarrow> bool" where
  "lifo_inv cfg \<longleftrightarrow>
     wf_server (fst cfg) \<and> distinct (server_keys (fst cfg)) \<and>
     (\<forall>c \<in> set (ts_clients (fst cfg)). c_isConnected c = Some True) \<and> task_inv (fst cfg) (snd cfg)"

lemma lifo_inv_deref:
  assumes "lifo_inv (s, ts)" "i < length ts" "ts ! i = Waiting p"
  shows "deref p s = Inr (ts_clients s ! snd p)" and "receive_test p s = Inr True"
proof -
  have p: "fst p = ts_generation s" "snd p < length (ts_clients s)"
    using assms task_invD(1) [of s ts i p] by (simp_all add: lifo_inv_def)
  then show d: "deref p s = Inr (ts_clients s ! snd p)" by (simp add: deref_def)
  have "c_isConnected (ts_clients s ! snd p) = Some True"
    using assms(1) p(2) by (simp add: lifo_inv_def)
  then show "receive_test p s = Inr True" using d by (simp add: receive_test_def isConnected_def)
qed

text \<open>Accepting a client while the buffer has room.\<close>

definition accepted :: "accept_env \<Rightarrow> client" where
  "accepted env = Client_new\<lparr>c_sockfd := ae_accept env, c_isConnected := Some True, c_ip := ae_ip env\<rparr>"

lemma acceptClient_room:
  assumes wf: "wf_server s" and room: "length (ts_clients s) < ts_capacity s"
    and fd: "ae_accept env \<noteq> -1"
  shows "\<exists>s'. acceptClient grow 0 env s = Inr (accepted env, s') \<and> wf_server s' \<and>
           ts_generation s' = ts_generation s \<and>
           ts_clients s' = ts_clients s @ [(accepted env)\<lparr>c_threadHandler := Some (ts_next s)\<rparr>] \<and>
           server_keys s' = server_keys s @ [(ae_accept env, ae_ip env)]"
proof -
  let ?s = "s\<lparr>ts_clients := ts_clients s @ [(accepted env)\<lparr>c_threadHandler := Some (ts_next s)\<rparr>],
              ts_live := insert (ts_next s) (ts_live s), ts_next := Suc (ts_next s)\<rparr>"
  have "push_back grow (accepted env) s = Inr (s\<lparr>ts_clients := ts_clients s @ [accepted env]\<rparr>)"
    using wf_push_back(1) [OF wf room] by (simp add: Client_new_def accepted_def)
  then have "acceptClient grow 0 env s = Inr (accepted env, ?s)"
    using fd by (simp add: acceptClient_def Let_def back_ptr_def setThreadHandler_def deref_def
        store_def accepted_def)
  moreover have "ts_next s \<notin> set (handles (ts_clients s))" using wf by (auto simp: wf_server_def)
  then have "wf_server ?s" using wf room by (auto simp: wf_server_def less_Suc_eq)
  ultimately show ?thesis by (auto simp: server_keys_def client_key_def accepted_def)
qed

lemma lifo_accept:
  assumes inv: "lifo_inv (s, ts)" and room: "length (ts_clients s) < ts_capacity s"
    and none: "Starting \<notin> set ts" and fresh: "(ae_accept env, ae_ip env) \<notin> set (server_keys s)"
    and fd: "ae_accept env \<noteq> -1"
  shows "\<exists>c s'. acceptClient grow 0 env s = Inr (c, s') \<and> lifo_inv (s', ts @ [Starting])"
proof -
  have old: "task_inv s ts" and wf: "wf_server s" using inv by (simp_all add: lifo_inv_def)
  obtain s' where s': "acceptClient grow 0 env s = Inr (accepted env, s')" "wf_server s'"
      "ts_generation s' = ts_generation s"
      "ts_clients s' = ts_clients s @ [(accepted env)\<lparr>c_threadHandler := Some (ts_next s)\<rparr>]"
      "server_keys s' = server_keys s @ [(ae_accept env, ae_ip env)]"
    using acceptClient_room [OF wf room fd] by blast
  have no: "ts ! i \<noteq> Starting" if "i < length ts" for i using none that by (metis nth_mem)
  have "task_inv s' (ts @ [Starting])"
  proof (rule task_invI)
    show "i = j" if "i < length (ts @ [Starting])" "j < length (ts @ [Starting])"
      "(ts @ [Starting]) ! i = Waiting p" "(ts @ [Starting]) ! j = Waiting p" for i j p
      using that task_invD(3) [OF old] by (auto simp: nth_append split: if_splits)
    show "i = j" if "i < length (ts @ [Starting])" "j < length (ts @ [Starting])"
      "(ts @ [Starting]) ! i = Starting" "(ts @ [Starting]) ! j = Starting" for i j
      using that no by (auto simp: nth_append less_Suc_eq split: if_splits)
    show "fst p = ts_generation s' \<and> snd p < length (ts_clients s') \<and>
          (Starting \<in> set (ts @ [Starting]) \<longrightarrow> Suc (snd p) < length (ts_clients s'))"
      if "i < length (ts @ [Starting])" "(ts @ [Starting]) ! i = Waiting p" for i p
      using that task_invD(1) [OF old, of i p] s' by (auto simp: nth_append split: if_splits)
  qed (simp add: s'(4))
  then show ?thesis using s' inv fresh by (auto simp: lifo_inv_def accepted_def)
qed

lemma lifo_start:
  assumes inv: "lifo_inv (s, ts)" and i: "i < length ts" "ts ! i = Starting"
  defines "p \<equiv> (ts_generation s, length (ts_clients s) - 1)"
  shows "back_ptr s = Inr p \<and> resume p i s ts = Inr (s, ts[i := Waiting p]) \<and>
         lifo_inv (s, ts[i := Waiting p])"
proof -
  have old: "task_inv s ts" using inv by (simp add: lifo_inv_def)
  have st: "Starting \<in> set ts" using i by (metis nth_mem)
  have ne: "ts_clients s \<noteq> []" using task_invD(5) [OF old st] .
  have gone: "Starting \<notin> set (ts[i := Waiting p])"
    using i task_invD(4) [OF old] by (auto simp: in_set_conv_nth nth_list_update split: if_splits)
  have below: "q \<noteq> p" if "j < length ts" "ts ! j = Waiting q" for j q
    using task_invD(2) [OF old that st] by (auto simp: p_def)
  have "task_inv s (ts[i := Waiting p])"
  proof (rule task_invI)
    fix j q assume "j < length (ts[i := Waiting p])" "ts[i := Waiting p] ! j = Waiting q"
    then show "fst q = ts_generation s \<and> snd q < length (ts_clients s) \<and>
          (Starting \<in> set (ts[i := Waiting p]) \<longrightarrow> Suc (snd q) < length (ts_clients s))"
      using gone ne task_invD(1) [OF old, of j q] by (cases "j = i") (auto simp: p_def)
  next
    fix j k q
    assume "j < length (ts[i := Waiting p])" "k < length (ts[i := Waiting p])"
      "ts[i := Waiting p] ! j = Waiting q" "ts[i := Waiting p] ! k = Waiting q"
    then show "j = k"
      using task_invD(3) [OF old, of j k q] below [of j q] below [of k q] i
      by (auto simp: nth_list_update split: if_splits)
  next
    fix j k
    assume "j < length (ts[i := Waiting p])" "ts[i := Waiting p] ! j = Starting"
    then show "j = k" using gone by (metis nth_mem)
  qed (use ne in simp)
  moreover have "receive_test p s = Inr True"
    using ne inv by (auto simp: receive_test_def deref_def p_def isConnected_def lifo_inv_def)
  ultimately show ?thesis using inv ne by (simp add: lifo_inv_def back_ptr_def p_def resume_def)
qed

lemma lifo_message:
  assumes "lifo_inv (s, ts)" "i < length ts" "ts ! i = Waiting p"
  shows "receive_reply p (Received msg) s = Inr (publishClientMsg s (ts_clients s ! snd p) msg, True, s)"
    and "resume p i s ts = Inr (s, ts)"
  using lifo_inv_deref [OF assms] assms(3)
  by (simp_all add: receive_reply_def resume_def) (metis list_update_id)

lemma client_key_simps [simp]:
  "client_key (c\<lparr>c_isConnected := b\<rparr>) = client_key c"
  "client_key (c\<lparr>c_errorMsg := e\<rparr>) = client_key c"
  by (simp_all add: client_key_def)

lemma delete_last:
  assumes wf: "wf_server s" and d: "distinct (server_keys s)" and ne: "ts_clients s \<noteq> []"
    and k: "client_key c = client_key (last (ts_clients s))"
  shows "\<exists>s'. deleteClient c s = Inr (True, s') \<and> wf_server s' \<and>
              ts_clients s' = butlast (ts_clients s) \<and> ts_generation s' = ts_generation s"
proof -
  have "find_client c (ts_clients s) = Some (length (ts_clients s) - 1)"
    using d ne k by (intro find_client_nth) (auto simp: server_keys_def last_conv_nth)
  then show ?thesis
    using erase_ok [OF wf, of "length (ts_clients s) - 1"] wf_erase_last [OF wf ne] remove_last [OF ne] ne
    by (auto simp: deleteClient_def)
qed

lemma lifo_leave:
  assumes inv: "lifo_inv (s, ts)" and i: "i < length ts" "ts ! i = Waiting p"
    and p: "p = (ts_generation s, length (ts_clients s) - 1)" and r: "\<nexists>msg. r = Received msg"
  shows "\<exists>effs s'. receive_reply p r s = Inr (effs, False, s') \<and> lifo_inv (s', ts[i := Finished])"
proof -
  let ?n = "length (ts_clients s) - 1"
  define c where "c = (ts_clients s ! ?n)\<lparr>c_isConnected := Some False,
    c_errorMsg := (case r of Recv_failed err \<Rightarrow> err | _ \<Rightarrow> lit ''Client closed connection'')\<rparr>"
  define s1 where "s1 = store p c s"
  have old: "task_inv s ts" using inv by (simp add: lifo_inv_def)
  have n: "?n < length (ts_clients s)" using task_invD(1) [OF old i] p by simp
  then have ne: "ts_clients s1 \<noteq> []" "ts_clients s \<noteq> []"
    unfolding s1_def by (auto simp: store_def)
  have no: "Starting \<notin> set ts" using task_invD(2) [OF old i] p by fastforce
  have cl: "ts_clients s1 = (ts_clients s)[?n := c]" by (simp add: s1_def store_def p)
  have keys: "server_keys s1 = server_keys s"
    by (simp add: server_keys_def cl map_update c_def) (metis list_update_id map_update)
  have wf: "wf_server s1"
    using inv n by (simp add: lifo_inv_def wf_server_def s1_def store_def p handles_store c_def)
  have bl: "butlast (ts_clients s1) = butlast (ts_clients s)" unfolding cl by (simp add: butlast_list_update)
  have l: "client_key c = client_key (last (ts_clients s1))"
    unfolding cl using ne(2) by (simp add: last_list_update)
  have ds: "distinct (server_keys s1)" using inv keys by (simp add: lifo_inv_def)
  have g: "ts_generation s1 = ts_generation s" by (simp add: s1_def)
  obtain s' where d: "deleteClient c s1 = Inr (True, s')" and s': "wf_server s'"
      "ts_clients s' = butlast (ts_clients s)" "ts_generation s' = ts_generation s"
    using delete_last [OF wf ds ne(1) l] bl g by auto
  have "receive_reply p r s = Inr (Close_fd (c_sockfd c) # publishClientDisconnected s1 c, False, s')"
    using lifo_inv_deref(1) [OF inv i] d r
    by (cases r) (auto simp: receive_reply_def p c_def s1_def Let_def)
  moreover have "task_inv s' (ts[i := Finished])"
  proof (rule task_invI)
    have "j = i" if "j < length ts" "ts ! j = Waiting p" for j
      using task_invD(3) [OF old] that i by blast
    then have "snd q < length (ts_clients s) - 1"
      if "j < length ts" "ts ! j = Waiting q" "j \<noteq> i" for j q
      using task_invD(1) [OF old that(1,2)] that p by (cases q) fastforce
    then show "fst q = ts_generation s' \<and> snd q < length (ts_clients s') \<and>
        (Starting \<in> set (ts[i := Finished]) \<longrightarrow> Suc (snd q) < length (ts_clients s'))"
      if "j < length (ts[i := Finished])" "ts[i := Finished] ! j = Waiting q" for j q
      using that task_invD(1) [OF old, of j q] no s'
      by (cases "j = i") (auto dest: set_update_subset_insert [THEN subsetD])
    show "j = k" if "j < length (ts[i := Finished])" "k < length (ts[i := Finished])"
      "ts[i := Finished] ! j = Waiting q" "ts[i := Finished] ! k = Waiting q" for j k q
      using that task_invD(3) [OF old, of j k q] i(1) by (auto simp: nth_list_update split: if_splits)
    have gone: "Starting \<notin> set (ts[i := Finished])"
      using no by (auto dest: set_update_subset_insert [THEN subsetD])
    then show "j = k" if "j < length (ts[i := Finished])" "ts[i := Finished] ! j = Starting" for j k
      using that by (metis nth_mem)
    show "ts_clients s' \<noteq> []" if "Starting \<in> set (ts[i := Finished])" using that gone by simp
  qed
  ultimately show ?thesis using inv s'
    by (auto simp: lifo_inv_def server_keys_def map_butlast distinct_butlast
        dest: in_set_butlastD)
qed

lemma lifo_step:
  assumes "lifo_inv (s, ts)" "lifo (s, ts) ev" "server_step grow (s, ts) ev r"
  shows "\<exists>effs cfg'. r = Inr (effs, cfg') \<and> lifo_inv cfg'"
proof (cases ev)
  case (Ev_accept env)
  with assms(3) have r: "r = rbind (acceptClient grow 0 env s) (\<lambda>(c, s').
      Inr ([], s', if ae_accept env = -1 then ts else ts @ [Starting]))"
    by (auto elim: server_step_acceptE)
  show ?thesis
  proof (cases "ae_accept env = -1")
    case True
    then show ?thesis using assms(1) r by (simp add: acceptClient_def Let_def)
  next
    case False
    then show ?thesis using assms(1,2) Ev_accept lifo_accept [of s ts env grow] r by auto
  qed
next
  case (Ev_start i)
  with assms(3) show ?thesis using lifo_start [OF assms(1)] by (auto elim!: server_step_startE)
next
  case (Ev_reply i rep)
  with assms(3) obtain p where i: "i < length ts" "ts ! i = Waiting p"
    and r: "r = rbind (receive_reply p rep s) (\<lambda>(effs, more, s').
      if more then rbind (resume p i s' ts) (\<lambda>cfg. Inr (effs, cfg))
      else Inr (effs, s', ts[i := Finished]))"
    by (auto elim!: server_step_replyE)
  show ?thesis
  proof (cases "\<exists>msg. rep = Received msg")
    case True
    then show ?thesis using lifo_message [OF assms(1) i] r assms(1) by auto
  next
    case False
    then have "p = (ts_generation s, length (ts_clients s) - 1)"
      using assms(2) Ev_reply i by (cases rep) auto
    then show ?thesis using lifo_leave [OF assms(1) i _ False] r by auto
  qed
next
  case (Ev_kill c)
  then show ?thesis using assms(2) by simp
qed

lemma start_new:
  "start env TcpServer_new = Inr (ret, s) \<Longrightarrow>
   wf_server s \<and> ts_clients s = [] \<and> ts_capacity s = 10 \<and> ts_generation s = 1"
  by (auto simp: start_def reserve_def reallocate_def TcpServer_new_def Let_def wf_server_def
      split: if_splits)

lemma lifo_reach_inv: "lifo_reach grow cfg \<Longrightarrow> lifo_inv cfg"
proof (induction rule: lifo_reach.induct)
  case (init env ret s)
  then show ?case using start_new [OF init] by (simp add: lifo_inv_def server_keys_def task_inv_def)
next
  case (step cfg ev effs cfg')
  then show ?case using lifo_step [of "fst cfg" "snd cfg" ev grow "Inr (effs, cfg')"] by auto
qed

text \<open>
  C4: on the schedules of \<open>lifo\<close> no step of the server fails: no receive thread follows a dangling
  pointer and no thread handle is deleted twice. On these a client is accepted only when the buffer
  has room, when no accepted client's thread has still to start, and with a descriptor and address
  that no client of the table has; the only client that leaves is the last one that arrived; and
  nobody calls \<open>killClient\<close>.\<close>

theorem lifo_schedules_are_safe:
  assumes "lifo_reach grow cfg" "lifo cfg ev" "server_step grow cfg ev r"
  shows "\<exists>effs cfg'. r = Inr (effs, cfg') \<and> wf_server (fst cfg')"
  using lifo_step [of "fst cfg" "snd cfg" ev grow r] lifo_reach_inv [OF assms(1)] assms(2,3)
  by (auto simp: lifo_inv_def)

subsection \<open>What every step keeps of the table\<close>

text \<open>
  The steps that do not fail, the start of the server and the entry of an observer, as a relation of the
  theory Runs. On every
  schedule, safe or not, the clients of the table are those whose flag was set, and no thread holds a
  pointer into a buffer that is yet to come.
\<close>

datatype server_move = Begin_server start_env | Observe server_observer | Move server_event

definition server_next :: "(nat \<Rightarrow> nat) \<Rightarrow> net_config \<Rightarrow> server_move \<Rightarrow> net_config \<Rightarrow> bool" where
  "server_next grow cfg mv cfg' \<longleftrightarrow>
     (case mv of
        Begin_server env \<Rightarrow> (\<exists>ret. start env (fst cfg) = Inr (ret, fst cfg')) \<and> snd cfg' = snd cfg
      | Observe ob \<Rightarrow> cfg' = (subscribe ob (fst cfg), snd cfg)
      | Move ev \<Rightarrow> (\<exists>effs. server_step grow cfg ev (Inr (effs, cfg'))))"

definition table_ok :: "net_config \<Rightarrow> bool" where
  "table_ok cfg \<longleftrightarrow>
     (\<forall>c \<in> set (ts_clients (fst cfg)). c_isConnected c \<noteq> None) \<and>
     (\<forall>p. Waiting p \<in> set (snd cfg) \<longrightarrow> fst p \<le> ts_generation (fst cfg))"

lemma table_okI:
  assumes "\<And>c. c \<in> set (ts_clients s') \<Longrightarrow> c_isConnected c \<noteq> None \<or> c \<in> set (ts_clients s)"
    and "\<And>p. Waiting p \<in> set ts' \<Longrightarrow> Waiting p \<in> set ts \<or> fst p \<le> ts_generation s"
    and "ts_generation s \<le> ts_generation s'" and "table_ok (s, ts)"
  shows "table_ok (s', ts')"
  using assms unfolding table_ok_def by fastforce

lemma reallocate_table:
  "reallocate n s = Inr s' \<Longrightarrow> ts_clients s' = ts_clients s \<and> ts_generation s' = Suc (ts_generation s)"
  by (auto simp: reallocate_def)

lemma deleteClient_subset: "deleteClient c s = Inr (b, s') \<Longrightarrow> set (ts_clients s') \<subseteq> set (ts_clients s)"
  by (auto simp: deleteClient_def erase_def split: option.splits dest: in_set_takeD in_set_dropD)

lemma set_store: "c' \<in> set (ts_clients (store p c s)) \<Longrightarrow> c' = c \<or> c' \<in> set (ts_clients s)"
  by (auto simp: store_def dest: set_update_subset_insert [THEN subsetD])

lemma start_table:
  "start env s = Inr (ret, s') \<Longrightarrow> ts_clients s' = ts_clients s \<and> ts_generation s \<le> ts_generation s'"
  by (auto simp: start_def reserve_def Let_def dest!: reallocate_table split: if_splits)

lemma accept_table:
  assumes "acceptClient grow 0 env s = Inr (c, s')"
  shows "ts_generation s \<le> ts_generation s' \<and> (\<forall>c \<in> set (ts_clients s'). c_isConnected c \<noteq> None \<or> c \<in> set (ts_clients s))"
proof (cases "ae_accept env = -1")
  case False
  obtain s1 s2 where s1: "ts_clients s1 = ts_clients s" "ts_generation s \<le> ts_generation s1"
    and s2: "s2 = s1\<lparr>ts_clients := ts_clients s1 @ [accepted env]\<rparr>"
    and s': "setThreadHandler (ts_generation s2, length (ts_clients s2) - 1) s2 = Inr s'"
    using assms False
    by (auto simp: acceptClient_def Let_def push_back_def accepted_def back_ptr_def
        dest: reallocate_table split: if_splits)
  have "c_isConnected (accepted env) = Some True" by (simp add: accepted_def)
  then show ?thesis using s' s1 s2
    by (auto simp: setThreadHandler_def deref_def nth_append ex_bool_eq dest!: set_store)
qed (use assms in \<open>simp add: acceptClient_def Let_def\<close>)

lemma reply_table:
  assumes "receive_reply p r s = Inr (effs, goes, s')"
  shows "ts_generation s' = ts_generation s \<and>
         (\<forall>c \<in> set (ts_clients s'). c_isConnected c \<noteq> None \<or> c \<in> set (ts_clients s))"
proof (cases "\<exists>msg. r = Received msg")
  case False
  obtain d where d: "deref p s = Inr d" using assms by (auto simp: receive_reply_def)
  define c where "c = d\<lparr>c_isConnected := Some False,
    c_errorMsg := (case r of Recv_failed err \<Rightarrow> err | _ \<Rightarrow> lit ''Client closed connection'')\<rparr>"
  obtain b where "deleteClient c (store p c s) = Inr (b, s')"
    using assms False d by (cases r) (auto simp: receive_reply_def Let_def c_def)
  moreover have "c_isConnected c = Some False" by (simp add: c_def)
  ultimately show ?thesis
    using deleteClient_subset deleteClient_other_fields set_store by (metis option.distinct(1) store_fields(1) subsetD)
qed (use assms in \<open>auto simp: receive_reply_def\<close>)

lemma resume_table:
  "resume p i s ts = Inr (s', ts') \<Longrightarrow> s' = s \<and> fst p = ts_generation s \<and> set ts' \<subseteq> set ts \<union> {Waiting p, Finished}"
  by (auto simp: resume_def receive_test_def deref_def split: if_splits
      dest: set_update_subset_insert [THEN subsetD])

lemma start_keeps_table: "start env s = Inr (ret, s') \<Longrightarrow> table_ok (s, ts) \<Longrightarrow> table_ok (s', ts)"
  using start_table [of env s ret s'] by (auto intro: table_okI)

lemma server_step_keeps_table:
  assumes "server_step grow (s, ts) ev (Inr (effs, s', ts'))" "table_ok (s, ts)"
  shows "table_ok (s', ts')"
  using assms(1)
proof cases
  case (accept env)
  then show ?thesis using accept_table [of grow env s] assms(2)
    by (auto elim!: Inr_rbindE intro!: table_okI [OF _ _ _ assms(2)] split: if_splits)
next
  case (start i)
  then show ?thesis using assms(2)
    by (auto elim!: Inr_rbindE dest!: resume_table intro!: table_okI [OF _ _ _ assms(2)])
next
  case (reply i p r)
  then obtain effs' goes s1 where r: "receive_reply p r s = Inr (effs', goes, s1)"
    and nxt: "(s', ts') = (s1, ts[i := Finished]) \<or> resume p i s1 ts = Inr (s', ts')"
    by (auto elim!: Inr_rbindE split: if_splits)
  show ?thesis
  proof (rule table_okI [OF _ _ _ assms(2)])
    show "c_isConnected c \<noteq> None \<or> c \<in> set (ts_clients s)" if "c \<in> set (ts_clients s')" for c
      using that nxt reply_table [OF r] by (auto dest!: resume_table)
    show "Waiting q \<in> set ts \<or> fst q \<le> ts_generation s" if "Waiting q \<in> set ts'" for q
      using that nxt reply_table [OF r]
      by (auto dest!: resume_table dest: set_update_subset_insert [THEN subsetD])
    show "ts_generation s \<le> ts_generation s'"
      using nxt reply_table [OF r] by (auto dest!: resume_table)
  qed
next
  case (kill c)
  then show ?thesis using deleteClient_subset deleteClient_other_fields
    by (fastforce simp: killClient_def Let_def elim!: Inr_rbindE intro!: table_okI [OF _ _ _ assms(2)])
qed

interpretation server: step_invariant "server_next grow" table_ok for grow
proof unfold_locales
  fix cfg mv cfg' assume ok: "table_ok cfg" and nxt: "server_next grow cfg mv cfg'"
  obtain s ts s' ts' where cfg: "cfg = (s, ts)" "cfg' = (s', ts')" by (cases cfg; cases cfg')
  show "table_ok cfg'"
  proof (cases mv)
    case (Begin_server env)
    then show ?thesis using nxt ok start_keeps_table unfolding cfg by (fastforce simp: server_next_def)
  next
    case (Observe ob)
    then show ?thesis using nxt ok by (simp add: server_next_def table_ok_def subscribe_def)
  next
    case (Move ev)
    then show ?thesis using nxt ok server_step_keeps_table unfolding cfg by (fastforce simp: server_next_def)
  qed
qed

lemma table_ok_new: "table_ok (TcpServer_new, [])"
  by (simp add: table_ok_def TcpServer_new_def)

text \<open>What a failing operation fails with.\<close>

lemma destroy_client_Inl: "destroy_client c live = Inl e \<Longrightarrow> e = Use_after_free"
  by (auto simp: destroy_client_def split: option.splits if_splits)

lemma destroy_clients_Inl: "destroy_clients cs live = Inl e \<Longrightarrow> e = Use_after_free"
  by (induction cs arbitrary: live) (auto simp: rbind_eq_Inl dest: destroy_client_Inl)

lemma reallocate_Inl: "reallocate n s = Inl e \<Longrightarrow> e = Use_after_free"
  by (auto simp: reallocate_def rbind_eq_Inl dest: destroy_clients_Inl)

lemma deref_Inl: "deref p s = Inl e \<Longrightarrow> e = Use_after_free"
  by (auto simp: deref_def split: if_splits)

lemma deleteClient_Inl: "deleteClient c s = Inl e \<Longrightarrow> e = Use_after_free"
  by (auto simp: deleteClient_def erase_def rbind_eq_Inl dest: destroy_client_Inl split: option.splits)

lemma killClient_Inl: "killClient c s = Inl e \<Longrightarrow> e = Use_after_free"
  by (auto simp: killClient_def Let_def rbind_eq_Inl dest: deleteClient_Inl)

lemma acceptClient_Inl: "acceptClient grow t env s = Inl e \<Longrightarrow> e = Use_after_free"
  by (auto simp: acceptClient_def Let_def rbind_eq_Inl push_back_def back_ptr_def setThreadHandler_def
      dest: reallocate_Inl deref_Inl split: if_splits)

lemma receive_reply_Inl: "receive_reply p r s = Inl e \<Longrightarrow> e = Use_after_free"
  by (auto simp: receive_reply_def Let_def rbind_eq_Inl dest: deref_Inl deleteClient_Inl
      split: recv_reply.splits)

lemma resume_Inl: "table_ok (s, ts) \<Longrightarrow> resume p i s ts' = Inl e \<Longrightarrow> e = Use_after_free"
  by (auto simp: resume_def receive_test_def rbind_eq_Inl deref_def isConnected_def table_ok_def
      split: option.splits if_splits) (metis nth_mem option.distinct(1))

text \<open>
  C20: on every schedule of accepts, receive threads and kills, the server that was started from its
  initial state fails only by the use of a destroyed object or by \<open>back\<close> on an empty vector when a
  receive thread starts; no thread ever reads a connection flag that was never set.\<close>

theorem server_fails_only_by_dangling:
  assumes "run (server_next grow) (TcpServer_new, []) mvs cfg" "server_step grow cfg ev (Inl e)"
  shows "e = Use_after_free \<or> e = Out_of_bounds \<and> ts_clients (fst cfg) = [] \<and> (\<exists>i. ev = Ev_start i)"
proof -
  have ok: "table_ok cfg" using server.inv_run [OF assms(1) table_ok_new] .
  show ?thesis
    using assms(2)
  proof cases
    case (accept s ts env)
    then show ?thesis by (auto simp: Inl_eq_rbind dest: acceptClient_Inl)
  next
    case (start i ts s)
    then show ?thesis using resume_Inl ok by (auto simp: Inl_eq_rbind rbind_eq_Inl back_ptr_def split: if_splits)
  next
    case (reply i ts p r s)
    then show ?thesis
    proof (cases "receive_reply p r s")
      case (Inr x)
      then obtain effs goes s1 where r: "receive_reply p r s = Inr (effs, goes, s1)" by (cases x) auto
      then have "resume p i s1 ts = Inl e" using reply by (auto simp: Inl_eq_rbind rbind_eq_Inl split: if_splits)
      moreover have "table_ok (s1, ts)"
        using reply_table [OF r] ok reply(1) by (auto simp: table_ok_def)
      ultimately show ?thesis using resume_Inl by blast
    qed (auto dest: receive_reply_Inl)
  next
    case (kill s c ts)
    then show ?thesis by (auto simp: Inl_eq_rbind dest: killClient_Inl)
  qed
qed

subsection \<open>A concrete schedule\<close>

lemma demo_start_new: "\<exists>ret s. start demo_start TcpServer_new = Inr (ret, s) \<and> ts_clients s = []"
  by (simp add: start_def reserve_def reallocate_def TcpServer_new_def demo_start_def Let_def)

text \<open>A receive thread starts after its client was killed.\<close>

lemma server_fails_only_by_dangling_witness:
  "\<exists>mvs cfg. run (server_next Suc) (TcpServer_new, []) mvs cfg \<and>
     server_step Suc cfg (Ev_start 0) (Inl Out_of_bounds) \<and> ts_clients (fst cfg) = []"
proof -
  obtain ret s where s: "start demo_start TcpServer_new = Inr (ret, s)" "ts_clients s = []"
    using demo_start_new by blast
  have wf: "wf_server s" "length (ts_clients s) < ts_capacity s" using start_new [OF s(1)] by simp_all
  obtain s1 where a: "acceptClient Suc 0 demo_accept s = Inr (accepted demo_accept, s1)" "wf_server s1"
      "server_keys s1 = server_keys s @ [(5, lit ''10.0.0.1'')]"
    using acceptClient_room [OF wf, of demo_accept Suc] by (auto simp: demo_accept_def)
  have k1: "server_keys s1 = [client_key demo_client_a]"
    using a(3) s(2) by (simp add: server_keys_def client_key_def demo_client_a_def)
  obtain c' effs s2 where k: "killClient demo_client_a s1 = Inr (c', effs, s2)"
    using deleteClient_ok [OF a(2), of "demo_client_a\<lparr>c_isConnected := Some False\<rparr>"]
    by (auto simp: killClient_def Let_def)
  have gone: "ts_clients s2 = []"
    using k vec.delete_keys [of "demo_client_a\<lparr>c_isConnected := Some False\<rparr>" s1 _ s2] k1
    by (auto simp: killClient_def Let_def server_keys_def)
  have "server_step Suc (s, []) (Ev_accept demo_accept) (Inr ([], s1, [Starting]))"
    using server_step.accept [of Suc s "[]" demo_accept] a(1) by (simp add: demo_accept_def)
  moreover have "server_step Suc (s1, [Starting]) (Ev_kill demo_client_a) (Inr (effs, s2, [Starting]))"
    using server_step.kill [of Suc s1 "[Starting]" demo_client_a] k by simp
  ultimately have r: "run (server_next Suc) (TcpServer_new, [])
      [Begin_server demo_start, Move (Ev_accept demo_accept), Move (Ev_kill demo_client_a)] (s2, [Starting])"
    using s(1) by (fastforce simp: run_Cons_iff server_next_def)
  have f: "server_step Suc (s2, [Starting]) (Ev_start 0) (Inl Out_of_bounds)"
    using server_step.start [of 0 "[Starting]" Suc s2] gone by (simp add: back_ptr_def)
  from server_fails_only_by_dangling [OF r f] r f gone show ?thesis by auto
qed

text \<open>
  Two clients are accepted, each after the thread of the one before it has started; the second one
  leaves.
\<close>

definition demo_table :: "client list \<Rightarrow> nat set \<Rightarrow> nat \<Rightarrow> tcp_server" where
  "demo_table cs live next = \<lparr>ts_sockfd = 4, ts_clients = cs, ts_capacity = 10, ts_generation = 1,
     ts_subscribers = [], ts_live = live, ts_next = next\<rparr>"

definition demo_accept_b :: accept_env where
  "demo_accept_b = demo_accept\<lparr>ae_accept := 6, ae_ip := lit ''10.0.0.2''\<rparr>"

lemma demo_table_accepts:
  "acceptClient Suc 0 demo_accept (demo_table [] {} 0) = Inr (accepted demo_accept, demo_table [demo_client_a] {0} 1)"
  "acceptClient Suc 0 demo_accept_b (demo_table [demo_client_a] {0} 1) =
     Inr (accepted demo_accept_b, demo_table [demo_client_a, demo_client_b] {0, 1} 2)"
  by (simp_all add: acceptClient_def Let_def push_back_def back_ptr_def setThreadHandler_def deref_def store_def
      demo_table_def demo_accept_def demo_accept_b_def accepted_def Client_new_def demo_client_a_def
      demo_client_b_def insert_commute)

lemma demo_lifo_reach:
  "lifo_reach Suc (demo_table [demo_client_a, demo_client_b] {0, 1} 2, [Waiting (1, 0), Waiting (1, 1)])"
proof -
  let ?a = "demo_table [demo_client_a] {0} 1" and ?b = "demo_table [demo_client_a, demo_client_b] {0, 1} 2"
  note defs = demo_table_def back_ptr_def resume_def receive_test_def deref_def isConnected_def
    demo_client_a_def demo_client_b_def
  obtain ret where "start demo_start TcpServer_new = Inr (ret, demo_table [] {} 0)"
    by (simp add: start_def reserve_def reallocate_def TcpServer_new_def demo_start_def Let_def demo_table_def)
  then have 0: "lifo_reach Suc (demo_table [] {} 0, [])" by (rule lifo_reach.init)
  have s1: "server_step Suc (demo_table [] {} 0, []) (Ev_accept demo_accept) (Inr ([], ?a, [Starting]))"
    using server_step.accept [of Suc "demo_table [] {} 0" "[]" demo_accept] demo_table_accepts(1)
    by (simp add: demo_accept_def)
  have 1: "lifo_reach Suc (?a, [Starting])"
    by (rule lifo_reach.step [OF 0 _ s1]) (simp add: demo_table_def server_keys_def)
  have s2: "server_step Suc (?a, [Starting]) (Ev_start 0) (Inr ([], ?a, [Waiting (1, 0)]))"
    using server_step.start [of 0 "[Starting]" Suc ?a] by (simp add: defs)
  have 2: "lifo_reach Suc (?a, [Waiting (1, 0)])" by (rule lifo_reach.step [OF 1 _ s2]) simp
  have s3: "server_step Suc (?a, [Waiting (1, 0)]) (Ev_accept demo_accept_b) (Inr ([], ?b, [Waiting (1, 0), Starting]))"
    using server_step.accept [of Suc ?a "[Waiting (1, 0)]" demo_accept_b] demo_table_accepts(2)
    by (simp add: demo_accept_b_def)
  have 3: "lifo_reach Suc (?b, [Waiting (1, 0), Starting])"
    by (rule lifo_reach.step [OF 2 _ s3])
      (simp add: demo_table_def server_keys_def client_key_def demo_client_a_def demo_accept_b_def)
  have s4: "server_step Suc (?b, [Waiting (1, 0), Starting]) (Ev_start 1) (Inr ([], ?b, [Waiting (1, 0), Waiting (1, 1)]))"
    using server_step.start [of 1 "[Waiting (1, 0), Starting]" Suc ?b] by (simp add: defs)
  show ?thesis by (rule lifo_reach.step [OF 3 _ s4]) simp
qed

lemma lifo_schedules_are_safe_witness:
  "\<exists>effs s. server_step Suc (demo_table [demo_client_a, demo_client_b] {0, 1} 2, [Waiting (1, 0), Waiting (1, 1)])
      (Ev_reply 1 Peer_closed) (Inr (effs, s, [Waiting (1, 0), Finished])) \<and> wf_server s"
proof -
  let ?b = "demo_table [demo_client_a, demo_client_b] {0, 1} 2" and ?ts = "[Waiting (1, 0), Waiting (1, 1)]"
  have l: "lifo (?b, ?ts) (Ev_reply 1 Peer_closed)" by (simp add: demo_table_def)
  have "1 < length ?ts" "?ts ! 1 = Waiting (1, 1)" "recv_ok Peer_closed" by simp_all
  note s = server_step.reply [OF this, of Suc ?b]
  let ?r = "rbind (receive_reply (1, 1) Peer_closed ?b) (\<lambda>(effs, more, s').
      if more then rbind (resume (1, 1) 1 s' ?ts) (\<lambda>cfg. Inr (effs, cfg)) else Inr (effs, s', ?ts[1 := Finished]))"
  obtain effs cfg where r: "?r = Inr (effs, cfg)" "wf_server (fst cfg)"
    using lifo_schedules_are_safe [OF demo_lifo_reach l s] by (elim exE conjE) (rule that)
  have "\<not> more" if "receive_reply (1, 1) Peer_closed ?b = Inr (e, more, s')" for e more s'
    using that by (auto simp: receive_reply_def Let_def)
  then have "snd cfg = [Waiting (1, 0), Finished]" using r(1) by (fastforce elim!: Inr_rbindE)
  then have "cfg = (fst cfg, [Waiting (1, 0), Finished])" by (cases cfg) simp
  then show ?thesis using s r by (intro exI [of _ effs] exI [of _ "fst cfg"]) simp
qed

end
