(* ===== verification/NodeServer.thy ===== *)
theory NodeServer
  imports Mining ServerThreads
begin

section \<open>server.cpp: the server side of a node\<close>

text \<open>
  The global \<open>NServer\<close>: its TCP server, the clients by address, and the heartbeats received since
  the last round. The functions its observer points at are run on the calls the TCP server makes.
  The three endless loops are modelled by one round each.
\<close>

subsection \<open>State and effects\<close>

record node_server =
  ns_tserver :: tcp_server
  ns_messages :: "packet list"
  ns_connected :: "(bytes, client) ordmap"
  ns_heartbeats :: "(bytes, bool) ordmap"

definition NServer_new :: node_server where
  "NServer_new = \<lparr>ns_tserver = TcpServer_new, ns_messages = [], ns_connected = [],
                  ns_heartbeats = []\<rparr>"

definition SERVER_PORT :: nat where "SERVER_PORT = 8080"

definition KEEP_ALIVE_TIME :: nat where "KEEP_ALIVE_TIME = 10"

text \<open>
  What a node does to the outside: calls of the TCP layer, lines on its output, and requests to its
  own client side to connect to an address.
\<close>

datatype node_effect =
    Tcp server_effect
  | Out bytes
  | Connect_to bytes

text \<open>The addresses of the two functions the observer points at.\<close>

definition fn_ReceiveMessage :: nat where "fn_ReceiveMessage = 1"
definition fn_ClientDisconnected :: nat where "fn_ClientDisconnected = 2"

definition node_observer :: server_observer where
  "node_observer = server_observer_new\<lparr>so_incoming := Some fn_ReceiveMessage,
     so_disconnected := Some fn_ClientDisconnected, so_wantedIp := []\<rparr>"

subsection \<open>Operations\<close>

definition HasClientWithIP :: "node_server \<Rightarrow> bytes \<Rightarrow> bool" where
  "HasClientWithIP ns IP = list_ex (\<lambda>pair. fst pair = IP) (ns_connected ns)"

definition ClientDisconnected :: "client \<Rightarrow> node_effect list" where
  "ClientDisconnected c =
     [Out (lit ''server: killed connection from client '' @ c_ip c @ lit [CHR 0x0A])]"

definition NodeServer_ReceiveMessage ::
  "client \<Rightarrow> bytes \<Rightarrow> node_server \<Rightarrow> (node_effect list \<times> node_server) result" where
  "NodeServer_ReceiveMessage c packet_raw ns =
     rbind (ReadHeader packet_raw) (\<lambda>pt.
     if pt = CLIENT_HEARTBEAT then
       Inr ([], ns\<lparr>ns_heartbeats := map_set (c_ip c) True (ns_heartbeats ns)\<rparr>)
     else if pt = CLIENT_POKE then Inr ([Connect_to (c_ip c)], ns)
     else if pt = SIMPLE_STRING then
       rbind (DecodeSimpleString packet_raw) (\<lambda>packet.
       Inr ([Out (lit ''[server rec'd message]: '' @ dp_data packet @ lit [CHR 0x0A])], ns))
     else if pt = BROADCAST_TX then Inr ([], ns)
     else Inr ([Out (lit (''server received invalid message'' @ [CHR 0x0A]))], ns))"

text \<open>The calls of the TCP server, run on the functions of the observer.\<close>

fun run_effects ::
  "server_effect list \<Rightarrow> node_server \<Rightarrow> (node_effect list \<times> node_server) result" where
  "run_effects [] ns = Inr ([], ns)"
| "run_effects (e # es) ns =
     rbind (case e of
         Call_message f c msg \<Rightarrow>
           if f = fn_ReceiveMessage then NodeServer_ReceiveMessage c msg ns else Inr ([Tcp e], ns)
       | Call_disconnected f c \<Rightarrow>
           Inr (if f = fn_ClientDisconnected then ClientDisconnected c else [Tcp e], ns)
       | _ \<Rightarrow> Inr ([Tcp e], ns)) (\<lambda>(out, ns).
     rbind (run_effects es ns) (\<lambda>(out', ns). Inr (out @ out', ns)))"

text \<open>One round of the heartbeat loop, over the entries of the map.\<close>

fun heartbeat_from ::
  "(bytes \<times> client) list \<Rightarrow> node_server \<Rightarrow> (node_effect list \<times> node_server) result" where
  "heartbeat_from [] ns = Inr ([], ns)"
| "heartbeat_from ((IP, c) # es) ns =
     (if map_find (ns_heartbeats ns) IP = None then
        rbind (killClient c (ns_tserver ns)) (\<lambda>(_, effs, t).
        rbind (run_effects effs (ns\<lparr>ns_tserver := t\<rparr>)) (\<lambda>(out, ns).
        rbind (heartbeat_from es (ns\<lparr>ns_connected := map_erase IP (ns_connected ns)\<rparr>)) (\<lambda>(out', ns).
        Inr (ClientDisconnected c @ out @ out', ns))))
      else heartbeat_from es ns)"

definition heartbeat_round :: "node_server \<Rightarrow> (node_effect list \<times> node_server) result" where
  "heartbeat_round ns =
     rbind (heartbeat_from (ns_connected ns) ns) (\<lambda>(out, ns).
     Inr (out, ns\<lparr>ns_heartbeats := []\<rparr>))"

text \<open>\<open>Init\<close>: the server is started and the observer registered.\<close>

definition NodeServer_setup :: "start_env \<Rightarrow> node_server \<Rightarrow> node_server result" where
  "NodeServer_setup env ns =
     rbind (start env (ns_tserver ns)) (\<lambda>(pipe, t).
     if \<not> pr_success pipe then Inl (Runtime_error (''Server setup failed.'' @ [CHR 0x0A]))
     else Inr (ns\<lparr>ns_tserver := subscribe node_observer t\<rparr>))"

text \<open>One round of the client loop.\<close>

definition client_round ::
  "(nat \<Rightarrow> nat) \<Rightarrow> accept_env \<Rightarrow> node_server \<Rightarrow> (node_effect list \<times> node_server) result" where
  "client_round grow env ns =
     rbind (acceptClient grow 0 env (ns_tserver ns)) (\<lambda>(client, t).
     rbind (isConnected (ae_unset env) client) (\<lambda>connected.
     if \<not> connected then Inl (Runtime_error ''Server failed to accept clients'')
     else Inr ([Out (lit ''new client connected with ip '' @ c_ip client @ lit [CHR 0x0A])],
               ns\<lparr>ns_tserver := t,
                  ns_connected := map_set (c_ip client) client (ns_connected ns),
                  ns_heartbeats := map_set (c_ip client) True (ns_heartbeats ns)\<rparr>)))"

text \<open>The receive thread of a client gets an answer from \<open>recv\<close>.\<close>

definition server_receives ::
  "client_ptr \<Rightarrow> recv_reply \<Rightarrow> node_server \<Rightarrow> (node_effect list \<times> bool \<times> node_server) result" where
  "server_receives p reply ns =
     rbind (receive_reply p reply (ns_tserver ns)) (\<lambda>(effs, more, t).
     rbind (run_effects effs (ns\<lparr>ns_tserver := t\<rparr>)) (\<lambda>(out, ns). Inr (out, more, ns)))"

text \<open>
  Sending. The targets of a packet are pointers, which \<open>heap\<close> resolves. The results of the sends are
  not looked at.
\<close>

definition SendMessage ::
  "(nat \<Rightarrow> client) \<Rightarrow> (nat \<Rightarrow> int \<times> bytes) \<Rightarrow> encoded_packet \<Rightarrow> node_effect list" where
  "SendMessage heap os packet =
     map Tcp (concat (map (\<lambda>(i, t). fst (sendToClient (os i) (heap t) (ep_serial packet)))
       (List.enumerate 0 (ep_targets packet))))"

definition SendMessageToAllClients ::
  "(nat \<Rightarrow> int \<times> bytes) \<Rightarrow> encoded_packet \<Rightarrow> node_server \<Rightarrow> node_effect list" where
  "SendMessageToAllClients os packet ns =
     map Tcp (fst (sendToAllClients os (ep_serial packet) (ns_tserver ns)))"

definition BroadcastBlock ::
  "('pub, 'priv) cryptopp \<Rightarrow> (nat \<Rightarrow> int \<times> bytes) \<Rightarrow> 'pub block \<Rightarrow> node_server \<Rightarrow> node_effect list" where
  "BroadcastBlock C os block ns =
     (let packet = SerializeMinedBlock C block in SendMessageToAllClients os packet ns)"

text \<open>
  The miner loop: one block for a fresh key, mined and broadcast. The packets the search broadcasts
  are those \<open>MineBlock\<close> returns.
\<close>

definition mine_loop_block :: "('pub, 'priv) cryptopp \<Rightarrow> fresh \<Rightarrow> 'pub \<Rightarrow> 'pub block" where
  "mine_loop_block C fr target_public =
     (Block_new C fr)\<lparr>b_hash := lit ''0'', b_prev_hash := lit ''0'',
       b_coinbase := \<lparr>cb_coins = 100, cb_target = target_public\<rparr>, b_bit_thresh := 1\<rparr>"

definition mine_loop ::
  "('pub, 'priv) cryptopp \<Rightarrow> nat \<Rightarrow> fresh \<Rightarrow> (nat \<Rightarrow> u64) \<Rightarrow> (nat \<Rightarrow> int \<times> bytes) \<Rightarrow> node_server \<Rightarrow>
   node_effect list option result" where
  "mine_loop C rng fr clock os ns =
     rbind (GenerateKeys C rng) (\<lambda>(target_public, target_private).
     Inr (map_option (\<lambda>(b, packets).
            concat (map (\<lambda>packet. SendMessageToAllClients os packet ns) packets))
          (MineBlock C clock (mine_loop_block C fr target_public))))"

subsection \<open>The effects of calls\<close>

lemma run_effects_disconnected:
  "run_effects (publishClientDisconnected t c) ns =
     Inr (concat (map (\<lambda>e. case e of
        Call_disconnected f d \<Rightarrow> if f = fn_ClientDisconnected then ClientDisconnected d else [Tcp e]
      | _ \<Rightarrow> [Tcp e]) (publishClientDisconnected t c)), ns)"
proof -
  have "run_effects es ns = Inr (concat (map (\<lambda>e. case e of
        Call_disconnected f d \<Rightarrow> if f = fn_ClientDisconnected then ClientDisconnected d else [Tcp e]
      | _ \<Rightarrow> [Tcp e]) es), ns)"
    if "\<forall>e \<in> set es. \<exists>f d. e = Call_disconnected f d" for es
    using that by (induction es) auto
  moreover have "\<forall>e \<in> set (publishClientDisconnected t c). \<exists>f d. e = Call_disconnected f d"
    by (auto simp: publishClientDisconnected_def notify_disconnected_def split: if_splits option.splits)
  ultimately show ?thesis by blast
qed

lemma run_effects_close:
  "\<exists>out. run_effects (Close_fd fd # publishClientDisconnected t c) ns = Inr (Tcp (Close_fd fd) # out, ns)"
  by (simp add: run_effects_disconnected)

text \<open>The descriptors that a list of effects closes, in order.\<close>

fun closed :: "node_effect list \<Rightarrow> int list" where
  "closed [] = []"
| "closed (e # es) = (case e of Tcp (Close_fd fd) \<Rightarrow> [fd] | _ \<Rightarrow> []) @ closed es"

lemma closed_append [simp]: "closed (es @ fs) = closed es @ closed fs"
  by (induction es) auto

lemma closed_disconnected:
  "run_effects (publishClientDisconnected t c) ns = Inr (out, ns') \<Longrightarrow> closed out = []"
proof -
  have "closed (concat (map (\<lambda>e. case e of
        Call_disconnected f d \<Rightarrow> if f = fn_ClientDisconnected then ClientDisconnected d else [Tcp e]
      | _ \<Rightarrow> [Tcp e]) es)) = []"
    if "\<forall>e \<in> set es. \<exists>f d. e = Call_disconnected f d" for es
    using that by (induction es) (auto simp: ClientDisconnected_def)
  moreover have "\<forall>e \<in> set (publishClientDisconnected t c). \<exists>f d. e = Call_disconnected f d"
    by (auto simp: publishClientDisconnected_def notify_disconnected_def split: if_splits option.splits)
  ultimately show "run_effects (publishClientDisconnected t c) ns = Inr (out, ns') \<Longrightarrow> closed out = []"
    by (simp add: run_effects_disconnected) blast
qed

lemma in_closed: "fd \<in> set (closed es) \<longleftrightarrow> Tcp (Close_fd fd) \<in> set es"
  by (induction es) (auto split: node_effect.splits effect.splits)

text \<open>What a round of kills does to one entry.\<close>

lemma killClient_effects:
  "killClient c s = Inr (c', effs, s') \<Longrightarrow>
   \<exists>d b. effs = Close_fd (c_sockfd c) # publishClientDisconnected s d \<and>
         server_keys s' = remove1 (client_key c) (server_keys s) \<and> deleteClient d s = Inr (b, s')"
  using vec.delete_keys by (fastforce simp: killClient_def Let_def)

lemma heartbeat_from_kill:
  assumes "map_find (ns_heartbeats ns) IP = None"
    and "heartbeat_from ((IP, c) # es) ns = Inr (out, ns')"
  shows "\<exists>t pre rest. server_keys t = remove1 (client_key c) (server_keys (ns_tserver ns)) \<and>
           closed pre = [c_sockfd c] \<and> out = pre @ rest \<and>
           heartbeat_from es (ns\<lparr>ns_tserver := t, ns_connected := map_erase IP (ns_connected ns)\<rparr>)
             = Inr (rest, ns')"
proof -
  obtain c' effs t where k: "killClient c (ns_tserver ns) = Inr (c', effs, t)"
    using assms by (auto split: if_splits)
  obtain d b where e: "effs = Close_fd (c_sockfd c) # publishClientDisconnected (ns_tserver ns) d"
    and t: "server_keys t = remove1 (client_key c) (server_keys (ns_tserver ns))"
    using killClient_effects [OF k] by blast
  obtain o1 where r: "run_effects effs (ns\<lparr>ns_tserver := t\<rparr>)
      = Inr (Tcp (Close_fd (c_sockfd c)) # o1, ns\<lparr>ns_tserver := t\<rparr>)"
    using run_effects_close e by blast
  then have none: "closed o1 = []"
    using closed_disconnected [of "ns_tserver ns" d "ns\<lparr>ns_tserver := t\<rparr>"] by (auto simp: e)
  from assms k r obtain rest where
    "heartbeat_from es (ns\<lparr>ns_tserver := t, ns_connected := map_erase IP (ns_connected ns)\<rparr>)
       = Inr (rest, ns')"
    "out = (ClientDisconnected c @ Tcp (Close_fd (c_sockfd c)) # o1) @ rest"
    by (auto simp: ClientDisconnected_def)
  moreover have "closed (ClientDisconnected c @ Tcp (Close_fd (c_sockfd c)) # o1) = [c_sockfd c]"
    using none by (simp add: ClientDisconnected_def)
  ultimately show ?thesis using t by blast
qed

lemma heartbeat_from_spec:
  "heartbeat_from es ns = Inr (out, ns') \<Longrightarrow>
   let killed = filter (\<lambda>(IP, c). map_find (ns_heartbeats ns) IP = None) es in
   ns_connected ns' = fold map_erase (map fst killed) (ns_connected ns) \<and>
   ns_heartbeats ns' = ns_heartbeats ns \<and>
   server_keys (ns_tserver ns') = fold remove1 (map (client_key \<circ> snd) killed) (server_keys (ns_tserver ns)) \<and>
   closed out = map (c_sockfd \<circ> snd) killed"
proof (induction es arbitrary: ns out)
  case Nil
  then show ?case by simp
next
  case (Cons e es)
  obtain IP c where e: "e = (IP, c)" by (cases e)
  show ?case
  proof (cases "map_find (ns_heartbeats ns) IP = None")
    case True
    obtain t pre rest where t: "server_keys t = remove1 (client_key c) (server_keys (ns_tserver ns))"
      and o: "closed pre = [c_sockfd c]" "out = pre @ rest"
      and h: "heartbeat_from es (ns\<lparr>ns_tserver := t, ns_connected := map_erase IP (ns_connected ns)\<rparr>)
                = Inr (rest, ns')"
      using heartbeat_from_kill [OF True] Cons.prems e by blast
    from Cons.IH [OF h] t o True show ?thesis unfolding e by (auto simp: Let_def)
  next
    case False
    then show ?thesis using Cons.IH Cons.prems unfolding e by (auto simp: Let_def)
  qed
qed

lemma erase_missing:
  assumes "ordered m"
  shows "fold map_erase (map fst (filter (\<lambda>(k, v). P k) m)) m = filter (\<lambda>(k, v). \<not> P k) m"
proof -
  have "fold map_erase ks m' = filter (\<lambda>(k, v). k \<notin> set ks) m'" for ks and m' :: "('a, 'b) ordmap"
    by (induction ks arbitrary: m') (auto simp: map_erase_def intro!: filter_cong)
  then show ?thesis by (force intro!: filter_cong)
qed

subsection \<open>Rounds that return\<close>

lemma heartbeat_from_none:
  "filter (\<lambda>(IP, c). map_find (ns_heartbeats ns) IP = None) es = [] \<Longrightarrow> heartbeat_from es ns = Inr ([], ns)"
  by (induction es) auto

text \<open>With at most one client to kill, a round on a well-formed server does not fail.\<close>

lemma heartbeat_from_one:
  assumes "wf_server (ns_tserver ns)"
    and "length (filter (\<lambda>(IP, c). map_find (ns_heartbeats ns) IP = None) es) \<le> 1"
  shows "\<exists>out ns'. heartbeat_from es ns = Inr (out, ns')"
  using assms(2)
proof (induction es)
  case (Cons e es)
  obtain IP c where e: "e = (IP, c)" by (cases e)
  show ?case
  proof (cases "map_find (ns_heartbeats ns) IP = None")
    case True
    let ?c = "c\<lparr>c_isConnected := Some False\<rparr>"
    obtain b t where "deleteClient ?c (ns_tserver ns) = Inr (b, t)"
      using deleteClient_ok [OF assms(1)] by blast
    moreover have "filter (\<lambda>(IP, c). map_find (ns_heartbeats ns) IP = None) es = []"
      using Cons.prems True by (simp add: e)
    ultimately show ?thesis using True
      by (simp add: e killClient_def Let_def run_effects_disconnected heartbeat_from_none)
  next
    case False
    then show ?thesis using Cons by (simp add: e del: not_None_eq)
  qed
qed simp

lemma heartbeat_round_one:
  assumes "wf_server (ns_tserver ns)"
    and "length (filter (\<lambda>(IP, c). map_find (ns_heartbeats ns) IP = None) (ns_connected ns)) \<le> 1"
  shows "\<exists>out ns'. heartbeat_round ns = Inr (out, ns')"
  using heartbeat_from_one [OF assms] by (auto simp: heartbeat_round_def)

subsection \<open>Properties\<close>

lemma ordered_filter: "ordered m \<Longrightarrow> ordered (filter P m)"
  by (induction m) (auto simp: ordered_Cons)

lemma heartbeat_round_spec_aux:
  assumes "ordered (ns_connected ns)" and "heartbeat_round ns = Inr (out, ns')"
  shows "ns_connected ns' = filter (\<lambda>(IP, c). map_find (ns_heartbeats ns) IP \<noteq> None) (ns_connected ns)"
proof -
  obtain ns1 where h: "heartbeat_from (ns_connected ns) ns = Inr (out, ns1)"
    and ns': "ns' = ns1\<lparr>ns_heartbeats := []\<rparr>"
    using assms(2) by (auto simp: heartbeat_round_def)
  from heartbeat_from_spec [OF h] erase_missing [OF assms(1), of "\<lambda>IP. map_find (ns_heartbeats ns) IP = None"]
  show ?thesis unfolding ns' by (simp add: Let_def)
qed

lemma heartbeat_round_closes:
  assumes "heartbeat_round ns = Inr (out, ns')" and "(IP, c) \<in> set (ns_connected ns)"
    and "map_find (ns_heartbeats ns) IP = None"
  shows "Tcp (Close_fd (c_sockfd c)) \<in> set out"
proof -
  obtain ns1 where h: "heartbeat_from (ns_connected ns) ns = Inr (out, ns1)"
    using assms(1) by (auto simp: heartbeat_round_def)
  from heartbeat_from_spec [OF h] assms(2,3) show ?thesis by (force simp: Let_def simp flip: in_closed)
qed

text \<open>
  C8: a round of the heartbeat loop that returns kills exactly the clients that sent no heartbeat
  since the last one: it closes their sockets and no other, each once and in the order of their
  addresses, removes them from the TCP server and from the map, keeps all others, and asks everyone for
  a new heartbeat. (A round with at most one silent client on a well-formed server returns, lemma
  \<open>heartbeat_round_one\<close>; with more, a kill can use a thread handle that the kill before it deleted, and
  the round ends in that error.)\<close>

theorem heartbeat_round_spec:
  assumes "ordered (ns_connected ns)" and "heartbeat_round ns = Inr (out, ns')"
    and "silent = filter (\<lambda>(IP, c). map_find (ns_heartbeats ns) IP = None) (ns_connected ns)"
  shows "ns_connected ns' = filter (\<lambda>(IP, c). map_find (ns_heartbeats ns) IP \<noteq> None) (ns_connected ns)
    \<and> ns_heartbeats ns' = []
    \<and> server_keys (ns_tserver ns') = fold remove1 (map (client_key \<circ> snd) silent) (server_keys (ns_tserver ns))
    \<and> closed out = map (c_sockfd \<circ> snd) silent"
proof -
  obtain ns1 where h: "heartbeat_from (ns_connected ns) ns = Inr (out, ns1)"
    and ns': "ns' = ns1\<lparr>ns_heartbeats := []\<rparr>"
    using assms(2) by (auto simp: heartbeat_round_def)
  from heartbeat_from_spec [OF h] erase_missing [OF assms(1), of "\<lambda>IP. map_find (ns_heartbeats ns) IP = None"]
  show ?thesis unfolding ns' assms(3) by (auto simp: Let_def simp del: not_None_eq)
qed

lemma HasClientWithIP_find: "HasClientWithIP ns IP \<longleftrightarrow> map_find (ns_connected ns) IP \<noteq> None"
  by (auto simp: HasClientWithIP_def map_find_None list_ex_iff simp del: not_None_eq)

lemma ReceiveMessage_heartbeat:
  "NodeServer_ReceiveMessage c (ep_serial SerializeHeartbeat @ post) ns =
     Inr ([], ns\<lparr>ns_heartbeats := map_set (c_ip c) True (ns_heartbeats ns)\<rparr>)"
  using heartbeat.header [of post] by (simp add: NodeServer_ReceiveMessage_def)

text \<open>Incoming messages change nothing but the heartbeats, and these only grow.\<close>

lemma ReceiveMessage_state:
  assumes "NodeServer_ReceiveMessage c m ns = Inr (out, ns')" "ordered (ns_heartbeats ns)"
  shows "ns_connected ns' = ns_connected ns \<and> ns_tserver ns' = ns_tserver ns \<and>
         ordered (ns_heartbeats ns') \<and>
         (map_find (ns_heartbeats ns) IP \<noteq> None \<longrightarrow> map_find (ns_heartbeats ns') IP \<noteq> None)"
  using assms
  by (auto simp: NodeServer_ReceiveMessage_def ordmap.find_set ordmap.inv_set ex_bool_eq
      simp del: not_None_eq split: if_splits)

text \<open>
  A client that sent a heartbeat since the last round, in a packet with or without other bytes
  behind it and followed by any other message, is still connected after the next round.\<close>

theorem heartbeat_keeps_client:
  assumes "ordered (ns_connected ns)" "ordered (ns_heartbeats ns)"
    and "map_find (ns_connected ns) (c_ip c) = Some d"
    and "NodeServer_ReceiveMessage c (ep_serial SerializeHeartbeat @ post) ns = Inr (out1, ns1)"
    and "NodeServer_ReceiveMessage c2 msg2 ns1 = Inr (out2, ns2)"
    and "heartbeat_round ns2 = Inr (out3, ns3)"
  shows "map_find (ns_connected ns3) (c_ip c) = Some d \<and> HasClientWithIP ns3 (c_ip c)"
proof -
  have 1: "ns1 = ns\<lparr>ns_heartbeats := map_set (c_ip c) True (ns_heartbeats ns)\<rparr>"
    using assms(4) by (simp add: ReceiveMessage_heartbeat)
  then have "map_find (ns_heartbeats ns1) (c_ip c) \<noteq> None" "ordered (ns_heartbeats ns1)"
    using assms(2) by (simp_all add: ordmap.find_set ordmap.inv_set)
  with ReceiveMessage_state [OF assms(5)] 1 have 2: "ns_connected ns2 = ns_connected ns"
    "map_find (ns_heartbeats ns2) (c_ip c) \<noteq> None" by auto
  have o: "ordered (ns_connected ns2)" using 2 assms(1) by simp
  note s = heartbeat_round_spec_aux [OF o assms(6)]
  have "ordered (ns_connected ns3)" unfolding s using o by (rule ordered_filter)
  moreover have "(c_ip c, d) \<in> set (ns_connected ns3)"
    unfolding s using 2 assms(1,3) by (simp add: map_find_in)
  ultimately have "map_find (ns_connected ns3) (c_ip c) = Some d" by (simp add: map_find_in)
  then show ?thesis by (simp add: HasClientWithIP_find)
qed

text \<open>
  C32: a client whose connection ended stays in the map of connected clients, as the observer that
  should hear of it wants messages of every address. If it sent no heartbeat, the next round closes
  its descriptor, which was closed before and may belong to another connection by then.\<close>

theorem ended_connection_closed_again:
  assumes "ordered (ns_connected ns)"
    and "deref p (ns_tserver ns) = Inr c" "server_receives p Peer_closed ns = Inr (out1, goes, ns1)"
    and "map_find (ns_connected ns) IP = Some d" "c_sockfd d = c_sockfd c"
    and "map_find (ns_heartbeats ns) IP = None"
    and "heartbeat_round ns1 = Inr (out2, ns2)"
  shows "HasClientWithIP ns1 IP \<and> Tcp (Close_fd (c_sockfd c)) \<in> set out1 \<and>
         Tcp (Close_fd (c_sockfd c)) \<in> set out2"
proof -
  obtain effs t where r: "receive_reply p Peer_closed (ns_tserver ns) = Inr (effs, goes, t)"
    and e: "run_effects effs (ns\<lparr>ns_tserver := t\<rparr>) = Inr (out1, ns1)"
    using assms(3) by (auto simp: server_receives_def)
  obtain s' d' where "effs = Close_fd (c_sockfd c) # publishClientDisconnected s' d'"
    using r assms(2) by (auto simp: receive_reply_def Let_def)
  with e run_effects_close [of "c_sockfd c" s' d' "ns\<lparr>ns_tserver := t\<rparr>"] obtain o3
    where "out1 = Tcp (Close_fd (c_sockfd c)) # o3" and n1: "ns1 = ns\<lparr>ns_tserver := t\<rparr>"
    by (auto simp del: run_effects.simps)
  then have o1: "Tcp (Close_fd (c_sockfd c)) \<in> set out1" by simp
  have "ordered (ns_connected ns1)" using assms(1) n1 by simp
  moreover have "(IP, d) \<in> set (ns_connected ns1)" using assms(1,4) n1 by (simp add: map_find_in)
  ultimately have "Tcp (Close_fd (c_sockfd c)) \<in> set out2"
    using heartbeat_round_closes [OF assms(7)] assms(5,6) n1 by fastforce
  then show ?thesis using o1 n1 assms(4) by (simp add: HasClientWithIP_find)
qed

text \<open>
  When \<open>recv\<close> returns a heartbeat, a poke or a string together with the start of what was sent
  after it, the server acts on the first message alone; the rest is dropped.\<close>

theorem coalesced_messages_lost:
  assumes "sized_ok ip" "sized_ok str"
  shows "NodeServer_ReceiveMessage c (ep_serial SerializeHeartbeat @ other) ns =
           NodeServer_ReceiveMessage c (ep_serial SerializeHeartbeat) ns
    \<and> NodeServer_ReceiveMessage c (ep_serial (SerializeClientPoke ip) @ other) ns =
           Inr ([Connect_to (c_ip c)], ns)
    \<and> NodeServer_ReceiveMessage c (ep_serial (SerializeSimpleString str) @ other) ns =
           Inr ([Out (lit ''[server rec'd message]: '' @ str @ lit [CHR 0x0A])], ns)"
  using assms heartbeat.header [of other] heartbeat.header [of "[]"] client_poke.header [of ip other]
    simple_string.header [of str other] simple_string.decode [of str other]
  by (simp add: NodeServer_ReceiveMessage_def type_defs)

text \<open>
  A round of the client loop registers the accepted client, by its address, in the map and the
  heartbeats, and at the end of the TCP server's clients; it keeps the map ordered. When \<open>accept\<close>
  fails the loop tests a flag that was never set: it throws only if that happens to read as false.\<close>

theorem client_round_spec:
  assumes "wf_server (ns_tserver ns)" "length (ts_clients (ns_tserver ns)) < ts_capacity (ns_tserver ns)"
    and "ordered (ns_connected ns)" "ordered (ns_heartbeats ns)"
  shows "if ae_accept env = -1 then client_round grow env ns =
      Inl (if ae_unset env then Indeterminate else Runtime_error ''Server failed to accept clients'')
    else \<exists>out ns'. client_round grow env ns = Inr (out, ns') \<and>
      server_keys (ns_tserver ns') = server_keys (ns_tserver ns) @ [(ae_accept env, ae_ip env)] \<and>
      wf_server (ns_tserver ns') \<and> ordered (ns_connected ns') \<and> ordered (ns_heartbeats ns') \<and>
      map_option client_key \<circ> map_find (ns_connected ns') =
        (map_option client_key \<circ> map_find (ns_connected ns))(ae_ip env \<mapsto> (ae_accept env, ae_ip env)) \<and>
      map_find (ns_heartbeats ns') = (map_find (ns_heartbeats ns))(ae_ip env \<mapsto> True)"
proof (cases "ae_accept env = -1")
  case True
  then show ?thesis
    by (simp add: client_round_def acceptClient_def Let_def isConnected_def Client_new_def)
next
  case False
  obtain s' where a: "acceptClient grow 0 env (ns_tserver ns) = Inr (accepted env, s')"
    and s': "wf_server s'" "server_keys s' = server_keys (ns_tserver ns) @ [(ae_accept env, ae_ip env)]"
    using acceptClient_room [OF assms(1,2) False, of grow] by blast
  let ?ns = "ns\<lparr>ns_tserver := s', ns_connected := map_set (ae_ip env) (accepted env) (ns_connected ns),
                ns_heartbeats := map_set (ae_ip env) True (ns_heartbeats ns)\<rparr>"
  have "client_round grow env ns =
      Inr ([Out (lit ''new client connected with ip '' @ ae_ip env @ lit [CHR 0x0A])], ?ns)"
    using a by (simp add: client_round_def isConnected_def accepted_def Client_new_def)
  moreover have "map_option client_key \<circ> map_find (ns_connected ?ns) =
      (map_option client_key \<circ> map_find (ns_connected ns))(ae_ip env \<mapsto> (ae_accept env, ae_ip env))"
    using assms(3) by (auto simp: ordmap.find_set accepted_def client_key_def Client_new_def)
  ultimately show ?thesis using False s' assms(3,4)
    by (auto simp: ordmap.find_set ordmap.inv_set)
qed

subsection \<open>A concrete node\<close>

text \<open>Two connected clients, of which the first has sent a heartbeat.\<close>

definition demo_node :: node_server where
  "demo_node = \<lparr>ns_tserver = subscribe node_observer (demo_server 10), ns_messages = [],
     ns_connected = [(c_ip demo_client_a, demo_client_a\<lparr>c_threadHandler := None\<rparr>),
                     (c_ip demo_client_b, demo_client_b\<lparr>c_threadHandler := None\<rparr>)],
     ns_heartbeats = [(c_ip demo_client_a, True)]\<rparr>"

lemma demo_node_ok:
  "ordered (ns_connected demo_node)" "ordered (ns_heartbeats demo_node)"
  "wf_server (ns_tserver demo_node)" "length (ts_clients (ns_tserver demo_node)) < ts_capacity (ns_tserver demo_node)"
  using wf_demo [of 10]
  by (simp_all add: demo_node_def ordered_def subscribe_def wf_server_def demo_client_a_def
      demo_client_b_def lit_def) (simp add: demo_server_def)

lemma demo_ips: "c_ip demo_client_a \<noteq> c_ip demo_client_b"
  by (simp add: demo_client_a_def demo_client_b_def lit_def)

lemma demo_node_find:
  "map_find (ns_connected demo_node) (c_ip demo_client_a) = Some (demo_client_a\<lparr>c_threadHandler := None\<rparr>)"
  "map_find (ns_connected demo_node) (c_ip demo_client_b) = Some (demo_client_b\<lparr>c_threadHandler := None\<rparr>)"
  "map_find (ns_heartbeats demo_node) (c_ip demo_client_a) = Some True"
  "map_find (ns_heartbeats demo_node) (c_ip demo_client_b) = None"
  using demo_ips by (auto simp: demo_node_def map_find_def)

lemma demo_round: "\<exists>out ns'. heartbeat_round demo_node = Inr (out, ns')"
  using demo_node_find by (intro heartbeat_round_one demo_node_ok) (simp add: demo_node_def)

lemma heartbeat_round_spec_witness:
  "\<exists>out ns'. heartbeat_round demo_node = Inr (out, ns') \<and>
     ns_connected ns' = [(c_ip demo_client_a, demo_client_a\<lparr>c_threadHandler := None\<rparr>)] \<and>
     server_keys (ns_tserver ns') = [client_key demo_client_a] \<and> closed out = [6]"
proof -
  obtain out ns' where r: "heartbeat_round demo_node = Inr (out, ns')" using demo_round by blast
  have k: "server_keys (ns_tserver demo_node) = [client_key demo_client_a, client_key demo_client_b]"
    by (simp add: demo_node_def subscribe_def server_keys_def demo_keys)
  have c: "ns_connected demo_node = [(c_ip demo_client_a, demo_client_a\<lparr>c_threadHandler := None\<rparr>),
      (c_ip demo_client_b, demo_client_b\<lparr>c_threadHandler := None\<rparr>)]" by (simp add: demo_node_def)
  have kb: "client_key (demo_client_b\<lparr>c_threadHandler := None\<rparr>) = client_key demo_client_b"
    "c_sockfd demo_client_b = 6" by (simp_all add: client_key_def demo_client_b_def)
  from heartbeat_round_spec [OF demo_node_ok(1) r refl] r show ?thesis
    using demo_node_find(3,4) demo_keys(1) by (auto simp: c k kb)
qed

lemma heartbeat_keeps_client_witness:
  "\<exists>out3 ns3. heartbeat_round (demo_node\<lparr>ns_heartbeats :=
       [(c_ip demo_client_a, True), (c_ip demo_client_b, True)]\<rparr>) = Inr (out3, ns3) \<and>
     HasClientWithIP ns3 (c_ip demo_client_b)"
proof -
  let ?ns = "demo_node\<lparr>ns_heartbeats := [(c_ip demo_client_a, True), (c_ip demo_client_b, True)]\<rparr>"
  have hb: "map_set (c_ip demo_client_b) True (ns_heartbeats demo_node)
      = [(c_ip demo_client_a, True), (c_ip demo_client_b, True)]"
    by (simp add: demo_node_def demo_client_a_def demo_client_b_def lit_def)
  have m: "NodeServer_ReceiveMessage demo_client_b (ep_serial SerializeHeartbeat @ []) demo_node = Inr ([], ?ns)"
    by (simp only: ReceiveMessage_heartbeat hb)
  have m2: "NodeServer_ReceiveMessage demo_client_b (ep_serial SerializeHeartbeat @ []) ?ns = Inr ([], ?ns)"
    by (simp only: ReceiveMessage_heartbeat)
      (simp add: demo_client_a_def demo_client_b_def lit_def)
  have "\<exists>out3 ns3. heartbeat_round ?ns = Inr (out3, ns3)"
    using demo_node_ok(3) demo_ips by (intro heartbeat_round_one) (auto simp: demo_node_def map_find_def)
  then obtain out3 ns3 where r: "heartbeat_round ?ns = Inr (out3, ns3)" by blast
  from heartbeat_keeps_client [OF demo_node_ok(1,2) demo_node_find(2) m m2 r] r show ?thesis by blast
qed

lemma demo_deref: "deref (1, 1) (ns_tserver demo_node) = Inr demo_client_b"
  by (simp add: demo_node_def subscribe_def deref_def demo_server_def)

text \<open>The second client hangs up.\<close>

lemma demo_hangup:
  "\<exists>out1 goes ns1. server_receives (1, 1) Peer_closed demo_node = Inr (out1, goes, ns1) \<and>
     wf_server (ns_tserver ns1) \<and> ns_connected ns1 = ns_connected demo_node \<and>
     ns_heartbeats ns1 = ns_heartbeats demo_node"
proof -
  let ?s = "ns_tserver demo_node"
  let ?c = "demo_client_b\<lparr>c_isConnected := Some False, c_errorMsg := lit ''Client closed connection''\<rparr>"
  let ?s1 = "store (1, 1) ?c ?s"
  have cl: "ts_clients ?s1 = [demo_client_a, ?c]"
    by (simp add: store_def demo_node_def subscribe_def demo_server_def)
  have wf: "wf_server ?s1"
    using demo_node_ok(3) unfolding wf_server_def cl
    by (simp add: demo_node_def subscribe_def demo_server_def demo_client_a_def demo_client_b_def)
  have ne: "ts_clients ?s1 \<noteq> []" and l: "client_key ?c = client_key (last (ts_clients ?s1))"
    unfolding cl by simp_all
  have ds: "distinct (server_keys ?s1)"
    using demo_keys(1) unfolding server_keys_def cl by (simp add: client_key_def)
  obtain s' where "deleteClient ?c ?s1 = Inr (True, s')" "wf_server s'"
    using delete_last [OF wf ds ne l] by blast
  then show ?thesis
    by (simp add: server_receives_def receive_reply_def demo_deref Let_def run_effects_disconnected ex_bool_eq
        del: One_nat_def)
qed

lemma ended_connection_closed_again_witness:
  "\<exists>out1 goes ns1 out2 ns2. server_receives (1, 1) Peer_closed demo_node = Inr (out1, goes, ns1) \<and>
     heartbeat_round ns1 = Inr (out2, ns2) \<and>
     Tcp (Close_fd 6) \<in> set out1 \<and> Tcp (Close_fd 6) \<in> set out2"
proof -
  obtain out1 goes ns1 where h: "server_receives (1, 1) Peer_closed demo_node = Inr (out1, goes, ns1)"
    and wf: "wf_server (ns_tserver ns1)" and same: "ns_connected ns1 = ns_connected demo_node"
      "ns_heartbeats ns1 = ns_heartbeats demo_node"
    using demo_hangup by blast
  have "\<exists>out2 ns2. heartbeat_round ns1 = Inr (out2, ns2)"
    using demo_node_find unfolding same [symmetric]
    by (intro heartbeat_round_one wf) (simp add: same, simp add: demo_node_def)
  then obtain out2 ns2 where r: "heartbeat_round ns1 = Inr (out2, ns2)" by blast
  have fd: "c_sockfd demo_client_b = 6" by (simp add: demo_client_b_def)
  from ended_connection_closed_again [OF demo_node_ok(1) demo_deref h demo_node_find(2) _ demo_node_find(4) r]
    h r show ?thesis by (auto simp: fd)
qed

lemma coalesced_messages_lost_witness:
  "NodeServer_ReceiveMessage demo_client_a (ep_serial (SerializeClientPoke (lit ''10.0.0.9'')) @ [1, 2]) demo_node
     = Inr ([Connect_to (lit ''10.0.0.1'')], demo_node)"
  using coalesced_messages_lost [of "lit ''10.0.0.9''" "[]" demo_client_a "[1, 2]" demo_node]
  by (simp add: sized_ok_def) (simp add: demo_client_a_def)

lemma client_round_spec_witness:
  "\<exists>out ns'. client_round Suc (demo_accept\<lparr>ae_accept := 9\<rparr>) demo_node = Inr (out, ns') \<and>
     wf_server (ns_tserver ns')"
  using client_round_spec [OF demo_node_ok(3,4,1,2), of "demo_accept\<lparr>ae_accept := 9\<rparr>" Suc] by auto

end
