(* ===== verification/TcpClient.thy ===== *)
theory TcpClient
  imports Net
begin

section \<open>tcp_client.cpp: the TCP client\<close>

text \<open>
  \<open>TcpClient\<close>: one socket, a flag that ends the receive loop, the observers and the receive thread.
  The answers of the system calls are arguments of the operations.
\<close>

subsection \<open>State\<close>

record client_observer =
  co_wantedIp :: bytes
  co_incoming :: "nat option"
  co_disconnected :: "nat option"

definition client_observer_new :: client_observer where
  "client_observer_new = \<lparr>co_wantedIp = [], co_incoming = None, co_disconnected = None\<rparr>"

text \<open>The thread pointer is \<open>nullptr\<close> or owns a thread.\<close>

record tcp_client =
  tc_sockfd :: int
  tc_stop :: bool
  tc_subscribers :: "client_observer list"
  tc_receiveTask :: bool

definition TcpClient_new :: tcp_client where
  "TcpClient_new = \<lparr>tc_sockfd = 0, tc_stop = False, tc_subscribers = [], tc_receiveTask = False\<rparr>"

type_synonym client_effect = "(unit, pipe_ret) effect"

subsection \<open>Observers\<close>

definition client_subscribe :: "client_observer \<Rightarrow> tcp_client \<Rightarrow> tcp_client" where
  "client_subscribe ob s = s\<lparr>tc_subscribers := tc_subscribers s @ [ob]\<rparr>"

definition client_unsubscribeAll :: "tcp_client \<Rightarrow> tcp_client" where
  "client_unsubscribeAll s = s\<lparr>tc_subscribers := []\<rparr>"

definition notify_server_msg :: "bytes \<Rightarrow> client_observer \<Rightarrow> client_effect list" where
  "notify_server_msg msg ob =
     (case co_incoming ob of None \<Rightarrow> [] | Some f \<Rightarrow> [Call_message f () msg])"

definition notify_server_gone :: "pipe_ret \<Rightarrow> client_observer \<Rightarrow> client_effect list" where
  "notify_server_gone ret ob =
     (case co_disconnected ob of None \<Rightarrow> [] | Some f \<Rightarrow> [Call_disconnected f ret])"

definition publishServerMsg :: "tcp_client \<Rightarrow> bytes \<Rightarrow> client_effect list" where
  "publishServerMsg s msg = concat (map (notify_server_msg msg) (tc_subscribers s))"

definition publishServerDisconnected :: "tcp_client \<Rightarrow> pipe_ret \<Rightarrow> client_effect list" where
  "publishServerDisconnected s ret = concat (map (notify_server_gone ret) (tc_subscribers s))"

interpretation server_msg_publisher:
  publisher "\<lambda>s. publishServerMsg s msg" client_subscribe client_unsubscribeAll
    "notify_server_msg msg" for msg
  by unfold_locales (simp_all add: publishServerMsg_def client_subscribe_def client_unsubscribeAll_def)

interpretation server_gone_publisher:
  publisher "\<lambda>s. publishServerDisconnected s ret" client_subscribe client_unsubscribeAll
    "notify_server_gone ret" for ret
  by unfold_locales
     (simp_all add: publishServerDisconnected_def client_subscribe_def client_unsubscribeAll_def)

subsection \<open>Connecting\<close>

text \<open>
  What \<open>socket\<close> and \<open>connect\<close> return, the address \<open>inet_aton\<close> reads from the text, the address
  list \<open>gethostbyname\<close> finds (None for \<open>NULL\<close>), and the text of \<open>errno\<close>. The first element of
  that list is taken unseen. The socket of a failed attempt stays open.
\<close>

record connect_env =
  ce_socket :: int
  ce_inet_aton :: "u32 option"
  ce_host :: "u32 list option"
  ce_connect :: int
  ce_error :: bytes

definition resolve :: "connect_env \<Rightarrow> u32 option result" where
  "resolve env =
     (case ce_inet_aton env of
        Some a \<Rightarrow> Inr (Some a)
      | None \<Rightarrow> (case ce_host env of
                   None \<Rightarrow> Inr None
                 | Some [] \<Rightarrow> Inl Out_of_bounds
                 | Some (a # _) \<Rightarrow> Inr (Some a)))"

definition connectTo :: "connect_env \<Rightarrow> tcp_client \<Rightarrow> (pipe_ret \<times> tcp_client) result" where
  "connectTo env s =
     (let ret = pipe_ret_new;
          s = s\<lparr>tc_sockfd := ce_socket env\<rparr>;
          failed = ret\<lparr>pr_success := False, pr_msg := ce_error env\<rparr> in
      if tc_sockfd s = -1 then Inr (failed, s)
      else rbind (resolve env) (\<lambda>addr.
        case addr of
          None \<Rightarrow> Inr (ret\<lparr>pr_success := False, pr_msg := lit ''Failed to resolve hostname''\<rparr>, s)
        | Some a \<Rightarrow>
            if ce_connect env = -1 then Inr (failed, s)
            else Inr (ret\<lparr>pr_success := True\<rparr>, s\<lparr>tc_receiveTask := True\<rparr>)))"

definition sendMsg :: "int \<times> bytes \<Rightarrow> tcp_client \<Rightarrow> bytes \<Rightarrow> client_effect list \<times> pipe_ret" where
  "sendMsg os s msg = ([Send_fd (tc_sockfd s) msg], judge_send (snd os) (fst os) (length msg))"

subsection \<open>Receiving and finishing\<close>

definition terminateReceiveThread :: "tcp_client \<Rightarrow> tcp_client" where
  "terminateReceiveThread s = (if tc_receiveTask s then s\<lparr>tc_receiveTask := False\<rparr> else s)"

text \<open>\<open>cl\<close> is what \<open>close\<close> returns and the text of \<open>errno\<close>.\<close>

definition client_finish ::
  "int \<times> bytes \<Rightarrow> tcp_client \<Rightarrow> client_effect list \<times> pipe_ret \<times> tcp_client" where
  "client_finish cl s =
     (let s = terminateReceiveThread (s\<lparr>tc_stop := True\<rparr>);
          ret = pipe_ret_new in
      if fst cl = -1
      then ([Close_fd (tc_sockfd s)], ret\<lparr>pr_success := False, pr_msg := snd cl\<rparr>, s)
      else ([Close_fd (tc_sockfd s)], ret\<lparr>pr_success := True\<rparr>, s))"

text \<open>
  \<open>ReceiveTask\<close> on the answers of its \<open>recv\<close> calls: the effects, the state after them, and the
  answers it did not ask for. When the answers run out it is blocked.
\<close>

fun ReceiveTask ::
  "int \<times> bytes \<Rightarrow> recv_reply list \<Rightarrow> tcp_client \<Rightarrow>
   client_effect list \<times> tcp_client \<times> recv_reply list" where
  "ReceiveTask cl [] s = ([], s, [])"
| "ReceiveTask cl (r # rs) s =
     (if tc_stop s then ([], s, r # rs)
      else case r of
        Received msg \<Rightarrow>
          (let (effs, s', rest) = ReceiveTask cl rs s in (publishServerMsg s msg @ effs, s', rest))
      | _ \<Rightarrow>
          (let ret = pipe_ret_new\<lparr>pr_success := False,
                       pr_msg := (case r of Recv_failed err \<Rightarrow> err | _ \<Rightarrow> lit ''Server closed connection'')\<rparr>;
               s' = s\<lparr>tc_stop := True\<rparr>;
               (effs, _, s'') = client_finish cl s' in
           (publishServerDisconnected s' ret @ effs, s'', rs)))"

subsection \<open>Properties\<close>

fun payload :: "recv_reply \<Rightarrow> bytes option" where
  "payload (Received msg) = Some msg"
| "payload _ = None"

definition goodbye :: "recv_reply \<Rightarrow> pipe_ret" where
  "goodbye r = \<lparr>pr_success = False,
     pr_msg = (case r of Recv_failed err \<Rightarrow> err | _ \<Rightarrow> lit ''Server closed connection'')\<rparr>"

lemma publish_stop [simp]:
  "publishServerDisconnected (s\<lparr>tc_stop := b\<rparr>) ret = publishServerDisconnected s ret"
  by (simp add: publishServerDisconnected_def)

lemma client_finish_fields [simp]:
  "fst (client_finish cl s) = [Close_fd (tc_sockfd s)]"
  "snd (snd (client_finish cl s)) = s\<lparr>tc_stop := True, tc_receiveTask := False\<rparr>"
  by (auto simp: client_finish_def terminateReceiveThread_def Let_def)

text \<open>
  C26: the receive loop publishes every piece \<open>recv\<close> returned before the connection ended, in order
  and unchanged, then tells each observer once that the server is gone, closes the socket and
  returns; what would have been received after the end is never asked for.\<close>

theorem ReceiveTask_spec:
  "ReceiveTask cl rs s =
     (if tc_stop s then ([], s, rs)
      else
        (let before = takeWhile (\<lambda>r. payload r \<noteq> None) rs;
             after = dropWhile (\<lambda>r. payload r \<noteq> None) rs;
             published = concat (map (publishServerMsg s) (List.map_filter payload before)) in
         case after of
           [] \<Rightarrow> (published, s, [])
         | r # rest \<Rightarrow>
             (published @ publishServerDisconnected s (goodbye r) @ [Close_fd (tc_sockfd s)],
              s\<lparr>tc_stop := True, tc_receiveTask := False\<rparr>, rest)))"
proof (induction rs)
  case (Cons r rs)
  show ?case
  proof (cases r)
    case (Received msg)
    then show ?thesis using Cons.IH
      by (cases "dropWhile (\<lambda>r. payload r \<noteq> None) rs")
        (simp_all add: Let_def map_filter_simps del: not_None_eq dropWhile_eq_Nil_conv)
  qed (simp_all add: Let_def goodbye_def pipe_ret_new_def map_filter_simps split_beta)
qed (simp add: Let_def map_filter_simps)

text \<open>Every piece an observer gets is one answer of \<open>recv\<close>.\<close>

lemma ReceiveTask_pieces:
  "Call_message f () msg \<in> set (fst (ReceiveTask cl rs s)) \<Longrightarrow> Received msg \<in> set rs"
proof (induction rs)
  case (Cons r rs)
  then show ?case
    by (cases r) (auto simp: Let_def split_beta publishServerMsg_def notify_server_msg_def
        publishServerDisconnected_def notify_server_gone_def split: if_splits option.splits)
qed simp

lemma ReceiveTask_piece_size:
  "list_all recv_ok rs \<Longrightarrow> Call_message f () msg \<in> set (fst (ReceiveTask cl rs s)) \<Longrightarrow>
   0 < length msg \<and> length msg \<le> MAX_PACKET_SIZE"
  by (drule ReceiveTask_pieces) (auto simp: list_all_iff)

lemma connectTo_success:
  "connectTo env s = Inr (ret, s') \<Longrightarrow> pr_success ret \<Longrightarrow>
   s' = s\<lparr>tc_sockfd := ce_socket env, tc_receiveTask := True\<rparr>"
  by (auto simp: connectTo_def Let_def pipe_ret_new_def split: if_splits option.splits)

lemma connectTo_subscribers:
  "connectTo env s = Inr (ret, s') \<Longrightarrow> tc_subscribers s' = tc_subscribers s \<and> tc_stop s' = tc_stop s"
  by (auto simp: connectTo_def Let_def split: if_splits option.splits)

text \<open>
  A client that was finished and connects again reports success and starts a receive thread
  that returns at once: the flag that stopped the first loop is never cleared, so nothing the new
  server sends reaches an observer, and its end is not reported either.\<close>

theorem reconnect_after_finish_is_deaf:
  assumes "connectTo env (snd (snd (client_finish cl s))) = Inr (ret, s')" and "pr_success ret"
  shows "tc_receiveTask s' \<and> ReceiveTask cl' rs s' = ([], s', rs)"
  using connectTo_success [OF assms] by (cases rs) simp_all

definition demo_connect :: connect_env where
  "demo_connect = \<lparr>ce_socket = 7, ce_inet_aton = Some 0x0100007F, ce_host = None, ce_connect = 0,
     ce_error = []\<rparr>"

lemma reconnect_after_finish_is_deaf_witness:
  "\<exists>ret s'. connectTo demo_connect (snd (snd (client_finish (0, []) TcpClient_new))) = Inr (ret, s') \<and>
     tc_receiveTask s' \<and> ReceiveTask (0, []) [Received [1], Peer_closed] s'
       = ([], s', [Received [1], Peer_closed])"
proof -
  obtain ret s' where c: "connectTo demo_connect (snd (snd (client_finish (0, []) TcpClient_new)))
      = Inr (ret, s')" and "pr_success ret"
    by (simp add: connectTo_def demo_connect_def resolve_def Let_def)
  with reconnect_after_finish_is_deaf [OF c] show ?thesis by blast
qed

end
