(* ===== verification/NodeClient.thy ===== *)
theory NodeClient
  imports Complex_Main NodeServer TcpClient
begin

section \<open>client.cpp: the client side of a node\<close>

text \<open>
  The clients of a node: one object per server it talks to, made by \<open>ConnectToServer\<close> and handed to
  a thread that connects, enters it in \<open>active_clients\<close> and talks. A pointer to an object is a
  number, \<open>cn_heap\<close> holds the objects that are not deleted. The loops are modelled by their rounds;
  their interleavings are the theory ClientThreads.
\<close>

subsection \<open>State\<close>

text \<open>
  Of the member \<open>thread\<close> the model keeps whether it was stored: \<open>new NClient()\<close> leaves it null.
\<close>

record nclient =
  nc_serverIP :: bytes
  nc_client :: tcp_client
  nc_observer :: client_observer
  nc_thread :: bool
  nc_alive :: bool

definition NClient_new :: nclient where
  "NClient_new = \<lparr>nc_serverIP = [], nc_client = TcpClient_new, nc_observer = client_observer_new,
                  nc_thread = False, nc_alive = False\<rparr>"

text \<open>
  \<open>cn_reaping\<close> says that the main loop has deleted the object of the first entry of
  \<open>active_clients\<close> and not erased the entry yet. A phase tells how far the thread of a connection is: connecting to an address, in its message loop, waiting for
  its keep-alive thread, or over.
\<close>

datatype phase = Connecting bytes | Talking | Joining | Ended

record node_client =
  cn_heap :: "nat \<Rightarrow> nclient option"
  cn_next :: nat
  cn_active :: "nat list"
  cn_reaping :: bool
  cn_phase :: "nat \<Rightarrow> phase"
  cn_storing :: "nat list"
  cn_keeping :: "nat list"
  cn_receiving :: "nat list"

definition NodeClient_new :: node_client where
  "NodeClient_new = \<lparr>cn_heap = Map.empty, cn_next = 0, cn_active = [], cn_reaping = False,
                     cn_phase = (\<lambda>_. Ended), cn_storing = [], cn_keeping = [], cn_receiving = []\<rparr>"

definition CLIENT_PORT :: nat where "CLIENT_PORT = 8080"

datatype client_out =
    Cout bytes
  | Cerr bytes
  | Net client_effect

definition heap_get :: "node_client \<Rightarrow> nat \<Rightarrow> nclient result" where
  "heap_get cn k = (case cn_heap cn k of None \<Rightarrow> Inl Use_after_free | Some nc \<Rightarrow> Inr nc)"

definition heap_put :: "nat \<Rightarrow> nclient \<Rightarrow> node_client \<Rightarrow> node_client" where
  "heap_put k nc cn = cn\<lparr>cn_heap := (cn_heap cn)(k \<mapsto> nc)\<rparr>"

subsection \<open>Messages from a server\<close>

definition newline :: string where "newline = [CHR 0x0A]"

definition NodeClient_ReceiveMessage ::
  "('pub, 'priv) cryptopp \<Rightarrow> fresh \<Rightarrow> bytes \<Rightarrow> client_out list result" where
  "NodeClient_ReceiveMessage C fr packet_raw =
     rbind (ReadHeader packet_raw) (\<lambda>pt.
     if pt = SIMPLE_STRING then
       rbind (DecodeSimpleString packet_raw) (\<lambda>packet.
       Inr [Cout (lit ''[client rec'd message]: '' @ dp_data packet @ lit newline)])
     else if pt = MINED_BLOCK then
       rbind (DecodeMinedBlock C fr packet_raw) (\<lambda>packet.
       Inr [Cout (lit (''CLIENT GOT MINED BLOCK'' @ newline))])
     else Inr [Cerr (lit (''client received invalid message'' @ newline))])"

definition Disconnected :: "pipe_ret \<Rightarrow> client_out list" where
  "Disconnected pipe = [Cout (lit (''my client disconnected from a server'' @ newline))]"

definition fn_client_ReceiveMessage :: nat where "fn_client_ReceiveMessage = 3"
definition fn_client_Disconnected :: nat where "fn_client_Disconnected = 4"

fun run_client_effects ::
  "('pub, 'priv) cryptopp \<Rightarrow> fresh \<Rightarrow> client_effect list \<Rightarrow> client_out list result" where
  "run_client_effects C fr [] = Inr []"
| "run_client_effects C fr (e # es) =
     rbind (case e of
         Call_message f u msg \<Rightarrow>
           if f = fn_client_ReceiveMessage then NodeClient_ReceiveMessage C fr msg else Inr [Net e]
       | Call_disconnected f ret \<Rightarrow>
           Inr (if f = fn_client_Disconnected then Disconnected ret else [Net e])
       | _ \<Rightarrow> Inr [Net e]) (\<lambda>out.
     rbind (run_client_effects C fr es) (\<lambda>out'. Inr (out @ out')))"

subsection \<open>Connecting\<close>

text \<open>\<open>NClient::SendMessage\<close>.\<close>

definition nc_SendMessage ::
  "int \<times> bytes \<Rightarrow> nclient \<Rightarrow> encoded_packet \<Rightarrow> client_effect list \<times> pipe_ret" where
  "nc_SendMessage os nc message = sendMsg os (nc_client nc) (ep_serial message)"

text \<open>The scan of \<open>active_clients\<close> for an address.\<close>

fun connected_to :: "node_client \<Rightarrow> bytes \<Rightarrow> nat list \<Rightarrow> bool result" where
  "connected_to cn IP [] = Inr False"
| "connected_to cn IP (ec # ecs) =
     rbind (heap_get cn ec) (\<lambda>nc. if nc_serverIP nc = IP then Inr True else connected_to cn IP ecs)"

text \<open>
  \<open>ConnectToServer\<close> makes the object and starts its thread, then stores the thread's pointer in the
  object: in between the thread runs. The first part tells which object it made.
\<close>

definition connect_start :: "bytes \<Rightarrow> node_client \<Rightarrow> (nat option \<times> node_client) result" where
  "connect_start IP cn =
     rbind (connected_to cn IP (cn_active cn)) (\<lambda>found.
     if found then Inr (None, cn)
     else Inr (Some (cn_next cn),
       cn\<lparr>cn_heap := (cn_heap cn)(cn_next cn \<mapsto> NClient_new), cn_next := Suc (cn_next cn),
          cn_phase := (cn_phase cn)(cn_next cn := Connecting IP)\<rparr>))"

definition connect_store :: "nat \<Rightarrow> node_client \<Rightarrow> node_client result" where
  "connect_store k cn =
     rbind (heap_get cn k) (\<lambda>nc. Inr (heap_put k (nc\<lparr>nc_thread := True\<rparr>) cn))"

definition ConnectToServer :: "bytes \<Rightarrow> node_client \<Rightarrow> node_client result" where
  "ConnectToServer IP cn =
     rbind (connect_start IP cn) (\<lambda>(made, cn).
     case made of None \<Rightarrow> Inr cn | Some k \<Rightarrow> connect_store k cn)"

text \<open>The state with a new object, before and after its thread is stored.\<close>

definition with_object :: "bool \<Rightarrow> bytes \<Rightarrow> node_client \<Rightarrow> node_client" where
  "with_object stored IP cn =
     cn\<lparr>cn_heap := (cn_heap cn)(cn_next cn \<mapsto> NClient_new\<lparr>nc_thread := stored\<rparr>),
        cn_next := Suc (cn_next cn), cn_phase := (cn_phase cn)(cn_next cn := Connecting IP)\<rparr>"

lemma with_object_fields [simp]:
  "cn_next (with_object b IP cn) = Suc (cn_next cn)" "cn_active (with_object b IP cn) = cn_active cn"
  "cn_reaping (with_object b IP cn) = cn_reaping cn"
  "cn_phase (with_object b IP cn) = (cn_phase cn)(cn_next cn := Connecting IP)"
  "cn_heap (with_object b IP cn) = (cn_heap cn)(cn_next cn \<mapsto> NClient_new\<lparr>nc_thread := b\<rparr>)"
  "cn_storing (with_object b IP cn) = cn_storing cn" "cn_keeping (with_object b IP cn) = cn_keeping cn"
  "cn_receiving (with_object b IP cn) = cn_receiving cn"
  by (simp_all add: with_object_def)

lemma connect_start_new:
  "connected_to cn IP (cn_active cn) = Inr False \<Longrightarrow>
   connect_start IP cn = Inr (Some (cn_next cn), with_object False IP cn)"
  by (simp add: connect_start_def with_object_def NClient_new_def)

lemma ConnectToServer_new:
  "connected_to cn IP (cn_active cn) = Inr False \<Longrightarrow> ConnectToServer IP cn = Inr (with_object True IP cn)"
  by (simp add: ConnectToServer_def connect_start_new connect_store_def heap_get_def heap_put_def
      with_object_def)

text \<open>
  \<open>initialize_client_connection\<close> up to its loops, for the object \<open>k\<close>. \<open>has\<close> is what
  \<open>HasClientWithIP\<close> answers, \<open>ip\<close> the replies \<open>GetMyIP\<close> gets, \<open>os\<close> that of the poke's \<open>send\<close>,
  which is not looked at. The last component of \<open>Inr\<close> tells whether the loops start.
\<close>

definition node_client_observer :: client_observer where
  "node_client_observer = client_observer_new\<lparr>co_wantedIp := [],
     co_incoming := Some fn_client_ReceiveMessage, co_disconnected := Some fn_client_Disconnected\<rparr>"

definition set_up :: "bytes \<Rightarrow> nclient \<Rightarrow> nclient" where
  "set_up serverIP nc = nc\<lparr>nc_serverIP := serverIP, nc_observer := node_client_observer,
     nc_client := client_subscribe node_client_observer (nc_client nc)\<rparr>"

definition initialize_client_connection ::
  "connect_env \<Rightarrow> bool \<Rightarrow> ip_replies \<Rightarrow> int \<times> bytes \<Rightarrow> bytes \<Rightarrow> nat \<Rightarrow> node_client \<Rightarrow>
   (client_out list \<times> node_client) result" where
  "initialize_client_connection env has ip os serverIP k cn =
     rbind (heap_get cn k) (\<lambda>nc.
     let nc = set_up serverIP nc in
     rbind (connectTo env (nc_client nc)) (\<lambda>(connection, tc).
     if \<not> pr_success connection then
       Inr ([Cerr (lit ''couldn't connect to server '' @ serverIP @ lit ('' listed in peers.dat'' @ newline))],
            cn\<lparr>cn_heap := (cn_heap cn)(k := None), cn_phase := (cn_phase cn)(k := Ended)\<rparr>)
     else
       let nc = nc\<lparr>nc_client := tc, nc_alive := True\<rparr>;
           hello = Cout (lit ''connected to server '' @ serverIP @ lit ('' listed in peers.dat'' @ newline));
           cn = (heap_put k nc cn)\<lparr>cn_active := cn_active cn @ [k], cn_receiving := k # cn_receiving cn,
                                   cn_keeping := k # cn_keeping cn, cn_phase := (cn_phase cn)(k := Talking)\<rparr> in
       if \<not> has then
         rbind (fst (GetMyIP ip)) (\<lambda>me.
         Inr (hello # map Net (fst (nc_SendMessage os nc (SerializeClientPoke me))), cn))
       else Inr ([hello], cn)))"

text \<open>One round of the keep-alive thread and of the message loop; False when the loop ends.\<close>

definition keep_alive_round ::
  "int \<times> bytes \<Rightarrow> nclient \<Rightarrow> client_out list \<times> bool \<times> nclient" where
  "keep_alive_round os nc =
     (if \<not> nc_alive nc then ([], False, nc)
      else let (effs, ret) = nc_SendMessage os nc SerializeHeartbeat in
        if \<not> pr_success ret then (map Net effs, False, nc\<lparr>nc_alive := False\<rparr>)
        else (map Net effs, True, nc))"

definition keep_alive_sleep :: nat where
  "keep_alive_sleep = nat \<lceil>real KEEP_ALIVE_TIME / 3\<rceil>"

definition message_round ::
  "ip_replies \<Rightarrow> int \<times> bytes \<Rightarrow> nclient \<Rightarrow> (client_out list \<times> bool \<times> nclient) result" where
  "message_round ip os nc =
     (if \<not> nc_alive nc then Inr ([], False, nc)
      else rbind (fst (GetMyIP ip)) (\<lambda>me.
        let message = lit ''hello from client '' @ me;
            (effs, ret) = nc_SendMessage os nc (SerializeSimpleString message) in
        if \<not> pr_success ret then
          Inr (map Net effs @ [Cout (lit ''failed to send message to server '' @ nc_serverIP nc
                 @ lit (''.. aborting.'' @ newline))], False, nc\<lparr>nc_alive := False\<rparr>)
        else Inr (map Net effs, True, nc)))"

text \<open>The receive thread of a client's \<open>TcpClient\<close> gets an answer.\<close>

definition client_receives ::
  "('pub, 'priv) cryptopp \<Rightarrow> fresh \<Rightarrow> int \<times> bytes \<Rightarrow> recv_reply \<Rightarrow> nat \<Rightarrow> node_client \<Rightarrow>
   (client_out list \<times> node_client) result" where
  "client_receives C fr cl r k cn =
     rbind (heap_get cn k) (\<lambda>nc.
     let (effs, tc, _) = ReceiveTask cl [r] (nc_client nc) in
     rbind (run_client_effects C fr effs) (\<lambda>out.
     Inr (out, heap_put k (nc\<lparr>nc_client := tc\<rparr>)
       (cn\<lparr>cn_receiving := (if tc_stop tc then removeAll k (cn_receiving cn) else cn_receiving cn)\<rparr>))))"

text \<open>\<open>BroadcastTx\<close> has no body.\<close>

definition BroadcastTx ::
  "tx_input list \<Rightarrow> 'pub tx_output list \<Rightarrow> 'pub \<Rightarrow> 'priv \<Rightarrow> node_client \<Rightarrow> node_client" where
  "BroadcastTx inputs outputs public_key private_key cn = cn"

subsection \<open>Init\<close>

text \<open>\<open>std::getline\<close> over a file.\<close>

function getlines :: "bytes \<Rightarrow> bytes list" where
  "getlines [] = []"
| "getlines (b # bs) =
     takeWhile (\<lambda>x. x \<noteq> 10) (b # bs) # getlines (drop 1 (dropWhile (\<lambda>x. x \<noteq> 10) (b # bs)))"
  by pat_completeness auto

termination
proof (relation "measure length")
  fix b :: u8 and bs
  have "length (dropWhile (\<lambda>x. x \<noteq> 10) (b # bs)) \<le> length (b # bs)" by (rule length_dropWhile_le)
  then show "(drop 1 (dropWhile (\<lambda>x. x \<noteq> 10) (b # bs)), b # bs) \<in> measure length" by simp
qed simp

fun connect_all :: "bytes list \<Rightarrow> node_client \<Rightarrow> node_client result" where
  "connect_all [] cn = Inr cn"
| "connect_all (IP # IPs) cn = rbind (ConnectToServer IP cn) (connect_all IPs)"

text \<open>The file is None when it cannot be opened.\<close>

definition peer_lines :: "bytes option \<Rightarrow> bytes list result" where
  "peer_lines file =
     (case file of
        None \<Rightarrow> Inl (Runtime_error ''NodeClient: failed to open peers.dat'')
      | Some content \<Rightarrow> Inr (getlines content))"

definition NodeClient_peers :: "bytes option \<Rightarrow> node_client \<Rightarrow> node_client result" where
  "NodeClient_peers file cn = rbind (peer_lines file) (\<lambda>IPs. connect_all IPs cn)"

text \<open>
  One round of the main loop: None when it ends. The thread of the first active client is joined
  through the pointer of the object (the round waits until its phase is \<open>Ended\<close>), then the object is
  deleted. Its entry of \<open>active_clients\<close> is erased after that, by a step of its own.
\<close>

definition main_round :: "node_client \<Rightarrow> node_client result option" where
  "main_round cn =
     (case cn_active cn of
        [] \<Rightarrow> None
      | k # ks \<Rightarrow> Some (rbind (heap_get cn k) (\<lambda>nc.
          if \<not> nc_thread nc then Inl Null_pointer
          else Inr (cn\<lparr>cn_heap := (cn_heap cn)(k := None), cn_reaping := True\<rparr>))))"

definition main_erase :: "node_client \<Rightarrow> node_client" where
  "main_erase cn = cn\<lparr>cn_active := tl (cn_active cn), cn_reaping := False\<rparr>"

subsection \<open>Init and the keep-alive period\<close>

lemma connect_all_fresh:
  assumes "cn_active cn = []"
  shows "\<exists>cn'. connect_all IPs cn = Inr cn' \<and> cn_active cn' = [] \<and>
     cn_next cn' = cn_next cn + length IPs \<and> (\<forall>k < cn_next cn. cn_phase cn' k = cn_phase cn k) \<and>
     map (cn_phase cn') [cn_next cn ..< cn_next cn + length IPs] = map Connecting IPs"
  using assms
proof (induction IPs arbitrary: cn)
  case (Cons IP IPs)
  let ?cn = "with_object True IP cn"
  obtain cn' where c: "connect_all IPs ?cn = Inr cn'" "cn_active cn' = []"
    "cn_next cn' = cn_next ?cn + length IPs" "\<forall>k < cn_next ?cn. cn_phase cn' k = cn_phase ?cn k"
    "map (cn_phase cn') [cn_next ?cn ..< cn_next ?cn + length IPs] = map Connecting IPs"
    using Cons.IH [of ?cn] Cons.prems by auto
  have "connect_all (IP # IPs) cn = Inr cn'"
    using c(1) Cons.prems ConnectToServer_new [of cn IP] by simp
  moreover have "map (cn_phase cn') [cn_next cn ..< cn_next cn + length (IP # IPs)] = map Connecting (IP # IPs)"
    using c(4,5) by (simp add: upt_rec)
  ultimately show ?case using c by auto
qed simp

text \<open>
  On a fresh node the client's \<open>Init\<close> starts one connection for each line of the peers file,
  equal lines included, and as none of them is up yet its main loop may find nothing to wait for and
  return; it fails only when the file cannot be opened.\<close>

theorem init_does_not_wait:
  "NodeClient_peers None cn0 = Inl (Runtime_error ''NodeClient: failed to open peers.dat'') \<and>
   (\<exists>cn. NodeClient_peers (Some content) NodeClient_new = Inr cn \<and>
      map (cn_phase cn) [0 ..< length (getlines content)] = map Connecting (getlines content) \<and>
      main_round cn = None)"
  using connect_all_fresh [of NodeClient_new "getlines content"]
  by (auto simp: NodeClient_peers_def peer_lines_def NodeClient_new_def main_round_def)

text \<open>
  A keep-alive thread that runs on time sends a heartbeat every 4 seconds (not every 3, as its
  comment says), and two of them fall into every span of \<open>KEEP_ALIVE_TIME\<close> seconds after the first.\<close>

theorem keep_alive_twice_per_round:
  assumes "first \<le> t"
  shows "keep_alive_sleep = 4 \<and>
    (\<exists>k. t \<le> first + k * keep_alive_sleep \<and>
         first + Suc k * keep_alive_sleep < t + KEEP_ALIVE_TIME)"
proof -
  have s: "keep_alive_sleep = 4"
    by (simp add: keep_alive_sleep_def KEEP_ALIVE_TIME_def ceiling_eq_iff)
  obtain d where d: "t = first + d" using assms le_Suc_ex by blast
  have "d \<le> (d + 3) div 4 * 4 \<and> Suc ((d + 3) div 4) * 4 < d + 10" by presburger
  then have "t \<le> first + (d + 3) div 4 * 4 \<and> first + Suc ((d + 3) div 4) * 4 < t + 10"
    unfolding d by simp
  then show ?thesis unfolding s KEEP_ALIVE_TIME_def by blast
qed

lemma keep_alive_twice_per_round_witness:
  "keep_alive_sleep = 4 \<and> (\<exists>k. 5 \<le> 1 + k * keep_alive_sleep \<and>
     1 + Suc k * keep_alive_sleep < 5 + KEEP_ALIVE_TIME)"
  by (rule keep_alive_twice_per_round) simp

end
