(* ===== verification/ClientThreads.thy ===== *)
theory ClientThreads
  imports Runs NodeClient
begin

section \<open>client.cpp: the threads of the client side, interleaved\<close>

text \<open>
  Every thread of the client side as steps on the shared state of NodeClient: the callers of
  \<open>ConnectToServer\<close>, the connection, keep-alive and receive threads, and the main loop. A step is one
  round of a loop. What holds on every interleaving, and what on the ones where connections are asked
  for one at a time.

  The grain: the scan of \<open>active_clients\<close> in \<open>ConnectToServer\<close> is one step; the store after it, the
  deletion of an object by the main loop and the erasure of its entry are steps of their own.
\<close>

subsection \<open>The threads, interleaved\<close>

text \<open>
  A step of the client side: a request to connect, the store of its thread, the end of a connection
  attempt, a round of a message loop or of a keep-alive thread, the join of the two, an answer of a
  \<open>recv\<close>, the two halves of a round of the main loop. \<open>k\<close> is the object. \<open>cn_storing\<close> are the objects whose thread
  runs and is not stored yet.
\<close>

datatype client_event =
    Request bytes
  | Store nat
  | Establish nat connect_env bool ip_replies "int \<times> bytes"
  | Talk nat ip_replies "int \<times> bytes"
  | Keep nat "int \<times> bytes"
  | Join nat
  | Recv nat "int \<times> bytes" recv_reply
  | Reap
  | Erase

definition talk ::
  "nat \<Rightarrow> ip_replies \<Rightarrow> int \<times> bytes \<Rightarrow> node_client \<Rightarrow> (client_out list \<times> node_client) result" where
  "talk k ip os cn =
     rbind (heap_get cn k) (\<lambda>nc.
     rbind (message_round ip os nc) (\<lambda>(out, goes, nc).
     Inr (out, (heap_put k nc cn)\<lparr>cn_phase := (cn_phase cn)(k := if goes then Talking else Joining)\<rparr>)))"

definition keep :: "nat \<Rightarrow> int \<times> bytes \<Rightarrow> node_client \<Rightarrow> (client_out list \<times> node_client) result" where
  "keep k os cn =
     rbind (heap_get cn k) (\<lambda>nc.
     let (out, goes, nc) = keep_alive_round os nc in
     Inr (out, (heap_put k nc cn)\<lparr>cn_keeping := if goes then cn_keeping cn else removeAll k (cn_keeping cn)\<rparr>))"

definition no_output :: "node_client result \<Rightarrow> (client_out list \<times> node_client) result" where
  "no_output r = rbind r (\<lambda>cn. Inr ([], cn))"

definition request :: "bytes \<Rightarrow> node_client \<Rightarrow> node_client result" where
  "request IP cn =
     rbind (connect_start IP cn) (\<lambda>(made, cn).
     Inr (cn\<lparr>cn_storing := (case made of None \<Rightarrow> cn_storing cn | Some k \<Rightarrow> k # cn_storing cn)\<rparr>))"

definition store_thread :: "nat \<Rightarrow> node_client \<Rightarrow> node_client result" where
  "store_thread k cn = connect_store k (cn\<lparr>cn_storing := removeAll k (cn_storing cn)\<rparr>)"

inductive client_step ::
  "('pub, 'priv) cryptopp \<Rightarrow> fresh \<Rightarrow> node_client \<Rightarrow> client_event \<Rightarrow>
   (client_out list \<times> node_client) result \<Rightarrow> bool" for C fr where
  request: "client_step C fr cn (Request IP) (no_output (request IP cn))"
| store: "k \<in> set (cn_storing cn) \<Longrightarrow> client_step C fr cn (Store k) (no_output (store_thread k cn))"
| establish: "cn_phase cn k = Connecting IP \<Longrightarrow>
    client_step C fr cn (Establish k env has ip os) (initialize_client_connection env has ip os IP k cn)"
| talk: "cn_phase cn k = Talking \<Longrightarrow> client_step C fr cn (Talk k ip os) (talk k ip os cn)"
| keep: "k \<in> set (cn_keeping cn) \<Longrightarrow> client_step C fr cn (Keep k os) (keep k os cn)"
| join: "cn_phase cn k = Joining \<Longrightarrow> k \<notin> set (cn_keeping cn) \<Longrightarrow>
    client_step C fr cn (Join k) (Inr ([], cn\<lparr>cn_phase := (cn_phase cn)(k := Ended)\<rparr>))"
| recv: "k \<in> set (cn_receiving cn) \<Longrightarrow> recv_ok r \<Longrightarrow>
    client_step C fr cn (Recv k cl r) (client_receives C fr cl r k cn)"
| reap: "cn_active cn = k # ks \<Longrightarrow> \<not> cn_reaping cn \<Longrightarrow> cn_phase cn k = Ended \<or> main_round cn = Some (Inl Null_pointer) \<Longrightarrow>
    main_round cn = Some r \<Longrightarrow>
    client_step C fr cn Reap (no_output r)"
| erase: "cn_reaping cn \<Longrightarrow> client_step C fr cn Erase (Inr ([], main_erase cn))"

inductive_cases client_step_recvE: "client_step C fr cn (Recv k cl r) r'"
inductive_cases client_step_requestE: "client_step C fr cn (Request IP) r"

inductive client_reach :: "('pub, 'priv) cryptopp \<Rightarrow> fresh \<Rightarrow> node_client \<Rightarrow> bool" for C fr where
  init: "client_reach C fr NodeClient_new"
| step: "client_reach C fr cn \<Longrightarrow> client_step C fr cn ev (Inr (out, cn')) \<Longrightarrow> client_reach C fr cn'"

subsection \<open>Every pointer but that of a receive thread stays valid\<close>

text \<open>The entries of \<open>active_clients\<close> whose objects are not deleted.\<close>

definition live_active :: "node_client \<Rightarrow> nat list" where
  "live_active cn = (if cn_reaping cn then tl (cn_active cn) else cn_active cn)"

lemma in_tl: "k \<in> set (tl xs) \<Longrightarrow> k \<in> set xs"
  by (cases xs) auto

definition client_inv :: "node_client \<Rightarrow> bool" where
  "client_inv cn \<longleftrightarrow>
     distinct (cn_active cn) \<and>
     (\<forall>k \<in> set (live_active cn). cn_heap cn k \<noteq> None) \<and>
     (cn_reaping cn \<longrightarrow> cn_active cn \<noteq> [] \<and> cn_phase cn (hd (cn_active cn)) = Ended \<and>
        cn_heap cn (hd (cn_active cn)) = None) \<and>
     (\<forall>k \<in> set (cn_active cn). k < cn_next cn \<and> (\<nexists>IP. cn_phase cn k = Connecting IP)) \<and>
     (\<forall>k \<in> set (cn_keeping cn). k \<in> set (cn_active cn) \<and> cn_phase cn k \<in> {Talking, Joining}) \<and>
     (\<forall>k. cn_phase cn k \<in> {Talking, Joining} \<longrightarrow> k \<in> set (cn_active cn)) \<and>
     (\<forall>k IP. cn_phase cn k = Connecting IP \<longrightarrow> cn_heap cn k \<noteq> None \<and> k < cn_next cn) \<and>
     (\<forall>k. cn_heap cn k \<noteq> None \<longrightarrow> nc_thread (the (cn_heap cn k)) \<or> k \<in> set (cn_storing cn))"

lemma client_invD:
  assumes "client_inv cn"
  shows "distinct (cn_active cn)"
    and "k \<in> set (live_active cn) \<Longrightarrow> cn_heap cn k \<noteq> None"
    and "k \<in> set (cn_active cn) \<Longrightarrow> k < cn_next cn"
    and "k \<in> set (cn_active cn) \<Longrightarrow> cn_phase cn k \<noteq> Connecting IP"
    and "k \<in> set (cn_keeping cn) \<Longrightarrow> k \<in> set (cn_active cn)"
    and "k \<in> set (cn_keeping cn) \<Longrightarrow> cn_phase cn k \<in> {Talking, Joining}"
    and "cn_phase cn k \<in> {Talking, Joining} \<Longrightarrow> k \<in> set (cn_active cn)"
    and "cn_phase cn k = Connecting IP \<Longrightarrow> cn_heap cn k \<noteq> None \<and> k < cn_next cn"
    and "cn_heap cn k = Some nc \<Longrightarrow> nc_thread nc \<or> k \<in> set (cn_storing cn)"
    and "cn_reaping cn \<Longrightarrow> \<exists>k ks. cn_active cn = k # ks \<and> cn_phase cn k = Ended \<and> cn_heap cn k = None"
  using assms unfolding client_inv_def
  by (blast, blast, blast, blast, blast, blast, blast, blast, force,
    force simp: neq_Nil_conv)

text \<open>An object whose thread is not over is there.\<close>

lemma client_inv_running:
  assumes "client_inv cn" "k \<in> set (cn_active cn)" "cn_phase cn k \<noteq> Ended"
  shows "cn_heap cn k \<noteq> None"
proof (cases "cn_reaping cn")
  case True
  then obtain j ks where "cn_active cn = j # ks" "cn_phase cn j = Ended" using client_invD(10) [OF assms(1)] by blast
  then have "k \<in> set (live_active cn)" using True assms(2,3) by (auto simp: live_active_def)
  then show ?thesis using client_invD(2) [OF assms(1)] by blast
qed (use assms client_invD(2) [OF assms(1), of k] in \<open>simp add: live_active_def\<close>)

lemma connected_to_ok:
  "\<forall>k \<in> set ks. cn_heap cn k \<noteq> None \<Longrightarrow>
   connected_to cn IP ks = Inr (IP \<in> (\<lambda>k. nc_serverIP (the (cn_heap cn k))) ` set ks)"
  by (induction ks) (auto simp: heap_get_def)

definition active_ips :: "node_client \<Rightarrow> bytes list" where
  "active_ips cn = map (\<lambda>k. nc_serverIP (the (cn_heap cn k))) (live_active cn)"

text \<open>The scan reads the first entry first, so that it fails when the object of that entry is deleted.\<close>

lemma connected_to_active:
  assumes "client_inv cn"
  shows "connected_to cn IP (cn_active cn) =
    (if cn_reaping cn then Inl Use_after_free else Inr (IP \<in> set (active_ips cn)))"
proof (cases "cn_reaping cn")
  case True
  then show ?thesis using client_invD(10) [OF assms] by (auto simp: heap_get_def)
next
  case False
  then show ?thesis
    using connected_to_ok [of "cn_active cn" cn IP] client_invD(2) [OF assms] by (auto simp: active_ips_def live_active_def)
qed

lemma ConnectToServer_eq:
  assumes "client_inv cn"
  shows "ConnectToServer IP cn =
     (if cn_reaping cn then Inl Use_after_free
      else if IP \<in> set (active_ips cn) then Inr cn else Inr (with_object True IP cn))"
  using connected_to_active [OF assms, of IP] ConnectToServer_new [of cn IP]
  by (auto simp: ConnectToServer_def connect_start_def)

lemma request_eq:
  assumes "client_inv cn"
  shows "request IP cn =
     (if cn_reaping cn then Inl Use_after_free
      else if IP \<in> set (active_ips cn) then Inr cn
      else Inr ((with_object False IP cn)\<lparr>cn_storing := cn_next cn # cn_storing cn\<rparr>))"
  using connected_to_active [OF assms, of IP] connect_start_new [of cn IP]
  by (auto simp: request_def connect_start_def)

text \<open>An object may be replaced by one that keeps what was stored of its thread.\<close>

lemma client_inv_put:
  assumes "client_inv cn" "cn_heap cn k = Some nc" "nc_thread nc' = nc_thread nc"
  shows "client_inv (heap_put k nc' cn)"
  using assms client_invD(9) [OF assms(1,2)] by (auto simp: client_inv_def heap_put_def live_active_def)

lemma client_inv_receiving [simp]: "client_inv (cn\<lparr>cn_receiving := ks\<rparr>) = client_inv cn"
  by (simp add: client_inv_def live_active_def)

lemma client_inv_with_object:
  assumes "client_inv cn"
  shows "client_inv (with_object True IP cn)"
    and "client_inv ((with_object False IP cn)\<lparr>cn_storing := cn_next cn # cn_storing cn\<rparr>)"
proof -
  have old: "cn_next cn \<notin> set (cn_active cn)" using client_invD(3) [OF assms] by blast
  have "client_inv (with_object True IP cn) \<and>
      client_inv ((with_object False IP cn)\<lparr>cn_storing := cn_next cn # cn_storing cn\<rparr>)"
  proof (cases "cn_reaping cn")
    case True
    then obtain k ks where k: "cn_active cn = k # ks" using client_invD(10) [OF assms] by blast
    then have "cn_next cn \<noteq> k" "cn_next cn \<notin> set ks" using old by auto
    then show ?thesis using assms True k by (auto simp: client_inv_def with_object_def live_active_def less_Suc_eq)
  next
    case False
    then show ?thesis using assms by (auto simp: client_inv_def with_object_def live_active_def less_Suc_eq)
  qed
  then show "client_inv (with_object True IP cn)"
    and "client_inv ((with_object False IP cn)\<lparr>cn_storing := cn_next cn # cn_storing cn\<rparr>)" by blast+
qed

lemma client_inv_connect:
  "client_inv cn \<Longrightarrow> ConnectToServer IP cn = Inr cn' \<Longrightarrow> client_inv cn'"
  using client_inv_with_object(1) by (auto simp: ConnectToServer_eq split: if_splits)

lemma client_inv_request:
  "client_inv cn \<Longrightarrow> request IP cn = Inr cn' \<Longrightarrow> client_inv cn'"
  using client_inv_with_object(2) by (auto simp: request_eq split: if_splits)

lemma client_inv_drop:
  assumes "client_inv cn" "k \<notin> set (cn_active cn)"
  shows "client_inv (cn\<lparr>cn_heap := (cn_heap cn)(k := None), cn_phase := (cn_phase cn)(k := Ended)\<rparr>)"
  using assms list.set_sel(2) [of "cn_active cn"] unfolding client_inv_def live_active_def by (auto split: if_splits)

lemma client_inv_activate:
  assumes "client_inv cn" "cn_phase cn k = Connecting IP"
    and "cn_heap cn k = Some nc0" "nc_thread nc = nc_thread nc0"
  shows "client_inv ((heap_put k nc cn)\<lparr>cn_active := cn_active cn @ [k],
           cn_receiving := k # cn_receiving cn, cn_keeping := k # cn_keeping cn,
           cn_phase := (cn_phase cn)(k := Talking)\<rparr>)"
proof -
  have "k \<notin> set (cn_active cn)" "k < cn_next cn"
    using client_invD(4,8) [OF assms(1)] assms(2) by blast+
  then show ?thesis using assms(1,4) client_invD(9) [OF assms(1,3)]
    unfolding client_inv_def heap_put_def live_active_def by (auto split: if_splits)
qed

lemma GetMyIP_not_freed: "fst (GetMyIP ip) \<noteq> Inl Use_after_free"
  by (auto simp: GetMyIP_def Let_def split: option.splits)

lemma connectTo_not_freed: "connectTo env s \<noteq> Inl Use_after_free"
  by (auto simp: connectTo_def Let_def rbind_eq_Inl resolve_def split: option.splits list.splits if_splits)

lemma message_round_keeps:
  "message_round ip os nc = Inr (out, goes, nc') \<Longrightarrow>
   nc_serverIP nc' = nc_serverIP nc \<and> nc_thread nc' = nc_thread nc \<and> nc_client nc' = nc_client nc"
  by (auto simp: message_round_def Let_def split_beta split: if_splits)

lemma keep_alive_round_keeps:
  "keep_alive_round os nc = (out, goes, nc') \<Longrightarrow>
   nc_serverIP nc' = nc_serverIP nc \<and> nc_thread nc' = nc_thread nc \<and> nc_client nc' = nc_client nc"
  by (auto simp: keep_alive_round_def Let_def split_beta split: if_splits)

lemma set_up_keeps [simp]: "nc_thread (set_up IP nc) = nc_thread nc" "nc_serverIP (set_up IP nc) = IP"
  by (simp_all add: set_up_def)

definition safe_step :: "(client_out list \<times> node_client) result \<Rightarrow> bool" where
  "safe_step r \<longleftrightarrow> r \<noteq> Inl Use_after_free \<and> (\<forall>out cn'. r = Inr (out, cn') \<longrightarrow> client_inv cn')"

lemma safe_establish:
  assumes "client_inv cn" "cn_phase cn k = Connecting IP"
  shows "safe_step (initialize_client_connection env has ip os IP k cn)"
proof -
  obtain nc where nc: "cn_heap cn k = Some nc" using client_invD(8) [OF assms] by auto
  have out: "k \<notin> set (cn_active cn)" using client_invD(4) [OF assms(1)] assms(2) by blast
  show ?thesis
  proof (cases "connectTo env (nc_client (set_up IP nc))")
    case (Inl e)
    then show ?thesis using nc connectTo_not_freed [of env "nc_client (set_up IP nc)"]
      by (auto simp: safe_step_def initialize_client_connection_def heap_get_def Let_def)
  next
    case (Inr p)
    then show ?thesis
      using nc client_inv_drop [OF assms(1) out] client_inv_activate [OF assms nc] GetMyIP_not_freed [of ip]
      by (cases p; cases "fst (GetMyIP ip)")
        (auto simp: safe_step_def initialize_client_connection_def heap_get_def Let_def)
  qed
qed

lemma safe_talk:
  assumes "client_inv cn" "cn_phase cn k = Talking"
  shows "safe_step (talk k ip os cn)"
proof -
  have a: "k \<in> set (cn_active cn)" using client_invD(7) [OF assms(1), of k] assms(2) by simp
  then obtain nc where nc: "cn_heap cn k = Some nc" using client_inv_running [OF assms(1)] assms(2) by force
  have "client_inv ((heap_put k nc' cn)\<lparr>cn_phase := (cn_phase cn)(k := ph)\<rparr>)"
    if "ph = Talking \<or> ph = Joining" "nc_thread nc' = nc_thread nc" for nc' ph
    using client_inv_put [OF assms(1) nc that(2)] that(1) a nc unfolding client_inv_def heap_put_def live_active_def
    by (auto split: if_splits)
  moreover have "message_round ip os nc \<noteq> Inl Use_after_free"
    using GetMyIP_not_freed [of ip]
    by (auto simp: message_round_def rbind_eq_Inl Let_def split_beta split: if_splits)
  ultimately show ?thesis using nc
    by (cases "message_round ip os nc") (auto simp: safe_step_def talk_def heap_get_def dest: message_round_keeps)
qed

lemma safe_keep:
  assumes "client_inv cn" "k \<in> set (cn_keeping cn)"
  shows "safe_step (keep k os cn)"
proof -
  have "k \<in> set (cn_active cn)" using client_invD(5) [OF assms] .
  then obtain nc where nc: "cn_heap cn k = Some nc"
    using client_inv_running [OF assms(1)] client_invD(6) [OF assms] by force
  have "client_inv ((heap_put k nc' cn)\<lparr>cn_keeping := removeAll k (cn_keeping cn)\<rparr>)"
    if "nc_thread nc' = nc_thread nc" for nc'
    using client_inv_put [OF assms(1) nc that] unfolding client_inv_def heap_put_def live_active_def by auto
  moreover have "client_inv ((heap_put k nc' cn)\<lparr>cn_keeping := cn_keeping cn\<rparr>)"
    if "nc_thread nc' = nc_thread nc" for nc'
    using client_inv_put [OF assms(1) nc that] unfolding client_inv_def heap_put_def live_active_def by auto
  moreover obtain out goes nc' where r: "keep_alive_round os nc = (out, goes, nc')" by (metis prod_cases3)
  ultimately show ?thesis using nc keep_alive_round_keeps [OF r]
    by (simp add: safe_step_def keep_def heap_get_def)
qed

lemma safe_reap:
  assumes "client_inv cn" "cn_active cn = k # ks" "\<not> cn_reaping cn"
    and "cn_phase cn k = Ended \<or> main_round cn = Some (Inl Null_pointer)" "main_round cn = Some r"
  shows "safe_step (no_output r)"
proof -
  obtain nc where nc: "cn_heap cn k = Some nc"
    using client_invD(2) [OF assms(1), of k] assms(2,3) by (auto simp: live_active_def)
  show ?thesis
  proof (cases "nc_thread nc")
    case True
    then have ended: "cn_phase cn k = Ended"
      using assms(2,4) nc by (auto simp: main_round_def heap_get_def)
    then have "k \<notin> set (cn_keeping cn)" using client_invD(6) [OF assms(1), of k] by auto
    then have "client_inv (cn\<lparr>cn_heap := (cn_heap cn)(k := None), cn_reaping := True\<rparr>)"
      using assms(1,2,3) ended unfolding client_inv_def live_active_def by (auto split: if_splits)
    then show ?thesis using assms(2,5) nc True
      by (auto simp: safe_step_def no_output_def main_round_def heap_get_def)
  qed (use assms(2,5) nc in \<open>auto simp: safe_step_def no_output_def main_round_def heap_get_def\<close>)
qed

lemma main_erase_inv:
  assumes "client_inv cn" "cn_reaping cn"
  shows "client_inv (main_erase cn)"
proof -
  obtain k ks where k: "cn_active cn = k # ks" "cn_phase cn k = Ended"
    using client_invD(10) [OF assms] by blast
  have "j \<in> set ks" if "cn_phase cn j \<in> {Talking, Joining}" for j
    using client_invD(7) [OF assms(1) that] k that by auto
  then show ?thesis using assms k client_invD(5,6) [OF assms(1)]
    by (auto simp: client_inv_def main_erase_def live_active_def)
qed

lemma store_thread_inv:
  assumes "client_inv cn" "store_thread k cn = Inr cn'"
  shows "client_inv cn'"
proof -
  obtain nc where nc: "cn_heap cn k = Some nc"
    and cn': "cn' = heap_put k (nc\<lparr>nc_thread := True\<rparr>) (cn\<lparr>cn_storing := removeAll k (cn_storing cn)\<rparr>)"
    using assms(2) by (auto simp: store_thread_def connect_store_def heap_get_def split: option.splits)
  have "nc_thread (the (cn_heap cn' j)) \<or> j \<in> set (cn_storing cn')" if "cn_heap cn' j \<noteq> None" for j
    using that client_invD(9) [OF assms(1), of j] by (auto simp: cn' heap_put_def split: if_splits)
  then show ?thesis using assms(1) nc by (simp add: client_inv_def cn' heap_put_def live_active_def) auto
qed

lemma client_receives_shape:
  assumes "client_receives C fr cl r k cn = Inr (out, cn')"
  obtains nc tc ks where "cn_heap cn k = Some nc"
    "cn' = heap_put k (nc\<lparr>nc_client := tc\<rparr>) (cn\<lparr>cn_receiving := ks\<rparr>)" "set ks \<subseteq> set (cn_receiving cn)"
proof -
  obtain nc where "cn_heap cn k = Some nc"
    using assms by (auto simp: client_receives_def heap_get_def split: option.splits)
  moreover obtain effs tc rest where "ReceiveTask cl [r] (nc_client nc) = (effs, tc, rest)"
    by (metis prod_cases3)
  ultimately show thesis
    using assms that [of nc tc "if tc_stop tc then removeAll k (cn_receiving cn) else cn_receiving cn"]
    by (auto simp: client_receives_def heap_get_def simp del: ReceiveTask.simps)
qed

lemma client_step_inv:
  assumes "client_inv cn" "client_step C fr cn ev r"
  shows "(\<forall>k cl rr. ev \<noteq> Recv k cl rr \<and> ev \<noteq> Store k) \<and> (\<forall>IP. ev = Request IP \<longrightarrow> \<not> cn_reaping cn) \<longrightarrow>
      r \<noteq> Inl Use_after_free"
    and "\<forall>out cn'. r = Inr (out, cn') \<longrightarrow> client_inv cn'"
proof -
  have "safe_step r \<or> (\<exists>k cl rr. ev = Recv k cl rr \<and> r = client_receives C fr cl rr k cn) \<or>
      (\<exists>k. ev = Store k \<and> r = no_output (store_thread k cn)) \<or>
      (\<exists>IP. ev = Request IP \<and> cn_reaping cn \<and> r = Inl Use_after_free)"
    using assms(2)
  proof cases
    case (request IP)
    then show ?thesis using client_inv_request [OF assms(1), of IP] request_eq [OF assms(1), of IP]
      by (cases "cn_reaping cn") (auto simp: safe_step_def no_output_def)
  next
    case (store k)
    then show ?thesis by blast
  next
    case (join k)
    then have "k \<in> set (cn_active cn)" using client_invD(7) [OF assms(1), of k] by simp
    then show ?thesis using join assms(1) unfolding safe_step_def client_inv_def live_active_def
      by (auto split: if_splits)
  next
    case (establish k IP env has ip os)
    then show ?thesis using safe_establish [OF assms(1)] by simp
  next
    case (talk k ip os)
    then show ?thesis using safe_talk [OF assms(1)] by simp
  next
    case (keep k os)
    then show ?thesis using safe_keep [OF assms(1)] by simp
  next
    case (recv k r' cl)
    then show ?thesis by simp
  next
    case (reap k ks r')
    then show ?thesis using safe_reap [OF assms(1) reap(3,4,5,6)] by simp
  next
    case erase
    then show ?thesis using main_erase_inv [OF assms(1)] by (simp add: safe_step_def)
  qed
  moreover have "client_inv cn'" if "Inr (out, cn') = no_output (store_thread k cn)" for k out cn'
    using that [symmetric] store_thread_inv [OF assms(1), of k cn'] by (auto simp: no_output_def)
  moreover have "client_inv cn'" if "Inr (out, cn') = client_receives C fr cl rr k cn" for k cl rr out cn'
    by (rule client_receives_shape [OF that [symmetric]]) (use assms(1) in \<open>auto intro!: client_inv_put\<close>)
  ultimately show "(\<forall>k cl rr. ev \<noteq> Recv k cl rr \<and> ev \<noteq> Store k) \<and> (\<forall>IP. ev = Request IP \<longrightarrow> \<not> cn_reaping cn) \<longrightarrow>
      r \<noteq> Inl Use_after_free"
    and "\<forall>out cn'. r = Inr (out, cn') \<longrightarrow> client_inv cn'"
    by (auto simp: safe_step_def)
qed

lemma client_reach_inv: "client_reach C fr cn \<Longrightarrow> client_inv cn"
proof (induction rule: client_reach.induct)
  case init
  then show ?case by (simp add: client_inv_def live_active_def NodeClient_new_def)
next
  case (step cn ev out cn')
  then show ?case using client_step_inv(2) [OF step.IH step.hyps(2)] by simp
qed

text \<open>
  C6: whatever the order in which the steps of the client side's threads come, with the scan of
  \<open>ConnectToServer\<close> as one step, a deleted object is never used in setting up a connection, talking,
  keeping alive or in the main loop. Only these can use one: a receive thread; \<open>ConnectToServer\<close> when it
  stores the pointer of the thread it started; and its scan, if it comes between the deletion of an
  object by the main loop and the erasure of its entry.\<close>

theorem client_pointers_valid:
  assumes "client_reach C fr cn" "client_step C fr cn ev r" "r = Inl Use_after_free"
  shows "(\<exists>k. ev = Store k \<or> (\<exists>cl reply. ev = Recv k cl reply)) \<or> (\<exists>IP. ev = Request IP \<and> cn_reaping cn)"
  using client_step_inv(1) [OF client_reach_inv [OF assms(1)] assms(2)] assms(3) by blast


text \<open>
  C38: when the main loop deletes the object of a connection that ended, a receive thread that still
  waits for the server dangles: its next answer is handled through freed memory.\<close>

theorem reaped_receiver_dangles:
  assumes "cn_active cn = k # ks" "k \<in> set (cn_receiving cn)"
    and "client_step C fr cn Reap (Inr (out, cn'))"
    and "client_step C fr cn' (Recv k cl reply) r"
  shows "r = Inl Use_after_free"
proof -
  have "cn_heap cn' k = None"
    using assms(3)
  proof cases
    case (reap k' ks' r)
    then show ?thesis using assms(1)
      by (auto simp: main_round_def no_output_def heap_get_def split: option.splits if_splits)
  qed
  then show ?thesis using assms(4) by (auto elim!: client_step_recvE simp: client_receives_def heap_get_def)
qed

text \<open>
  C28: a connection attempt that fails before \<open>ConnectToServer\<close> has stored the pointer of its thread
  has deleted the object, and the store writes to freed memory.\<close>

theorem failed_attempt_races_store:
  assumes "k \<in> set (cn_storing cn)" "ce_connect env = -1" "ce_inet_aton env = Some a"
    and "client_step C fr cn (Establish k env has ip os) (Inr (out, cn'))"
  shows "client_step C fr cn' (Store k) (Inl Use_after_free)"
proof -
  have "cn_heap cn' k = None \<and> cn_storing cn' = cn_storing cn"
    using assms(4)
  proof cases
    case (establish IP)
    then show ?thesis using assms(2,3)
      by (auto simp: initialize_client_connection_def heap_get_def Let_def connectTo_def resolve_def
          pipe_ret_new_def split: option.splits if_splits)
  qed
  then have "no_output (store_thread k cn') = Inl Use_after_free" "k \<in> set (cn_storing cn')"
    using assms(1) by (simp_all add: store_thread_def connect_store_def heap_get_def no_output_def)
  then show ?thesis using client_step.store [of k cn' C fr] by simp
qed

lemma establish_ok:
  assumes "cn_heap cn k = Some nc0" "ce_socket env \<noteq> -1" "ce_inet_aton env = Some a" "ce_connect env \<noteq> -1"
  shows "\<exists>out cn'. initialize_client_connection env True ip os IP k cn = Inr (out, cn') \<and>
     cn_active cn' = cn_active cn @ [k] \<and> cn_reaping cn' = cn_reaping cn \<and> nc_serverIP (the (cn_heap cn' k)) = IP \<and>
     (\<forall>j. j \<noteq> k \<longrightarrow> cn_heap cn' j = cn_heap cn j) \<and> cn_phase cn' = (cn_phase cn)(k := Talking)"
  using assms
  by (auto simp: initialize_client_connection_def heap_get_def Let_def connectTo_def resolve_def
      pipe_ret_new_def heap_put_def set_up_def)

text \<open>
  C27: a second request for an address whose first connection is still being set up makes a second
  connection: \<open>ConnectToServer\<close> looks at the connections that are up.\<close>

theorem duplicate_connections:
  assumes "client_reach C fr cn" "IP \<notin> set (active_ips cn)"
    and "ConnectToServer IP cn = Inr cn1" "ConnectToServer IP cn1 = Inr cn2"
    and "ce_socket env \<noteq> -1" "ce_inet_aton env = Some a" "ce_connect env \<noteq> -1"
  shows "\<exists>out3 cn3 out4 cn4.
     initialize_client_connection env True ip os IP (cn_next cn) cn2 = Inr (out3, cn3) \<and>
     initialize_client_connection env True ip os IP (cn_next cn1) cn3 = Inr (out4, cn4) \<and>
     active_ips cn4 = active_ips cn @ [IP, IP]"
proof -
  have inv: "client_inv cn" using client_reach_inv [OF assms(1)] .
  have c1: "client_inv cn1" using client_inv_connect [OF inv assms(3)] .
  have cn1: "cn1 = with_object True IP cn" and off: "\<not> cn_reaping cn"
    using assms(2,3) ConnectToServer_eq [OF inv] by (simp_all split: if_splits)
  have old: "k < cn_next cn" if "k \<in> set (cn_active cn)" for k using client_invD(3) [OF inv that] .
  then have ips: "active_ips cn1 = active_ips cn" using cn1 off by (auto simp: active_ips_def live_active_def)
  have cn2: "cn2 = with_object True IP cn1" using assms(2,4) ConnectToServer_eq [OF c1] ips off cn1 by simp
  have heap2: "cn_heap cn2 (cn_next cn) = Some (NClient_new\<lparr>nc_thread := True\<rparr>)"
    "cn_heap cn2 (cn_next cn1) = Some (NClient_new\<lparr>nc_thread := True\<rparr>)"
    "cn_next cn1 = Suc (cn_next cn)" "cn_active cn2 = cn_active cn" by (simp_all add: cn1 cn2)
  obtain out3 cn3 where e3: "initialize_client_connection env True ip os IP (cn_next cn) cn2 = Inr (out3, cn3)"
    and a3: "cn_active cn3 = cn_active cn @ [cn_next cn]" "cn_reaping cn3 = cn_reaping cn2"
    and h3: "nc_serverIP (the (cn_heap cn3 (cn_next cn))) = IP"
      "\<forall>j. j \<noteq> cn_next cn \<longrightarrow> cn_heap cn3 j = cn_heap cn2 j"
    using establish_ok [OF heap2(1) assms(5-7), of ip os IP] heap2(4) by auto
  obtain out4 cn4 where e4: "initialize_client_connection env True ip os IP (cn_next cn1) cn3 = Inr (out4, cn4)"
    and a4: "cn_active cn4 = cn_active cn @ [cn_next cn, cn_next cn1]" "cn_reaping cn4 = cn_reaping cn3"
    and h4: "nc_serverIP (the (cn_heap cn4 (cn_next cn1))) = IP"
      "\<forall>j. j \<noteq> cn_next cn1 \<longrightarrow> cn_heap cn4 j = cn_heap cn3 j"
    using establish_ok [OF _ assms(5-7), of cn3 "cn_next cn1" "NClient_new\<lparr>nc_thread := True\<rparr>" ip os IP] h3(2) heap2 a3 by auto
  have same: "cn_heap cn4 j = cn_heap cn j" if "j \<in> set (cn_active cn)" for j
    using old [OF that] h3(2) h4(2) by (simp add: cn1 cn2)
  have "active_ips cn4 = active_ips cn @ [IP, IP]"
    using h3(1) h4 a3(2) a4 off heap2(3) same by (auto simp: active_ips_def live_active_def cn1 cn2)
  then show ?thesis using e3 e4 by blast
qed

subsection \<open>One connection at a time\<close>

text \<open>
  The schedules on which nobody asks for a connection while another one is being set up.
\<close>

definition settled :: "node_client \<Rightarrow> bool" where
  "settled cn \<longleftrightarrow> (\<forall>k IP. cn_phase cn k \<noteq> Connecting IP)"

inductive settled_reach :: "('pub, 'priv) cryptopp \<Rightarrow> fresh \<Rightarrow> node_client \<Rightarrow> bool" for C fr where
  init: "settled_reach C fr NodeClient_new"
| request: "settled_reach C fr cn \<Longrightarrow> settled cn \<Longrightarrow>
    client_step C fr cn (Request IP) (Inr (out, cn')) \<Longrightarrow> settled_reach C fr cn'"
| other: "settled_reach C fr cn \<Longrightarrow> (\<nexists>IP. ev = Request IP) \<Longrightarrow>
    client_step C fr cn ev (Inr (out, cn')) \<Longrightarrow> settled_reach C fr cn'"

definition ip_inv :: "node_client \<Rightarrow> bool" where
  "ip_inv cn \<longleftrightarrow> distinct (active_ips cn) \<and>
     (\<forall>k IP. cn_phase cn k = Connecting IP \<longrightarrow> IP \<notin> set (active_ips cn)) \<and>
     (\<forall>k k' IP IP'. cn_phase cn k = Connecting IP \<longrightarrow> cn_phase cn k' = Connecting IP' \<longrightarrow> k = k')"

lemma active_ips_put:
  "cn_heap cn k = Some nc \<Longrightarrow> nc_serverIP nc' = nc_serverIP nc \<Longrightarrow>
   active_ips (heap_put k nc' cn) = active_ips cn"
  by (auto simp: active_ips_def live_active_def heap_put_def)

lemma active_ips_fields [simp]:
  "active_ips (cn\<lparr>cn_phase := ph\<rparr>) = active_ips cn"
  "active_ips (cn\<lparr>cn_keeping := ks\<rparr>) = active_ips cn"
  "active_ips (cn\<lparr>cn_receiving := ks\<rparr>) = active_ips cn"
  "active_ips (cn\<lparr>cn_storing := ks\<rparr>) = active_ips cn"
  "active_ips (heap_put k nc (cn\<lparr>cn_receiving := ks\<rparr>)) = active_ips (heap_put k nc cn)"
  by (simp_all add: active_ips_def live_active_def heap_put_def)

lemma heap_put_phase [simp]: "cn_phase (heap_put k nc cn) = cn_phase cn"
  by (simp add: heap_put_def)

text \<open>What a step does to the addresses of the active connections and to the pending ones.\<close>

lemma establish_ips:
  assumes inv: "client_inv cn" and ph: "cn_phase cn k = Connecting IP"
    and e: "initialize_client_connection env has ip os IP k cn = Inr (out, cn')"
  shows "(\<forall>j. j \<noteq> k \<longrightarrow> cn_phase cn' j = cn_phase cn j) \<and> (\<nexists>IP. cn_phase cn' k = Connecting IP) \<and>
         (active_ips cn' = active_ips cn \<or> active_ips cn' = active_ips cn @ [IP])"
proof -
  have out: "k \<notin> set (cn_active cn)" using client_invD(4) [OF inv] ph by blast
  have ne: "cn_reaping cn \<Longrightarrow> tl (cn_active cn @ [k]) = tl (cn_active cn) @ [k]"
    using client_invD(10) [OF inv] by auto
  have "k \<notin> set (live_active cn)" using out by (auto dest: in_tl simp: live_active_def)
  then have ips: "map (\<lambda>j. nc_serverIP (the (if j = k then x else cn_heap cn j))) (live_active cn) = active_ips cn" for x
    by (auto simp: active_ips_def)
  obtain nc where nc: "cn_heap cn k = Some nc" using client_invD(8) [OF inv ph] by auto
  let ?up = "\<lambda>nc'. (heap_put k nc' cn)\<lparr>cn_active := cn_active cn @ [k], cn_receiving := k # cn_receiving cn,
    cn_keeping := k # cn_keeping cn, cn_phase := (cn_phase cn)(k := Talking)\<rparr>"
  have "cn' = cn\<lparr>cn_heap := (cn_heap cn)(k := None), cn_phase := (cn_phase cn)(k := Ended)\<rparr> \<or>
      (\<exists>tc. cn' = ?up ((set_up IP nc)\<lparr>nc_client := tc, nc_alive := True\<rparr>))"
    using e nc by (auto simp: initialize_client_connection_def heap_get_def Let_def split: if_splits)
  then consider "cn' = cn\<lparr>cn_heap := (cn_heap cn)(k := None), cn_phase := (cn_phase cn)(k := Ended)\<rparr>"
    | nc' where "cn' = ?up nc'" "nc_serverIP nc' = IP" by fastforce
  then show ?thesis
  proof cases
    case 1
    then show ?thesis using ips [of None] by (simp add: active_ips_def live_active_def fun_upd_def)
  next
    case 2
    then show ?thesis using ips [of "Some nc'"] ne
      by (auto simp: active_ips_def live_active_def heap_put_def fun_upd_def)
  qed
qed

lemma other_step_ips:
  assumes inv: "client_inv cn" and s: "client_step C fr cn ev (Inr (out, cn'))" and "\<nexists>IP. ev = Request IP"
  shows "(\<forall>k IP. cn_phase cn' k = Connecting IP \<longrightarrow> cn_phase cn k = Connecting IP) \<and>
    (active_ips cn' = active_ips cn \<or> (\<exists>xs. active_ips cn = xs # active_ips cn') \<or>
     (\<exists>k IP. cn_phase cn k = Connecting IP \<and> active_ips cn' = active_ips cn @ [IP] \<and>
        (\<nexists>IP. cn_phase cn' k = Connecting IP)))"
  using s
proof cases
  case (request IP)
  then show ?thesis using assms(3) by simp
next
  case (store k)
  then have "no_output (store_thread k cn) = Inr (out, cn')" by simp
  then obtain nc where "cn_heap cn k = Some nc"
    "cn' = heap_put k (nc\<lparr>nc_thread := True\<rparr>) (cn\<lparr>cn_storing := removeAll k (cn_storing cn)\<rparr>)"
    by (auto simp: no_output_def store_thread_def connect_store_def heap_get_def split: option.splits)
  then show ?thesis by (auto simp: active_ips_def live_active_def heap_put_def)
next
  case (establish k IP env has ip os)
  then show ?thesis using establish_ips [OF inv establish(3) establish(2) [symmetric]] by metis
next
  case (talk k ip os)
  then have "talk k ip os cn = Inr (out, cn')" by simp
  then obtain nc goes nc' where "cn_heap cn k = Some nc" "message_round ip os nc = Inr (out, goes, nc')"
    "cn' = (heap_put k nc' cn)\<lparr>cn_phase := (cn_phase cn)(k := if goes then Talking else Joining)\<rparr>"
    by (auto simp: talk_def heap_get_def split: option.splits)
  then show ?thesis using message_round_keeps active_ips_put by (auto split: if_splits)
next
  case (keep k os)
  then have "keep k os cn = Inr (out, cn')" by simp
  then obtain nc goes nc' where "cn_heap cn k = Some nc" "keep_alive_round os nc = (out, goes, nc')"
    "cn' = (heap_put k nc' cn)\<lparr>cn_keeping := if goes then cn_keeping cn else removeAll k (cn_keeping cn)\<rparr>"
    by (auto simp: keep_def heap_get_def split: option.splits prod.splits)
  then show ?thesis using keep_alive_round_keeps active_ips_put by auto
next
  case (join k)
  then show ?thesis by (auto split: if_splits)
next
  case (recv k r' cl)
  then have "client_receives C fr cl r' k cn = Inr (out, cn')" by simp
  then show ?thesis by (rule client_receives_shape) (use active_ips_put in auto)
next
  case (reap k ks r')
  then have "k \<notin> set ks" using client_invD(1) [OF inv] by simp
  then show ?thesis using reap
    by (auto simp: main_round_def no_output_def heap_get_def active_ips_def live_active_def split: option.splits if_splits)
next
  case erase
  then show ?thesis by (simp add: active_ips_def live_active_def main_erase_def)
qed

lemma settled_reach_client_reach: "settled_reach C fr cn \<Longrightarrow> client_reach C fr cn"
  by (induction rule: settled_reach.induct) (blast intro: client_reach.intros)+

lemma settled_reach_ip_inv: "settled_reach C fr cn \<Longrightarrow> ip_inv cn"
proof (induction rule: settled_reach.induct)
  case init
  then show ?case by (simp add: ip_inv_def active_ips_def live_active_def NodeClient_new_def)
next
  case (request cn IP out cn')
  have inv: "client_inv cn"
    using client_reach_inv settled_reach_client_reach request.hyps(1) by blast
  have "no_output (request IP cn) = Inr (out, cn')"
    using request.hyps(3) by (auto elim: client_step_requestE)
  moreover have "active_ips (with_object False IP cn) = active_ips cn"
    using client_invD(3) [OF inv] by (fastforce dest: in_tl simp: active_ips_def live_active_def)
  ultimately show ?case using request.IH request.hyps(2)
    by (auto simp: no_output_def request_eq [OF inv] ip_inv_def settled_def split: if_splits)
next
  case (other cn ev out cn')
  have inv: "client_inv cn"
    using client_reach_inv settled_reach_client_reach other.hyps(1) by blast
  note s = other_step_ips [OF inv other.hyps(3,2)]
  from s have ph: "\<forall>k IP. cn_phase cn' k = Connecting IP \<longrightarrow> cn_phase cn k = Connecting IP" by blast
  from s consider "active_ips cn' = active_ips cn" | x where "active_ips cn = x # active_ips cn'"
    | k IP where "cn_phase cn k = Connecting IP" "active_ips cn' = active_ips cn @ [IP]"
      "\<nexists>IP. cn_phase cn' k = Connecting IP" by blast
  then show ?case
  proof cases
    case 3
    have "cn_phase cn' j \<noteq> Connecting IP'" for j IP'
      using other.IH ph 3 unfolding ip_inv_def by blast
    moreover have "IP \<notin> set (active_ips cn)" "distinct (active_ips cn)"
      using other.IH 3(1) unfolding ip_inv_def by blast+
    ultimately show ?thesis using 3(2) by (simp add: ip_inv_def)
  qed (use other.IH ph in \<open>auto simp: ip_inv_def\<close>)
qed

text \<open>
  C13: when no connection is asked for while another is being set up, a node never has two
  connections to one address.\<close>

theorem settled_connections_distinct:
  assumes "settled_reach C fr cn"
  shows "distinct (map (\<lambda>k. map_option nc_serverIP (cn_heap cn k)) (cn_active cn))"
proof -
  have inv: "client_inv cn" using client_reach_inv settled_reach_client_reach assms by blast
  have "map (\<lambda>k. map_option nc_serverIP (cn_heap cn k)) (live_active cn) = map Some (active_ips cn)"
    using client_invD(2) [OF inv] by (force simp: active_ips_def)
  moreover have "distinct (map Some (active_ips cn))"
    using settled_reach_ip_inv [OF assms] by (simp add: ip_inv_def distinct_map)
  ultimately have d: "distinct (map (\<lambda>k. map_option nc_serverIP (cn_heap cn k)) (live_active cn))" by (simp only:)
  show ?thesis
  proof (cases "cn_reaping cn")
    case True
    then obtain k ks where k: "cn_active cn = k # ks" "cn_heap cn k = None" "live_active cn = ks"
      using client_invD(10) [OF inv] by (auto simp: live_active_def)
    then have "None \<notin> set (map (\<lambda>k. map_option nc_serverIP (cn_heap cn k)) ks)"
      using client_invD(2) [OF inv] by fastforce
    then show ?thesis using d k by simp
  qed (use d in \<open>simp add: live_active_def\<close>)
qed

subsection \<open>A concrete run\<close>

text \<open>
  A node connects to one server, fails to send it a message and joins the threads; its receive
  thread still waits.
\<close>

definition demo_ip :: ip_replies where
  "demo_ip = \<lparr>re_socket = 3, re_connect = 0, re_getsockname = 0, re_inet_ntop = Some (lit ''10.0.0.2'')\<rparr>"

definition demo_nclient :: "bool \<Rightarrow> nclient" where
  "demo_nclient alive = \<lparr>nc_serverIP = lit ''10.0.0.1'',
     nc_client = \<lparr>tc_sockfd = 7, tc_stop = False, tc_subscribers = [node_client_observer],
                  tc_receiveTask = True\<rparr>,
     nc_observer = node_client_observer, nc_thread = True, nc_alive = alive\<rparr>"

text \<open>The object before it is connected, with its thread's pointer stored or not.\<close>

definition demo_fresh_nclient :: "bool \<Rightarrow> nclient" where
  "demo_fresh_nclient stored = NClient_new\<lparr>nc_thread := stored\<rparr>"

definition demo_cn :: "nclient \<Rightarrow> nat list \<Rightarrow> phase \<Rightarrow> nat list \<Rightarrow> nat list \<Rightarrow> node_client" where
  "demo_cn nc act ph keeping receiving = \<lparr>cn_heap = [0 \<mapsto> nc], cn_next = 1, cn_active = act, cn_reaping = False,
     cn_phase = (\<lambda>_. Ended)(0 := ph), cn_storing = [], cn_keeping = keeping, cn_receiving = receiving\<rparr>"

lemmas demo_cn_defs = demo_cn_def demo_nclient_def demo_fresh_nclient_def NodeClient_new_def demo_ip_def
  demo_connect_def NClient_new_def TcpClient_new_def

abbreviation demo_asked :: node_client where
  "demo_asked \<equiv> demo_cn (demo_fresh_nclient False) [] (Connecting (lit ''10.0.0.1'')) [] []\<lparr>cn_storing := [0]\<rparr>"

abbreviation demo_pending :: node_client where
  "demo_pending \<equiv> demo_cn (demo_fresh_nclient True) [] (Connecting (lit ''10.0.0.1'')) [] []"

abbreviation demo_up :: node_client where
  "demo_up \<equiv> demo_cn (demo_nclient True) [0] Talking [0] [0]"

abbreviation demo_over :: node_client where
  "demo_over \<equiv> demo_cn (demo_nclient False) [0] Ended [] [0]"

lemma demo_request: "client_step C fr NodeClient_new (Request (lit ''10.0.0.1'')) (Inr ([], demo_asked))"
  using client_step.request [of C fr NodeClient_new "lit ''10.0.0.1''"]
  by (simp add: no_output_def request_def connect_start_def demo_cn_defs)

lemma demo_store: "client_step C fr demo_asked (Store 0) (Inr ([], demo_pending))"
  using client_step.store [of 0 demo_asked C fr]
  by (simp add: no_output_def store_thread_def connect_store_def heap_get_def heap_put_def demo_cn_defs)

lemma demo_establish:
  "\<exists>out. client_step C fr demo_pending (Establish 0 demo_connect True demo_ip (0, [])) (Inr (out, demo_up))"
  using client_step.establish [of demo_pending 0 "lit ''10.0.0.1''" C fr demo_connect True demo_ip "(0, [])"]
  by (auto simp: demo_cn_defs initialize_client_connection_def heap_get_def Let_def set_up_def connectTo_def
      resolve_def pipe_ret_new_def client_subscribe_def heap_put_def)

lemma demo_talk:
  "\<exists>out. client_step C fr demo_up (Talk 0 demo_ip (-1, []))
     (Inr (out, demo_cn (demo_nclient False) [0] Joining [0] [0]))"
  using client_step.talk [of demo_up 0 C fr demo_ip "(-1, [])"]
  by (auto simp: demo_cn_defs talk_def heap_get_def message_round_def GetMyIP_def nc_SendMessage_def
      sendMsg_def Let_def heap_put_def)

lemma demo_keep:
  "client_step C fr (demo_cn (demo_nclient False) [0] Joining [0] [0])
     (Keep 0 (0, [])) (Inr ([], demo_cn (demo_nclient False) [0] Joining [] [0]))"
  using client_step.keep [of 0 "demo_cn (demo_nclient False) [0] Joining [0] [0]" C fr "(0, [])"]
  by (auto simp: demo_cn_defs keep_def heap_get_def keep_alive_round_def heap_put_def)

lemma demo_join:
  "client_step C fr (demo_cn (demo_nclient False) [0] Joining [] [0]) (Join 0) (Inr ([], demo_over))"
  using client_step.join [of "demo_cn (demo_nclient False) [0] Joining [] [0]" 0 C fr]
  by (auto simp: demo_cn_def)

lemma demo_reap:
  "\<exists>cn'. client_step C fr demo_over Reap (Inr ([], cn')) \<and> cn_receiving cn' = [0] \<and> cn_heap cn' 0 = None \<and>
     cn_reaping cn'"
  using client_step.reap [of demo_over 0 "[]" _ C fr]
  by (auto simp: demo_cn_def main_round_def heap_get_def no_output_def demo_nclient_def)

lemma demo_reach: "client_reach C fr demo_over"
proof -
  note r = client_reach.step
  obtain out1 out2 where
    e: "client_step C fr demo_pending (Establish 0 demo_connect True demo_ip (0, [])) (Inr (out1, demo_up))"
    and t: "client_step C fr demo_up (Talk 0 demo_ip (-1, []))
      (Inr (out2, demo_cn (demo_nclient False) [0] Joining [0] [0]))"
    using demo_establish demo_talk by metis
  show ?thesis
    by (rule r [OF r [OF r [OF r [OF r [OF r [OF client_reach.init demo_request] demo_store] e] t] demo_keep] demo_join])
qed

lemma client_pointers_valid_witness:
  "\<exists>cn. client_reach toy_crypto demo_fresh cn \<and>
     client_step toy_crypto demo_fresh cn (Recv 0 (0, []) Peer_closed) (Inl Use_after_free) \<and>
     ((\<exists>k. Recv 0 (0, []) Peer_closed = Store k \<or> (\<exists>cl reply. Recv 0 (0, []) Peer_closed = Recv k cl reply)) \<or>
      (\<exists>IP. Recv 0 (0, []) Peer_closed = Request IP \<and> cn_reaping cn))"
proof -
  obtain cn' where s: "client_step toy_crypto demo_fresh demo_over Reap (Inr ([], cn'))"
    and cn': "cn_receiving cn' = [0]" "cn_heap cn' 0 = None"
    using demo_reap by blast
  have r: "client_reach toy_crypto demo_fresh cn'" by (rule client_reach.step [OF demo_reach s])
  have f: "client_step toy_crypto demo_fresh cn' (Recv 0 (0, []) Peer_closed) (Inl Use_after_free)"
    using client_step.recv [of 0 cn' Peer_closed toy_crypto demo_fresh "(0, [])"] cn'
    by (simp add: client_receives_def heap_get_def)
  show ?thesis using client_pointers_valid [OF r f refl] r f by blast
qed


lemma reaped_receiver_dangles_witness:
  "\<exists>cn'. client_step toy_crypto demo_fresh demo_over Reap (Inr ([], cn')) \<and>
     client_step toy_crypto demo_fresh cn' (Recv 0 (0, []) Peer_closed) (Inl Use_after_free)"
proof -
  obtain cn' where s: "client_step toy_crypto demo_fresh demo_over Reap (Inr ([], cn'))"
    and cn': "cn_receiving cn' = [0]" "cn_heap cn' 0 = None"
    using demo_reap by blast
  have f: "client_step toy_crypto demo_fresh cn' (Recv 0 (0, []) Peer_closed)
      (client_receives toy_crypto demo_fresh (0, []) Peer_closed 0 cn')"
    using cn' by (intro client_step.recv) simp_all
  have "client_receives toy_crypto demo_fresh (0, []) Peer_closed 0 cn' = Inl Use_after_free"
    by (rule reaped_receiver_dangles [OF _ _ s f]) (simp_all add: demo_cn_def)
  with s f show ?thesis by metis
qed

lemma failed_attempt_races_store_witness:
  "\<exists>out cn'. client_reach toy_crypto demo_fresh demo_asked \<and>
     client_step toy_crypto demo_fresh demo_asked
       (Establish 0 (demo_connect\<lparr>ce_connect := -1\<rparr>) True demo_ip (0, [])) (Inr (out, cn')) \<and>
     client_step toy_crypto demo_fresh cn' (Store 0) (Inl Use_after_free)"
proof -
  have r: "client_reach toy_crypto demo_fresh demo_asked"
    by (rule client_reach.step [OF client_reach.init demo_request])
  obtain out cn' where e: "client_step toy_crypto demo_fresh demo_asked
      (Establish 0 (demo_connect\<lparr>ce_connect := -1\<rparr>) True demo_ip (0, [])) (Inr (out, cn'))"
    using client_step.establish [of demo_asked 0 "lit ''10.0.0.1''" toy_crypto demo_fresh
        "demo_connect\<lparr>ce_connect := -1\<rparr>" True demo_ip "(0, [])"]
    by (auto simp: demo_cn_defs initialize_client_connection_def heap_get_def Let_def set_up_def connectTo_def
        resolve_def pipe_ret_new_def client_subscribe_def)
  have "client_step toy_crypto demo_fresh cn' (Store 0) (Inl Use_after_free)"
    by (rule failed_attempt_races_store [OF _ _ _ e]) (simp_all add: demo_connect_def)
  with r e show ?thesis by blast
qed

lemma duplicate_connections_witness:
  "\<exists>cn1 cn2 out3 cn3 out4 cn4. ConnectToServer [1] NodeClient_new = Inr cn1 \<and>
     ConnectToServer [1] cn1 = Inr cn2 \<and>
     initialize_client_connection demo_connect True demo_ip (0, []) [1] 0 cn2 = Inr (out3, cn3) \<and>
     initialize_client_connection demo_connect True demo_ip (0, []) [1] 1 cn3 = Inr (out4, cn4) \<and>
     active_ips cn4 = [[1], [1]]"
proof -
  have r: "client_reach toy_crypto demo_fresh NodeClient_new" by (rule client_reach.init)
  have no: "[1] \<notin> set (active_ips NodeClient_new)" "active_ips NodeClient_new = []"
    by (simp_all add: active_ips_def live_active_def NodeClient_new_def)
  obtain cn1 where c1: "ConnectToServer [1] NodeClient_new = Inr cn1" and a1: "cn_next cn1 = 1" "cn_active cn1 = []"
    using ConnectToServer_new [of NodeClient_new "[1]"] by (simp add: NodeClient_new_def)
  then obtain cn2 where c2: "ConnectToServer [1] cn1 = Inr cn2"
    using ConnectToServer_new [of cn1 "[1]"] by simp
  have env: "ce_socket demo_connect \<noteq> -1" "ce_inet_aton demo_connect = Some 0x0100007F"
    "ce_connect demo_connect \<noteq> -1" by (simp_all add: demo_connect_def)
  from duplicate_connections [OF r no(1) c1 c2 env, of demo_ip "(0, [])"] c1 c2 a1 no(2) show ?thesis
    by (simp add: NodeClient_new_def)
qed

lemma settled_connections_distinct_witness:
  "distinct (map (\<lambda>k. map_option nc_serverIP (cn_heap demo_up k)) [0])"
proof -
  obtain out where
    e: "client_step toy_crypto demo_fresh demo_pending (Establish 0 demo_connect True demo_ip (0, []))
      (Inr (out, demo_up))"
    using demo_establish by metis
  have a: "settled_reach toy_crypto demo_fresh demo_asked"
    by (rule settled_reach.request [OF settled_reach.init _ demo_request]) (simp add: settled_def NodeClient_new_def)
  have b: "settled_reach toy_crypto demo_fresh demo_pending"
    by (rule settled_reach.other [OF a _ demo_store]) simp
  have "settled_reach toy_crypto demo_fresh demo_up"
    by (rule settled_reach.other [OF b _ e]) simp
  from settled_connections_distinct [OF this] show ?thesis by (simp add: demo_cn_def)
qed

end
