(* ===== verification/ClientEnd.thy ===== *)
theory ClientEnd
  imports ClientThreads
begin

section \<open>client.cpp: how the client side comes to an end\<close>

text \<open>
  The steps of ClientThreads that do not fail, as a step relation of the theory Runs: its runs are the
  reachable states, its invariant that of ClientThreads, and every state has a run in which all
  connections fail, all threads return and the main loop deletes every object. The main loop by itself,
  once the threads of all connections have returned.
\<close>

subsection \<open>Steps and runs\<close>

definition client_next ::
  "('pub, 'priv) cryptopp \<Rightarrow> fresh \<Rightarrow> node_client \<Rightarrow> client_event \<Rightarrow> node_client \<Rightarrow> bool" where
  "client_next C fr cn ev cn' \<longleftrightarrow> (\<exists>out. client_step C fr cn ev (Inr (out, cn')))"

lemma client_nextI: "client_step C fr cn ev (Inr (out, cn')) \<Longrightarrow> client_next C fr cn ev cn'"
  by (auto simp: client_next_def)

interpretation client: step_invariant "client_next C fr" client_inv for C fr
proof unfold_locales
  show "client_inv cn'" if "client_inv cn" "client_next C fr cn ev cn'" for cn ev cn'
    using client_step_inv(2) [OF that(1), of C fr ev] that(2) by (auto simp: client_next_def)
qed

lemma client_reach_run: "client_reach C fr cn \<longleftrightarrow> (\<exists>es. run (client_next C fr) NodeClient_new es cn)"
proof
  show "\<exists>es. run (client_next C fr) NodeClient_new es cn" if "client_reach C fr cn"
    using that
  proof (induction rule: client_reach.induct)
    case init
    show ?case by (rule exI [of _ "[]"]) simp
  next
    case (step cn ev out cn')
    then show ?case by (blast intro: run_snoc client_nextI)
  qed
  have "client_reach C fr cn" if "run (client_next C fr) cn0 es cn" "client_reach C fr cn0" for cn0 es
    using that by (induction rule: run.induct) (auto simp: client_next_def intro: client_reach.step)
  then show "client_reach C fr cn" if "\<exists>es. run (client_next C fr) NodeClient_new es cn"
    using that client_reach.init by blast
qed

subsection \<open>What is left to do\<close>

text \<open>
  The measure counts what the threads of an object have left to do when its connection fails, the
  objects in \<open>active_clients\<close> to delete and to erase, and the stores and keep-alive threads under way.
\<close>

fun phase_left :: "phase \<Rightarrow> nat" where
  "phase_left (Connecting IP) = 1"
| "phase_left Talking = 2"
| "phase_left Joining = 1"
| "phase_left Ended = 0"

definition work_left :: "node_client \<Rightarrow> nat" where
  "work_left cn = (\<Sum>k<cn_next cn. phase_left (cn_phase cn k)) + length (cn_active cn) +
     length (live_active cn) + length (cn_storing cn) + length (cn_keeping cn)"

definition client_over :: "node_client \<Rightarrow> bool" where
  "client_over cn \<longleftrightarrow> cn_active cn = [] \<and> settled cn"

lemma sum_phase_update:
  fixes n :: nat
  assumes "k < n" "phase_left q < phase_left (ph k)"
  shows "(\<Sum>j<n. phase_left ((ph(k := q)) j)) < (\<Sum>j<n. phase_left (ph j))"
proof (rule sum_strict_mono_ex1)
  show "\<exists>j\<in>{..<n}. phase_left ((ph(k := q)) j) < phase_left (ph j)" using assms by (auto intro!: bexI [of _ k])
qed (use assms in \<open>auto simp: fun_upd_apply\<close>)

lemma work_left_phase:
  assumes "k < cn_next cn" "phase_left q < phase_left (cn_phase cn k)"
    and "cn_next cn' = cn_next cn" "cn_phase cn' = (cn_phase cn)(k := q)" "cn_active cn' = cn_active cn"
      "cn_reaping cn' = cn_reaping cn" "cn_storing cn' = cn_storing cn" "cn_keeping cn' = cn_keeping cn"
  shows "work_left cn' < work_left cn"
  using sum_phase_update [of k "cn_next cn" q "cn_phase cn"] assms by (simp add: work_left_def live_active_def)

text \<open>A connection that cannot be made, a message and a heartbeat that cannot be sent.\<close>

definition dead_env :: connect_env where
  "dead_env = \<lparr>ce_socket = -1, ce_inet_aton = None, ce_host = None, ce_connect = -1, ce_error = []\<rparr>"

definition working_ip :: ip_replies where
  "working_ip = \<lparr>re_socket = 3, re_connect = 0, re_getsockname = 0, re_inet_ntop = Some []\<rparr>"

lemma pending_fails:
  assumes "client_inv cn" "cn_phase cn k = Connecting IP"
  shows "\<exists>ev cn'. client_next C fr cn ev cn' \<and> work_left cn' < work_left cn"
proof -
  obtain nc where nc: "cn_heap cn k = Some nc" and k: "k < cn_next cn" using client_invD(8) [OF assms] by auto
  let ?cn = "cn\<lparr>cn_heap := (cn_heap cn)(k := None), cn_phase := (cn_phase cn)(k := Ended)\<rparr>"
  obtain out where "initialize_client_connection dead_env True working_ip (-1, []) IP k cn = Inr (out, ?cn)"
    using nc by (simp add: initialize_client_connection_def heap_get_def Let_def connectTo_def dead_env_def)
  then have "client_next C fr cn (Establish k dead_env True working_ip (-1, [])) ?cn"
    using client_step.establish [OF assms(2), of C fr dead_env True working_ip "(-1, [])"] client_nextI by metis
  moreover have "work_left ?cn < work_left cn"
    using k assms(2) by (intro work_left_phase [of k _ Ended]) simp_all
  ultimately show ?thesis by blast
qed

lemma talking_fails:
  assumes "client_inv cn" "cn_phase cn k = Talking"
  shows "\<exists>ev cn'. client_next C fr cn ev cn' \<and> work_left cn' < work_left cn"
proof -
  have a: "k \<in> set (cn_active cn)" using client_invD(7) [OF assms(1), of k] assms(2) by simp
  then obtain nc where nc: "cn_heap cn k = Some nc" and k: "k < cn_next cn"
    using client_inv_running [OF assms(1)] client_invD(3) [OF assms(1)] assms(2) by force
  have "\<exists>out nc'. message_round working_ip (-1, []) nc = Inr (out, False, nc')"
    by (auto simp: message_round_def working_ip_def GetMyIP_def nc_SendMessage_def sendMsg_def Let_def)
  then obtain out nc' where "message_round working_ip (-1, []) nc = Inr (out, False, nc')" by blast
  then have "talk k working_ip (-1, []) cn =
      Inr (out, (heap_put k nc' cn)\<lparr>cn_phase := (cn_phase cn)(k := Joining)\<rparr>)"
    using nc by (simp add: talk_def heap_get_def)
  then have "client_next C fr cn (Talk k working_ip (-1, []))
      ((heap_put k nc' cn)\<lparr>cn_phase := (cn_phase cn)(k := Joining)\<rparr>)"
    using client_step.talk [OF assms(2), of C fr working_ip "(-1, [])"] client_nextI by metis
  moreover have "work_left ((heap_put k nc' cn)\<lparr>cn_phase := (cn_phase cn)(k := Joining)\<rparr>) < work_left cn"
    using k assms(2) by (intro work_left_phase [of k _ Joining]) (simp_all add: heap_put_def)
  ultimately show ?thesis by blast
qed

lemma keeping_fails:
  assumes "client_inv cn" "k \<in> set (cn_keeping cn)"
  shows "\<exists>ev cn'. client_next C fr cn ev cn' \<and> work_left cn' < work_left cn"
proof -
  obtain nc where nc: "cn_heap cn k = Some nc"
    using client_inv_running [OF assms(1) client_invD(5) [OF assms]] client_invD(6) [OF assms] by force
  have "\<exists>out nc'. keep_alive_round (-1, []) nc = (out, False, nc')"
    by (auto simp: keep_alive_round_def nc_SendMessage_def sendMsg_def)
  then obtain out nc' where "keep_alive_round (-1, []) nc = (out, False, nc')" by blast
  then have "keep k (-1, []) cn =
      Inr (out, (heap_put k nc' cn)\<lparr>cn_keeping := removeAll k (cn_keeping cn)\<rparr>)"
    using nc by (simp add: keep_def heap_get_def)
  then have "client_next C fr cn (Keep k (-1, []))
      ((heap_put k nc' cn)\<lparr>cn_keeping := removeAll k (cn_keeping cn)\<rparr>)"
    using client_step.keep [OF assms(2), of C fr "(-1, [])"] client_nextI by metis
  moreover have "work_left ((heap_put k nc' cn)\<lparr>cn_keeping := removeAll k (cn_keeping cn)\<rparr>) < work_left cn"
    using assms(2) by (simp add: work_left_def live_active_def heap_put_def length_removeAll_less)
  ultimately show ?thesis by blast
qed

lemma joining_ends:
  assumes "client_inv cn" "cn_phase cn k = Joining" "k \<notin> set (cn_keeping cn)"
  shows "\<exists>ev cn'. client_next C fr cn ev cn' \<and> work_left cn' < work_left cn"
proof -
  have "k < cn_next cn" using client_invD(3) [OF assms(1) client_invD(7) [OF assms(1)]] assms(2) by simp
  then have "work_left (cn\<lparr>cn_phase := (cn_phase cn)(k := Ended)\<rparr>) < work_left cn"
    using assms(2) by (intro work_left_phase [of k _ Ended]) simp_all
  then show ?thesis using client_nextI [OF client_step.join [OF assms(2,3)]] by blast
qed

lemma stored_later:
  assumes "k \<in> set (cn_storing cn)" "cn_heap cn k = Some nc"
  shows "\<exists>ev cn'. client_next C fr cn ev cn' \<and> work_left cn' < work_left cn"
proof -
  let ?cn = "heap_put k (nc\<lparr>nc_thread := True\<rparr>) (cn\<lparr>cn_storing := removeAll k (cn_storing cn)\<rparr>)"
  have "store_thread k cn = Inr ?cn" using assms(2) by (simp add: store_thread_def connect_store_def heap_get_def)
  then have "client_step C fr cn (Store k) (Inr ([], ?cn))"
    using client_step.store [OF assms(1), of C fr] by (simp add: no_output_def)
  moreover have "work_left ?cn < work_left cn"
    using assms(1) by (simp add: work_left_def live_active_def heap_put_def length_removeAll_less)
  ultimately show ?thesis using client_nextI by blast
qed

lemma ended_reaped:
  assumes "cn_active cn = k # ks" "\<not> cn_reaping cn" "cn_phase cn k = Ended" "cn_heap cn k = Some nc" "nc_thread nc"
  shows "\<exists>ev cn'. client_next C fr cn ev cn' \<and> work_left cn' < work_left cn"
proof -
  let ?cn = "cn\<lparr>cn_heap := (cn_heap cn)(k := None), cn_reaping := True\<rparr>"
  have "main_round cn = Some (Inr ?cn)" using assms by (simp add: main_round_def heap_get_def)
  then have "client_step C fr cn Reap (Inr ([], ?cn))"
    using client_step.reap [OF assms(1,2), of "Inr ?cn" C fr] assms(3) by (simp add: no_output_def)
  moreover have "work_left ?cn < work_left cn" using assms(1,2) by (simp add: work_left_def live_active_def)
  ultimately show ?thesis using client_nextI by blast
qed

lemma reaped_erased:
  assumes "client_inv cn" "cn_reaping cn"
  shows "\<exists>ev cn'. client_next C fr cn ev cn' \<and> work_left cn' < work_left cn"
proof -
  have "work_left (main_erase cn) < work_left cn"
    using client_invD(10) [OF assms] assms(2) by (auto simp: work_left_def live_active_def main_erase_def)
  then show ?thesis using client_nextI [OF client_step.erase [OF assms(2)]] by blast
qed

interpretation client: drainable "client_next C fr" client_inv client_over work_left for C fr
proof unfold_locales
  fix cn assume inv: "client_inv cn" and "\<not> client_over cn"
  then consider k IP where "cn_phase cn k = Connecting IP" | "cn_reaping cn"
    | k ks where "cn_active cn = k # ks" "\<not> cn_reaping cn"
    by (auto simp: client_over_def settled_def neq_Nil_conv)
  then show "\<exists>ev cn'. client_next C fr cn ev cn' \<and> work_left cn' < work_left cn"
  proof cases
    case 1
    then show ?thesis by (rule pending_fails [OF inv])
  next
    case 2
    then show ?thesis by (rule reaped_erased [OF inv])
  next
    case 3
    then obtain nc where nc: "cn_heap cn k = Some nc"
      using client_invD(2) [OF inv, of k] by (auto simp: live_active_def)
    show ?thesis
    proof (cases "cn_phase cn k")
      case Joining
      then show ?thesis using joining_ends [OF inv] keeping_fails [OF inv] by (cases "k \<in> set (cn_keeping cn)") blast+
    next
      case Ended
      then show ?thesis using ended_reaped [OF 3 Ended nc] stored_later [OF _ nc] client_invD(9) [OF inv nc] by blast
    qed (use pending_fails [OF inv] talking_fails [OF inv] in blast)+
  qed
qed

text \<open>
  C14: from every state the client side of a node can reach, it can come to its end: when connections
  and sends fail from then on, the threads return and the main loop deletes every object, in at most
  as many steps as the measure of the state says, none of which fails.\<close>

theorem client_can_end:
  assumes "client_reach C fr cn"
  shows "\<exists>es cn'. run (client_next C fr) cn es cn' \<and> length es \<le> work_left cn \<and>
     client_reach C fr cn' \<and> main_round cn' = None \<and> settled cn'"
proof -
  obtain es cn' where r: "run (client_next C fr) cn es cn'" "client_over cn'" "length es \<le> work_left cn"
    using client.drains [OF client_reach_inv [OF assms], of C fr] by blast
  moreover have "client_reach C fr cn'"
    using assms r(1) unfolding client_reach_run by (meson run_append)
  moreover have "main_round cn' = None" "settled cn'" using r(2) by (simp_all add: client_over_def main_round_def)
  ultimately show ?thesis by blast
qed

subsection \<open>The main loop\<close>

text \<open>
  The loop of \<open>Init\<close> while no other thread moves: the first component is False when it is left waiting
  in a join, of a thread that still runs. The join of a null pointer does not wait. The loop ends as
  every round makes \<open>active_clients\<close> shorter.
\<close>

definition join_returns :: "node_client \<Rightarrow> bool" where
  "join_returns cn = (case cn_active cn of
     [] \<Rightarrow> True | k # ks \<Rightarrow> cn_phase cn k = Ended \<or> main_round cn = Some (Inl Null_pointer))"

lemma main_round_active:
  "main_round cn = Some (Inr cn') \<Longrightarrow> cn_active cn \<noteq> [] \<and> cn_active cn' = cn_active cn"
  by (auto simp: main_round_def split: list.splits if_splits elim!: Inr_rbindE)

function main_loop :: "node_client \<Rightarrow> (bool \<times> node_client) result" where
  "main_loop cn =
     (if \<not> join_returns cn then Inr (False, cn)
      else case main_round cn of
        None \<Rightarrow> Inr (True, cn)
      | Some (Inl e) \<Rightarrow> Inl e
      | Some (Inr cn') \<Rightarrow> main_loop (main_erase cn'))"
  by pat_completeness auto

termination
  by (relation "measure (\<lambda>cn. length (cn_active cn))")
    (auto simp: main_erase_def dest!: main_round_active)

declare main_loop.simps [simp del]

definition threads_stored :: "node_client \<Rightarrow> bool" where
  "threads_stored cn \<longleftrightarrow> distinct (cn_active cn) \<and> \<not> cn_reaping cn \<and>
     (\<forall>k \<in> set (cn_active cn). \<exists>nc. cn_heap cn k = Some nc \<and> nc_thread nc)"

definition reaped :: "node_client \<Rightarrow> node_client" where
  "reaped cn = cn\<lparr>cn_heap := (cn_heap cn)(hd (cn_active cn) := None), cn_active := tl (cn_active cn)\<rparr>"

lemma threads_stored_round:
  assumes "threads_stored cn" "cn_active cn = k # ks"
  shows "\<exists>cn'. main_round cn = Some (Inr cn') \<and> main_erase cn' = reaped cn"
    and "join_returns cn \<longleftrightarrow> cn_phase cn k = Ended"
    and "threads_stored (reaped cn)" "cn_active (reaped cn) = ks" "cn_phase (reaped cn) = cn_phase cn"
  using assms by (auto simp: threads_stored_def main_round_def main_erase_def heap_get_def join_returns_def reaped_def)

text \<open>The connections before the first one whose thread still runs.\<close>

definition over_first :: "node_client \<Rightarrow> nat list" where
  "over_first cn = takeWhile (\<lambda>k. cn_phase cn k = Ended) (cn_active cn)"

lemma main_loop_over_first:
  "threads_stored cn \<Longrightarrow>
   main_loop cn = Inr (over_first cn = cn_active cn,
     cn\<lparr>cn_heap := cn_heap cn |` (- set (over_first cn)), cn_active := drop (length (over_first cn)) (cn_active cn)\<rparr>)"
proof (induction "cn_active cn" arbitrary: cn)
  case Nil
  then show ?case by (simp add: main_loop.simps main_round_def join_returns_def over_first_def restrict_map_def)
next
  case (Cons k ks)
  note act = Cons.hyps(2) [symmetric]
  note round = threads_stored_round [OF Cons.prems act]
  show ?case
  proof (cases "cn_phase cn k = Ended")
    case True
    have o: "over_first cn = k # over_first (reaped cn)"
      using True act round(4,5) by (simp add: over_first_def)
    have "main_loop cn = main_loop (reaped cn)"
      using round(1,2) True by (auto simp: main_loop.simps [of cn])
    also have "\<dots> = Inr (over_first (reaped cn) = ks, reaped cn\<lparr>cn_heap := cn_heap (reaped cn) |` (- set (over_first (reaped cn))),
        cn_active := drop (length (over_first (reaped cn))) ks\<rparr>)"
      using Cons.hyps(1) [of "reaped cn"] round(3-4) by simp
    also have "cn_heap (reaped cn) |` (- set (over_first (reaped cn))) = cn_heap cn |` (- set (over_first cn))"
      unfolding o reaped_def by (auto simp: restrict_map_def act)
    finally show ?thesis using o act by (simp add: reaped_def)
  next
    case False
    then show ?thesis using round(2) act
      by (simp add: main_loop.simps [of cn] over_first_def restrict_map_def)
  qed
qed

text \<open>
  C15: the main loop always comes to an end or to a join that waits. From every state in which the
  pointers of all threads are stored, and while no other thread moves, it deletes the objects of the
  connections before the first one whose thread still runs, and no other, and waits for that thread: a
  connection that is over keeps its object as long as one before it is up. It returns exactly when
  the threads of all active connections have returned.\<close>

theorem main_loop_stops_at_first_running:
  assumes "client_reach C fr cn" "cn_storing cn = []" "\<not> cn_reaping cn"
    and "gone = takeWhile (\<lambda>k. cn_phase cn k = Ended) (cn_active cn)"
  shows "main_loop cn = Inr (\<forall>k \<in> set (cn_active cn). cn_phase cn k = Ended,
     cn\<lparr>cn_heap := cn_heap cn |` (- set gone), cn_active := drop (length gone) (cn_active cn)\<rparr>)"
proof -
  have inv: "client_inv cn" by (rule client_reach_inv [OF assms(1)])
  have "\<exists>nc. cn_heap cn k = Some nc \<and> nc_thread nc" if "k \<in> set (cn_active cn)" for k
    using client_invD(2) [OF inv, of k] client_invD(9) [OF inv, of k] assms(2,3) that by (auto simp: live_active_def)
  then have "threads_stored cn" using client_invD(1) [OF inv] assms(3) by (simp add: threads_stored_def)
  from main_loop_over_first [OF this] show ?thesis
    unfolding assms(4) over_first_def takeWhile_eq_all_conv .
qed

subsection \<open>A concrete run\<close>

lemma client_can_end_witness:
  "\<exists>es cn'. run (client_next toy_crypto demo_fresh) demo_over es cn' \<and> length es \<le> 2 \<and>
     client_reach toy_crypto demo_fresh cn' \<and> main_round cn' = None \<and> settled cn'"
proof -
  have "work_left demo_over = 2" by (simp add: work_left_def live_active_def demo_cn_def)
  with client_can_end [OF demo_reach, of toy_crypto demo_fresh] show ?thesis by simp
qed

text \<open>A connection that is over: the loop deletes its object and returns. One that is up: it waits.\<close>

lemma demo_up_reach: "client_reach C fr demo_up"
proof -
  obtain out where e: "client_step C fr demo_pending (Establish 0 demo_connect True demo_ip (0, [])) (Inr (out, demo_up))"
    using demo_establish by metis
  show ?thesis
    by (rule client_reach.step [OF client_reach.step [OF client_reach.step [OF client_reach.init demo_request] demo_store] e])
qed

lemma main_loop_stops_at_first_running_witness:
  "(\<exists>cn. main_loop demo_over = Inr (True, cn) \<and> cn_active cn = [] \<and> cn_heap cn 0 = None) \<and>
   (\<exists>cn. main_loop demo_up = Inr (False, cn) \<and> cn_active cn = [0] \<and> cn_heap cn 0 \<noteq> None)"
proof -
  note over = main_loop_stops_at_first_running [OF demo_reach [of toy_crypto demo_fresh] _ _ refl]
  note up = main_loop_stops_at_first_running [OF demo_up_reach [of toy_crypto demo_fresh] _ _ refl]
  have d: "cn_active demo_over = [0]" "cn_phase demo_over 0 = Ended" "cn_active demo_up = [0]"
    "cn_phase demo_up 0 = Talking" "cn_heap demo_up 0 \<noteq> None"
    by (simp_all add: demo_cn_def)
  have s: "cn_storing demo_over = []" "\<not> cn_reaping demo_over" "cn_storing demo_up = []" "\<not> cn_reaping demo_up"
    by (simp_all add: demo_cn_def)
  from over [OF s(1,2)] up [OF s(3,4)] d show ?thesis by simp
qed

end
