(* ===== verification/Node.thy ===== *)
theory Node
  imports ClientEnd
begin

section \<open>server.cpp, client.cpp: a whole node\<close>

text \<open>
  A node runs \<open>NodeServer::Init\<close> and \<open>NodeClient::Init\<close> in two threads. The state is that of both
  sides; a step is a step of one of their threads: the heartbeat, client and miner loops, the receive
  threads of the server, the main thread of the client side and the threads of its connections. The two
  sides meet where a poke makes the server call \<open>ConnectToServer\<close>, and where a connection that is up
  asks the server for \<open>HasClientWithIP\<close>. The runs of a node project to runs of its two sides.
\<close>

subsection \<open>State\<close>

text \<open>
  The main thread of the client side has not opened the file of peers, has these lines of it left, or
  has returned; with no lines left it is in its main loop. A thread that is in \<open>ConnectToServer\<close>
  and has started a thread there, but not stored its pointer, is in \<open>nd_calls\<close> with the object.
\<close>

datatype main_thread = Unopened | Lines "bytes list" | Returned

datatype caller = Main | Receiver nat

record node =
  nd_server :: node_server
  nd_tasks :: "task list"
  nd_serving :: bool
  nd_mining :: bool
  nd_client :: node_client
  nd_main :: main_thread
  nd_calls :: "(caller \<times> nat) list"

definition node_new :: node where
  "node_new = \<lparr>nd_server = NServer_new, nd_tasks = [], nd_serving = False, nd_mining = False,
               nd_client = NodeClient_new, nd_main = Unopened, nd_calls = []\<rparr>"

datatype node_out = Server_out node_effect | Client_out client_out

datatype node_event =
    Init_server start_env
  | Heartbeats
  | Accept accept_env
  | Mine nat fresh "nat \<Rightarrow> u64" "nat \<Rightarrow> int \<times> bytes"
  | Begin_receive nat
  | Receive nat recv_reply
  | Open_peers "bytes option"
  | Next_peer
  | Reap_first
  | Erase_first
  | Main_over
  | Client client_event

subsection \<open>Steps\<close>

definition calling :: "caller \<Rightarrow> node \<Rightarrow> bool" where
  "calling who nd \<longleftrightarrow> who \<in> fst ` set (nd_calls nd)"

text \<open>A thread calls \<open>ConnectToServer\<close>: up to the start of the new thread, if it makes one.\<close>

definition ask :: "caller \<Rightarrow> bytes \<Rightarrow> node \<Rightarrow> node result" where
  "ask who IP nd =
     rbind (request IP (nd_client nd)) (\<lambda>cn.
     Inr (nd\<lparr>nd_client := cn,
             nd_calls := (if cn_next cn = cn_next (nd_client nd) then nd_calls nd
                          else (who, cn_next (nd_client nd)) # nd_calls nd)\<rparr>))"

fun connects :: "node_effect list \<Rightarrow> bytes list" where
  "connects [] = []"
| "connects (Connect_to IP # es) = IP # connects es"
| "connects (e # es) = connects es"

fun ask_all :: "caller \<Rightarrow> bytes list \<Rightarrow> node \<Rightarrow> node result" where
  "ask_all who [] nd = Inr nd"
| "ask_all who (IP # IPs) nd = rbind (ask who IP nd) (ask_all who IPs)"

text \<open>An answer of \<open>recv\<close> to the receive thread \<open>i\<close> of the server, whose client is at \<open>p\<close>.\<close>

definition node_receives :: "nat \<Rightarrow> client_ptr \<Rightarrow> recv_reply \<Rightarrow> node \<Rightarrow> (node_out list \<times> node) result" where
  "node_receives i p reply nd =
     rbind (server_receives p reply (nd_server nd)) (\<lambda>(out, goes, ns).
     rbind (ask_all (Receiver i) (connects out) (nd\<lparr>nd_server := ns\<rparr>)) (\<lambda>nd.
     rbind (if goes then resume p i (ns_tserver ns) (nd_tasks nd)
            else Inr (ns_tserver ns, (nd_tasks nd)[i := Finished])) (\<lambda>(_, tasks).
     Inr (map Server_out out, nd\<lparr>nd_tasks := tasks\<rparr>))))"

text \<open>
  The steps of the connections' threads. \<open>HasClientWithIP\<close> is answered by the server of the node; a
  request or a round of the main loop is not a step of its own.
\<close>

definition own_step :: "node \<Rightarrow> client_event \<Rightarrow> bool" where
  "own_step nd ev \<longleftrightarrow> (case ev of
     Request IP \<Rightarrow> False
   | Reap \<Rightarrow> False
   | Erase \<Rightarrow> False
   | Establish k env has ip os \<Rightarrow>
       (case cn_phase (nd_client nd) k of Connecting IP \<Rightarrow> has = HasClientWithIP (nd_server nd) IP | _ \<Rightarrow> False)
   | _ \<Rightarrow> True)"

definition client_moves :: "client_event \<Rightarrow> node \<Rightarrow> (client_out list \<times> node_client) result \<Rightarrow> (node_out list \<times> node) result" where
  "client_moves ev nd r =
     rbind r (\<lambda>(out, cn).
     Inr (map Client_out out,
          nd\<lparr>nd_client := cn, nd_calls := filter (\<lambda>(who, k). ev \<noteq> Store k) (nd_calls nd)\<rparr>))"

inductive node_step ::
  "('pub, 'priv) cryptopp \<Rightarrow> fresh \<Rightarrow> (nat \<Rightarrow> nat) \<Rightarrow> node \<Rightarrow> node_event \<Rightarrow> (node_out list \<times> node) result \<Rightarrow> bool"
  for C fr grow where
  init_server: "\<not> nd_serving nd \<Longrightarrow>
    node_step C fr grow nd (Init_server env)
      (rbind (NodeServer_setup env (nd_server nd)) (\<lambda>ns.
       Inr ([], nd\<lparr>nd_server := ns, nd_serving := True, nd_mining := True\<rparr>)))"
| heartbeats: "nd_serving nd \<Longrightarrow>
    node_step C fr grow nd Heartbeats
      (rbind (heartbeat_round (nd_server nd)) (\<lambda>(out, ns). Inr (map Server_out out, nd\<lparr>nd_server := ns\<rparr>)))"
| accept: "nd_serving nd \<Longrightarrow>
    node_step C fr grow nd (Accept env)
      (rbind (client_round grow env (nd_server nd)) (\<lambda>(out, ns).
       Inr (map Server_out out, nd\<lparr>nd_server := ns, nd_tasks := nd_tasks nd @ [Starting]\<rparr>)))"
| mine: "nd_mining nd \<Longrightarrow> mine_loop C rng mfr clock os (nd_server nd) = Inr (Some out) \<Longrightarrow>
    node_step C fr grow nd (Mine rng mfr clock os) (Inr (map Server_out out, nd\<lparr>nd_mining := False\<rparr>))"
| mine_fails: "nd_mining nd \<Longrightarrow> mine_loop C rng mfr clock os (nd_server nd) = Inl e \<Longrightarrow>
    node_step C fr grow nd (Mine rng mfr clock os) (Inl e)"
| begin_receive: "i < length (nd_tasks nd) \<Longrightarrow> nd_tasks nd ! i = Starting \<Longrightarrow>
    node_step C fr grow nd (Begin_receive i)
      (rbind (back_ptr (ns_tserver (nd_server nd))) (\<lambda>p.
       rbind (resume p i (ns_tserver (nd_server nd)) (nd_tasks nd)) (\<lambda>(_, tasks).
       Inr ([], nd\<lparr>nd_tasks := tasks\<rparr>))))"
| receive: "i < length (nd_tasks nd) \<Longrightarrow> nd_tasks nd ! i = Waiting p \<Longrightarrow> recv_ok reply \<Longrightarrow>
    \<not> calling (Receiver i) nd \<Longrightarrow>
    node_step C fr grow nd (Receive i reply) (node_receives i p reply nd)"
| open_peers: "nd_main nd = Unopened \<Longrightarrow>
    node_step C fr grow nd (Open_peers file)
      (rbind (peer_lines file) (\<lambda>IPs. Inr ([], nd\<lparr>nd_main := Lines IPs\<rparr>)))"
| next_peer: "nd_main nd = Lines (IP # IPs) \<Longrightarrow> \<not> calling Main nd \<Longrightarrow>
    node_step C fr grow nd Next_peer (rbind (ask Main IP (nd\<lparr>nd_main := Lines IPs\<rparr>)) (\<lambda>nd. Inr ([], nd)))"
| reap_first: "nd_main nd = Lines [] \<Longrightarrow> \<not> calling Main nd \<Longrightarrow>
    client_step C fr (nd_client nd) Reap r \<Longrightarrow>
    node_step C fr grow nd Reap_first (client_moves Reap nd r)"
| erase_first: "nd_main nd = Lines [] \<Longrightarrow> client_step C fr (nd_client nd) Erase r \<Longrightarrow>
    node_step C fr grow nd Erase_first (client_moves Erase nd r)"
| main_over: "nd_main nd = Lines [] \<Longrightarrow> \<not> calling Main nd \<Longrightarrow> main_round (nd_client nd) = None \<Longrightarrow>
    node_step C fr grow nd Main_over (Inr ([], nd\<lparr>nd_main := Returned\<rparr>))"
| client: "own_step nd ev \<Longrightarrow> client_step C fr (nd_client nd) ev r \<Longrightarrow>
    node_step C fr grow nd (Client ev) (client_moves ev nd r)"

inductive_cases node_step_receiveE: "node_step C fr grow nd (Receive i reply) r"
inductive_cases node_step_heartbeatsE: "node_step C fr grow nd Heartbeats r"
inductive_cases node_step_establishE: "node_step C fr grow nd (Client (Establish k env has ip os)) r"

definition node_next ::
  "('pub, 'priv) cryptopp \<Rightarrow> fresh \<Rightarrow> (nat \<Rightarrow> nat) \<Rightarrow> node \<Rightarrow> node_event \<Rightarrow> node \<Rightarrow> bool" where
  "node_next C fr grow nd ev nd' \<longleftrightarrow> (\<exists>out. node_step C fr grow nd ev (Inr (out, nd')))"

lemma node_nextI: "node_step C fr grow nd ev (Inr (out, nd')) \<Longrightarrow> node_next C fr grow nd ev nd'"
  by (auto simp: node_next_def)

subsection \<open>The two sides of a node\<close>

lemma ask_shape:
  assumes "ask who IP nd = Inr nd'"
  obtains cn calls where "request IP (nd_client nd) = Inr cn" "nd' = nd\<lparr>nd_client := cn, nd_calls := calls\<rparr>"
  using assms by (auto simp: ask_def)

lemma request_next: "request IP cn = Inr cn' \<Longrightarrow> client_next C fr cn (Request IP) cn'"
  using client_step.request [of C fr cn IP] by (auto simp: no_output_def client_next_def)

lemma ask_all_shape:
  assumes "ask_all who IPs nd = Inr nd'"
  obtains fs cn calls where "run (client_next C fr) (nd_client nd) fs cn"
    "nd' = nd\<lparr>nd_client := cn, nd_calls := calls\<rparr>"
proof -
  have "\<exists>fs cn calls. run (client_next C fr) (nd_client nd) fs cn \<and> nd' = nd\<lparr>nd_client := cn, nd_calls := calls\<rparr>"
    using assms
  proof (induction IPs arbitrary: nd)
    case Nil
    then show ?case by (intro exI [of _ "[]"] exI [of _ "nd_client nd"] exI [of _ "nd_calls nd"]) simp
  next
    case (Cons IP IPs)
    then obtain nd1 where 1: "ask who IP nd = Inr nd1" "ask_all who IPs nd1 = Inr nd'" by auto
    obtain cn1 calls1 where r: "request IP (nd_client nd) = Inr cn1"
      and nd1: "nd1 = nd\<lparr>nd_client := cn1, nd_calls := calls1\<rparr>"
      by (rule ask_shape [OF 1(1)])
    from Cons.IH [OF 1(2)] obtain fs cn calls where "run (client_next C fr) cn1 fs cn"
      "nd' = nd\<lparr>nd_client := cn, nd_calls := calls\<rparr>"
      unfolding nd1 by auto
    then have "run (client_next C fr) (nd_client nd) (Request IP # fs) cn"
      using request_next [OF r, of C fr] by (blast intro: run_Cons)
    with \<open>nd' = _\<close> show ?case by blast
  qed
  then show thesis using that by blast
qed

lemma node_receives_shape:
  assumes "node_receives i p reply nd = Inr (out, nd')"
  obtains effs goes ns nd1 ts where "server_receives p reply (nd_server nd) = Inr (effs, goes, ns)"
    "ask_all (Receiver i) (connects effs) (nd\<lparr>nd_server := ns\<rparr>) = Inr nd1"
    "(if goes then resume p i (ns_tserver ns) (nd_tasks nd1) else Inr (ns_tserver ns, (nd_tasks nd1)[i := Finished]))
       = Inr (ns_tserver ns, ts)"
    "nd' = nd1\<lparr>nd_tasks := ts\<rparr>" "out = map Server_out effs"
proof -
  have "\<exists>effs goes ns nd1 s ts. server_receives p reply (nd_server nd) = Inr (effs, goes, ns) \<and>
    ask_all (Receiver i) (connects effs) (nd\<lparr>nd_server := ns\<rparr>) = Inr nd1 \<and>
    (if goes then resume p i (ns_tserver ns) (nd_tasks nd1) else Inr (ns_tserver ns, (nd_tasks nd1)[i := Finished]))
       = Inr (s, ts) \<and> nd' = nd1\<lparr>nd_tasks := ts\<rparr> \<and> out = map Server_out effs"
    using assms by (fastforce simp: node_receives_def)
  then obtain effs goes ns nd1 s ts where r: "server_receives p reply (nd_server nd) = Inr (effs, goes, ns)"
    "ask_all (Receiver i) (connects effs) (nd\<lparr>nd_server := ns\<rparr>) = Inr nd1"
    "(if goes then resume p i (ns_tserver ns) (nd_tasks nd1) else Inr (ns_tserver ns, (nd_tasks nd1)[i := Finished]))
       = Inr (s, ts)"
    "nd' = nd1\<lparr>nd_tasks := ts\<rparr>" "out = map Server_out effs" by blast
  then have "s = ns_tserver ns" by (auto dest: resume_table split: if_splits)
  then show thesis using that r by simp
qed

text \<open>The client side of a node makes steps of ClientThreads.\<close>

lemma client_moves_next:
  assumes "client_step C fr (nd_client nd) ev r" "client_moves ev nd r = Inr (out, nd')"
  shows "client_next C fr (nd_client nd) ev (nd_client nd')"
  using assms by (auto simp: client_moves_def client_next_def)

lemma run_one: "step s e s' \<Longrightarrow> \<exists>es. run step s es s'"
  using run_single [of step s e s'] by blast

lemma run_none: "s = s' \<Longrightarrow> \<exists>es. run step s es s'"
  by (intro exI [of _ "[]"]) simp

lemma node_client_part:
  assumes "node_next C fr grow nd ev nd'"
  shows "\<exists>fs. run (client_next C fr) (nd_client nd) fs (nd_client nd')"
proof -
  obtain out where "node_step C fr grow nd ev (Inr (out, nd'))" using assms by (auto simp: node_next_def)
  then show ?thesis
  proof cases
    case (receive i p reply)
    then obtain effs goes ns nd1 ts where
      "ask_all (Receiver i) (connects effs) (nd\<lparr>nd_server := ns\<rparr>) = Inr nd1" "nd' = nd1\<lparr>nd_tasks := ts\<rparr>"
      by (metis node_receives_shape)
    then show ?thesis by (auto elim!: ask_all_shape [where C = C and fr = fr])
  next
    case (next_peer IP IPs)
    then obtain nd1 where a: "ask Main IP (nd\<lparr>nd_main := Lines IPs\<rparr>) = Inr nd1" "nd' = nd1"
      by (auto elim!: Inr_rbindE)
    show ?thesis
      by (rule ask_shape [OF a(1)], rule run_one [where e = "Request IP"]) (use a in \<open>auto intro: request_next\<close>)
  next
    case (reap_first r)
    then show ?thesis by (metis client_moves_next run_one)
  next
    case (erase_first r)
    then show ?thesis by (metis client_moves_next run_one)
  next
    case (client ev' r)
    then show ?thesis by (metis client_moves_next run_one)
  qed (auto elim!: Inr_rbindE intro!: run_none)
qed

interpretation node_client: projected_invariant "node_next C fr grow" nd_client "client_next C fr" client_inv
  for C fr grow
  by unfold_locales (rule node_client_part)

text \<open>The TCP server of a node and its receive threads make steps of ServerThreads.\<close>

definition tcp_part :: "node \<Rightarrow> net_config" where
  "tcp_part nd = (ns_tserver (nd_server nd), nd_tasks nd)"

lemma ReceiveMessage_tserver:
  "NodeServer_ReceiveMessage c m ns = Inr (out, ns') \<Longrightarrow>
   ns_tserver ns' = ns_tserver ns \<and> ns_connected ns' = ns_connected ns"
  by (auto simp: NodeServer_ReceiveMessage_def split: if_splits)

lemma run_effects_tserver:
  "run_effects es ns = Inr (out, ns') \<Longrightarrow> ns_tserver ns' = ns_tserver ns \<and> ns_connected ns' = ns_connected ns"
proof (induction es arbitrary: ns out)
  case (Cons e es)
  then show ?case
    by (cases e) (fastforce split: if_splits dest: ReceiveMessage_tserver)+
qed simp

lemma heartbeat_from_moves:
  "heartbeat_from es ns = Inr (out, ns') \<Longrightarrow>
   \<exists>ms. run (server_next grow) (ns_tserver ns, ts) ms (ns_tserver ns', ts)"
proof (induction es arbitrary: ns out)
  case Nil
  then show ?case by (auto intro: run_none)
next
  case (Cons e es)
  obtain IP c where e: "e = (IP, c)" by (cases e)
  show ?case
  proof (cases "map_find (ns_heartbeats ns) IP = None")
    case True
    then obtain c' effs t o1 ns1 o2 where k: "killClient c (ns_tserver ns) = Inr (c', effs, t)"
      and r: "run_effects effs (ns\<lparr>ns_tserver := t\<rparr>) = Inr (o1, ns1)"
      and h: "heartbeat_from es (ns1\<lparr>ns_connected := map_erase IP (ns_connected ns1)\<rparr>) = Inr (o2, ns')"
      using Cons.prems e by auto
    have t: "ns_tserver ns1 = t" using run_effects_tserver [OF r] by simp
    have "server_next grow (ns_tserver ns, ts) (Move (Ev_kill c)) (t, ts)"
      using server_step.kill [of grow "ns_tserver ns" ts c] k by (auto simp: server_next_def)
    moreover obtain ms where "run (server_next grow) (t, ts) ms (ns_tserver ns', ts)"
      using Cons.IH [OF h] t by auto
    ultimately show ?thesis by (blast intro: run_Cons)
  next
    case False
    then show ?thesis using Cons e by auto
  qed
qed

lemma server_receives_moves:
  assumes "server_receives p reply ns = Inr (effs, goes, ns')"
    and "(if goes then resume p i (ns_tserver ns') ts else Inr (ns_tserver ns', ts[i := Finished])) = Inr (ns_tserver ns', ts')"
    and "i < length ts" "ts ! i = Waiting p" "recv_ok reply"
  shows "server_next grow (ns_tserver ns, ts) (Move (Ev_reply i reply)) (ns_tserver ns', ts')"
proof -
  obtain calls t where r: "receive_reply p reply (ns_tserver ns) = Inr (calls, goes, t)"
    and "run_effects calls (ns\<lparr>ns_tserver := t\<rparr>) = Inr (effs, ns')"
    using assms(1) by (auto simp: server_receives_def)
  then have "t = ns_tserver ns'" using run_effects_tserver by fastforce
  then show ?thesis
    using server_step.reply [OF assms(3-5), of grow "ns_tserver ns"] r assms(2)
    by (cases goes) (auto simp: server_next_def)
qed

lemma client_round_accepts:
  assumes "client_round grow env ns = Inr (out, ns')"
  obtains c where "acceptClient grow 0 env (ns_tserver ns) = Inr (c, ns_tserver ns')" "ae_accept env \<noteq> -1"
    "c = accepted env" "ns_connected ns' = map_set (ae_ip env) (accepted env) (ns_connected ns)"
    "ns_heartbeats ns' = map_set (ae_ip env) True (ns_heartbeats ns)"
proof -
  have fd: "ae_accept env \<noteq> -1"
    using assms by (auto simp: client_round_def acceptClient_def Let_def isConnected_def Client_new_def split: if_splits)
  obtain c t where a: "acceptClient grow 0 env (ns_tserver ns) = Inr (c, t)"
    and n: "ns' = ns\<lparr>ns_tserver := t, ns_connected := map_set (c_ip c) c (ns_connected ns),
      ns_heartbeats := map_set (c_ip c) True (ns_heartbeats ns)\<rparr>"
    using assms by (auto simp: client_round_def split: if_splits)
  have "c = accepted env" using a fd by (auto simp: acceptClient_def Let_def accepted_def)
  then show thesis using that a fd n by (simp add: accepted_def)
qed

lemma setup_moves:
  assumes "NodeServer_setup env ns = Inr ns'"
  obtains ret t where "start env (ns_tserver ns) = Inr (ret, t)" "ns' = ns\<lparr>ns_tserver := subscribe node_observer t\<rparr>"
  using assms by (auto simp: NodeServer_setup_def split: if_splits)

lemma node_tcp_part:
  assumes "node_next C fr grow nd ev nd'"
  shows "\<exists>ms. run (server_next grow) (tcp_part nd) ms (tcp_part nd')"
proof -
  obtain out where "node_step C fr grow nd ev (Inr (out, nd'))" using assms by (auto simp: node_next_def)
  then show ?thesis
  proof cases
    case (init_server env)
    then obtain ns where s: "NodeServer_setup env (nd_server nd) = Inr ns" "nd_server nd' = ns" "nd_tasks nd' = nd_tasks nd"
      by (auto elim!: Inr_rbindE)
    obtain ret t where t: "start env (ns_tserver (nd_server nd)) = Inr (ret, t)" "ns_tserver ns = subscribe node_observer t"
      by (rule setup_moves [OF s(1)]) simp
    have "server_next grow (tcp_part nd) (Begin_server env) (t, nd_tasks nd)"
      "server_next grow (t, nd_tasks nd) (Observe node_observer) (tcp_part nd')"
      using t s by (auto simp: server_next_def tcp_part_def)
    then show ?thesis by (meson run_Cons run_Nil)
  next
    case heartbeats
    then obtain ns o1 where "heartbeat_from (ns_connected (nd_server nd)) (nd_server nd) = Inr (o1, ns)"
      "ns_tserver (nd_server nd') = ns_tserver ns" "nd_tasks nd' = nd_tasks nd"
      by (auto simp: heartbeat_round_def elim!: Inr_rbindE)
    then show ?thesis using heartbeat_from_moves unfolding tcp_part_def by metis
  next
    case (accept env)
    then obtain o1 ns where "client_round grow env (nd_server nd) = Inr (o1, ns)"
      and n: "nd_server nd' = ns" "nd_tasks nd' = nd_tasks nd @ [Starting]"
      by (auto elim!: Inr_rbindE)
    then obtain c where "acceptClient grow 0 env (ns_tserver (nd_server nd)) = Inr (c, ns_tserver ns)" "ae_accept env \<noteq> -1"
      by (metis client_round_accepts)
    then have "server_next grow (tcp_part nd) (Move (Ev_accept env)) (tcp_part nd')"
      using server_step.accept [of grow "ns_tserver (nd_server nd)" "nd_tasks nd" env] n
      by (auto simp: server_next_def tcp_part_def)
    then show ?thesis by (rule run_one)
  next
    case (begin_receive i)
    then obtain p s ts where b: "back_ptr (ns_tserver (nd_server nd)) = Inr p"
      "resume p i (ns_tserver (nd_server nd)) (nd_tasks nd) = Inr (s, ts)" "nd' = nd\<lparr>nd_tasks := ts\<rparr>"
      by (auto elim!: Inr_rbindE)
    then have "server_next grow (tcp_part nd) (Move (Ev_start i)) (tcp_part nd')"
      using server_step.start [OF begin_receive(3,4), of grow "ns_tserver (nd_server nd)"] resume_table [OF b(2)]
      by (auto simp: server_next_def tcp_part_def)
    then show ?thesis by (rule run_one)
  next
    case (receive i p reply)
    then obtain effs goes ns nd1 ts where sr: "server_receives p reply (nd_server nd) = Inr (effs, goes, ns)"
      "ask_all (Receiver i) (connects effs) (nd\<lparr>nd_server := ns\<rparr>) = Inr nd1"
      "(if goes then resume p i (ns_tserver ns) (nd_tasks nd1) else Inr (ns_tserver ns, (nd_tasks nd1)[i := Finished]))
         = Inr (ns_tserver ns, ts)" "nd' = nd1\<lparr>nd_tasks := ts\<rparr>"
      by (metis node_receives_shape)
    have same: "nd_server nd1 = ns" "nd_tasks nd1 = nd_tasks nd"
      by (rule ask_all_shape [OF sr(2), of C fr]; simp)+
    then have "server_next grow (tcp_part nd) (Move (Ev_reply i reply)) (tcp_part nd')"
      using server_receives_moves [OF sr(1) sr(3) [unfolded same] receive(3,4,5), of grow] sr(4)
      by (simp add: tcp_part_def)
    then show ?thesis by (rule run_one)
  next
    case (next_peer IP IPs)
    then have "ask Main IP (nd\<lparr>nd_main := Lines IPs\<rparr>) = Inr nd'" by (auto elim!: Inr_rbindE)
    then show ?thesis by (auto elim!: ask_shape intro!: run_none simp: tcp_part_def)
  next
    case (reap_first r)
    then show ?thesis by (auto simp: client_moves_def tcp_part_def elim!: Inr_rbindE intro!: run_none)
  next
    case (erase_first r)
    then show ?thesis by (auto simp: client_moves_def tcp_part_def elim!: Inr_rbindE intro!: run_none)
  next
    case (client ev' r)
    then show ?thesis by (auto simp: client_moves_def tcp_part_def elim!: Inr_rbindE intro!: run_none)
  qed (auto simp: tcp_part_def elim!: Inr_rbindE intro!: run_none)
qed

interpretation node_tcp: projected_invariant "node_next C fr grow" tcp_part "server_next grow" table_ok
  for C fr grow
  by unfold_locales (rule node_tcp_part)

subsection \<open>What every step keeps of the server\<close>

text \<open>
  The two maps are ordered by address, an entry of \<open>connected_clients\<close> is a client of that address whose
  flag is set and which owns no thread, and the observer is registered once.
\<close>

definition server_typed :: "node_server \<Rightarrow> bool" where
  "server_typed ns \<longleftrightarrow> ordered (ns_connected ns) \<and> ordered (ns_heartbeats ns) \<and>
     (\<forall>(IP, c) \<in> set (ns_connected ns).
        c_ip c = IP \<and> c_isConnected c = Some True \<and> c_threadHandler c = None)"

definition node_typed :: "node \<Rightarrow> bool" where
  "node_typed nd \<longleftrightarrow> server_typed (nd_server nd) \<and>
     ts_subscribers (ns_tserver (nd_server nd)) = (if nd_serving nd then [node_observer] else []) \<and>
     (\<not> nd_serving nd \<longrightarrow> ts_clients (ns_tserver (nd_server nd)) = [])"

lemma server_typed_tserver [simp]: "server_typed (ns\<lparr>ns_tserver := t\<rparr>) = server_typed ns"
  by (simp add: server_typed_def)

lemma ReceiveMessage_typed:
  "NodeServer_ReceiveMessage c m ns = Inr (out, ns') \<Longrightarrow> server_typed ns \<Longrightarrow> server_typed ns'"
  using ReceiveMessage_state [of c m ns out ns'] by (simp add: server_typed_def)

lemma run_effects_typed: "run_effects es ns = Inr (out, ns') \<Longrightarrow> server_typed ns \<Longrightarrow> server_typed ns'"
proof (induction es arbitrary: ns out)
  case (Cons e es)
  then show ?case by (cases e) (fastforce split: if_splits dest: ReceiveMessage_typed)+
qed simp

lemma set_map_erase: "set (map_erase k m) \<subseteq> set m"
  by (auto simp: map_erase_def)

lemma set_map_set: "set (map_set k v m) \<subseteq> insert (k, v) (set m)"
  by (induction m) (auto split: if_splits)

lemma heartbeat_from_typed:
  "heartbeat_from es ns = Inr (out, ns') \<Longrightarrow> server_typed ns \<Longrightarrow>
   server_typed ns' \<and> ts_subscribers (ns_tserver ns') = ts_subscribers (ns_tserver ns)"
proof (induction es arbitrary: ns out)
  case (Cons e es)
  obtain IP c where e: "e = (IP, c)" by (cases e)
  show ?case
  proof (cases "map_find (ns_heartbeats ns) IP = None")
    case True
    then obtain c' effs t o1 ns1 o2 where k: "killClient c (ns_tserver ns) = Inr (c', effs, t)"
      and r: "run_effects effs (ns\<lparr>ns_tserver := t\<rparr>) = Inr (o1, ns1)"
      and h: "heartbeat_from es (ns1\<lparr>ns_connected := map_erase IP (ns_connected ns1)\<rparr>) = Inr (o2, ns')"
      using Cons.prems e by auto
    have "ts_subscribers t = ts_subscribers (ns_tserver ns)"
      using k deleteClient_other_fields by (fastforce simp: killClient_def Let_def)
    moreover have "server_typed ns1" using run_effects_typed [OF r] Cons.prems(2) by simp
    then have "server_typed (ns1\<lparr>ns_connected := map_erase IP (ns_connected ns1)\<rparr>)"
      using set_map_erase [of IP "ns_connected ns1"] by (auto simp: server_typed_def ordered_map_erase)
    ultimately show ?thesis using Cons.IH [OF h] run_effects_tserver [OF r] by simp
  next
    case False
    then show ?thesis using Cons e by auto
  qed
qed simp

lemma client_round_typed:
  assumes "client_round grow env ns = Inr (out, ns')" "server_typed ns"
  shows "server_typed ns'"
proof -
  obtain c where "ns_connected ns' = map_set (ae_ip env) (accepted env) (ns_connected ns)"
    "ns_heartbeats ns' = map_set (ae_ip env) True (ns_heartbeats ns)"
    by (rule client_round_accepts [OF assms(1)])
  then show ?thesis
    using assms(2) set_map_set [of "ae_ip env" "accepted env" "ns_connected ns"]
    by (auto simp: server_typed_def ordered_map_set accepted_def Client_new_def)
qed

lemma reallocate_subscribers: "reallocate n s = Inr s' \<Longrightarrow> ts_subscribers s' = ts_subscribers s"
  by (auto simp: reallocate_def)

lemma start_subscribers: "start env s = Inr (ret, s') \<Longrightarrow> ts_subscribers s' = ts_subscribers s"
  by (auto simp: start_def reserve_def Let_def dest!: reallocate_subscribers split: if_splits)

lemma accept_subscribers: "acceptClient grow t env s = Inr (c, s') \<Longrightarrow> ts_subscribers s' = ts_subscribers s"
  by (auto simp: acceptClient_def Let_def push_back_def setThreadHandler_def
      dest!: reallocate_subscribers split: if_splits)

lemma reply_subscribers: "receive_reply p r s = Inr (effs, goes, s') \<Longrightarrow> ts_subscribers s' = ts_subscribers s"
  using deleteClient_other_fields by (fastforce simp: receive_reply_def Let_def split: recv_reply.splits)

lemma client_step_storing:
  assumes "client_step C fr cn ev (Inr (out, cn'))" "\<nexists>IP. ev = Request IP"
  shows "cn_storing cn' = (case ev of Store k \<Rightarrow> removeAll k (cn_storing cn) | _ \<Rightarrow> cn_storing cn)"
  using assms(1)
proof cases
  case (store k)
  then show ?thesis
    by (auto simp: no_output_def store_thread_def connect_store_def heap_put_def elim!: Inr_rbindE)
next
  case (establish k IP env has ip os)
  then show ?thesis
    by (auto simp: initialize_client_connection_def Let_def heap_put_def elim!: Inr_rbindE split: if_splits)
next
  case (talk k ip os)
  then show ?thesis by (auto simp: talk_def heap_put_def elim!: Inr_rbindE)
next
  case (keep k os)
  then show ?thesis by (auto simp: keep_def heap_put_def elim!: Inr_rbindE split: prod.splits)
next
  case (recv k r cl)
  then have "client_receives C fr cl r k cn = Inr (out, cn')" by simp
  then show ?thesis using recv(1) by (elim client_receives_shape) (simp add: heap_put_def)
next
  case (reap k ks r)
  then show ?thesis by (auto simp: no_output_def main_round_def elim!: Inr_rbindE split: if_splits)
next
  case erase
  then show ?thesis by (simp add: main_erase_def)
qed (use assms(2) in auto)

lemma client_step_reaping:
  assumes "client_step C fr cn ev (Inr (out, cn'))" "client_inv cn"
  shows "cn_reaping cn' = (case ev of Reap \<Rightarrow> True | Erase \<Rightarrow> False | _ \<Rightarrow> cn_reaping cn)"
  using assms(1)
proof cases
  case (request IP)
  then have "no_output (request IP cn) = Inr (out, cn')" by simp
  then show ?thesis using request(1) by (auto simp: no_output_def request_eq [OF assms(2)] split: if_splits)
next
  case (store k)
  then show ?thesis
    by (auto simp: no_output_def store_thread_def connect_store_def heap_put_def elim!: Inr_rbindE)
next
  case (establish k IP env has ip os)
  then show ?thesis
    by (auto simp: initialize_client_connection_def Let_def heap_put_def elim!: Inr_rbindE split: if_splits)
next
  case (talk k ip os)
  then show ?thesis by (auto simp: talk_def heap_put_def elim!: Inr_rbindE)
next
  case (keep k os)
  then show ?thesis by (auto simp: keep_def heap_put_def elim!: Inr_rbindE split: prod.splits)
next
  case (recv k r cl)
  then have "client_receives C fr cl r k cn = Inr (out, cn')" by simp
  then show ?thesis using recv(1) by (elim client_receives_shape) (simp add: heap_put_def)
next
  case (reap k ks r)
  then show ?thesis by (auto simp: no_output_def main_round_def elim!: Inr_rbindE split: if_splits)
qed (auto simp: main_erase_def)

definition calls_match :: "node \<Rightarrow> bool" where
  "calls_match nd \<longleftrightarrow>
     (\<forall>k. (\<exists>who. (who, k) \<in> set (nd_calls nd)) \<longleftrightarrow> k \<in> set (cn_storing (nd_client nd)))"

lemma ask_calls:
  assumes "ask who IP nd = Inr nd'" "calls_match nd" "client_inv (nd_client nd)"
  shows "calls_match nd'" "client_inv (nd_client nd')"
    "cn_reaping (nd_client nd') = cn_reaping (nd_client nd) \<and> nd_main nd' = nd_main nd"
proof -
  show "calls_match nd'"
    using assms by (fastforce simp: ask_def request_eq calls_match_def split: if_splits)
  show "client_inv (nd_client nd')"
    using assms client_inv_request [OF assms(3), of IP] by (auto simp: ask_def)
  show "cn_reaping (nd_client nd') = cn_reaping (nd_client nd) \<and> nd_main nd' = nd_main nd"
    using assms by (auto simp: ask_def request_eq split: if_splits)
qed

lemma ask_all_calls:
  "ask_all who IPs nd = Inr nd' \<Longrightarrow> calls_match nd \<Longrightarrow> client_inv (nd_client nd) \<Longrightarrow>
   calls_match nd' \<and> cn_reaping (nd_client nd') = cn_reaping (nd_client nd) \<and> nd_main nd' = nd_main nd"
proof (induction IPs arbitrary: nd)
  case (Cons IP IPs)
  then obtain nd1 where 1: "ask who IP nd = Inr nd1" "ask_all who IPs nd1 = Inr nd'" by auto
  note a = ask_calls [OF 1(1) Cons.prems(2,3)]
  show ?case using Cons.IH [OF 1(2) a(1,2)] a(3) by simp
qed simp

lemma client_moves_calls:
  assumes "client_step C fr (nd_client nd) ev r" "client_moves ev nd r = Inr (out, nd')"
    and "\<nexists>IP. ev = Request IP" "calls_match nd"
  shows "calls_match nd' \<and> nd_server nd' = nd_server nd \<and> nd_serving nd' = nd_serving nd"
proof -
  obtain o1 cn where r: "r = Inr (o1, cn)" and nd': "nd' = nd\<lparr>nd_client := cn,
      nd_calls := filter (\<lambda>(who, k). ev \<noteq> Store k) (nd_calls nd)\<rparr>"
    using assms(2) by (auto simp: client_moves_def)
  have "cn_storing cn = (case ev of Store k \<Rightarrow> removeAll k (cn_storing (nd_client nd)) | _ \<Rightarrow> cn_storing (nd_client nd))"
    using client_step_storing [of C fr "nd_client nd" ev o1 cn] assms(1,3) r by simp
  then have "calls_match nd'"
    using assms(4) unfolding nd' calls_match_def by (cases ev) auto
  then show ?thesis by (simp add: nd')
qed

text \<open>Only the main loop deletes objects, so that the main thread reads no lines meanwhile.\<close>

definition main_reaps :: "node \<Rightarrow> bool" where
  "main_reaps nd \<longleftrightarrow> (cn_reaping (nd_client nd) \<longrightarrow> nd_main nd = Lines [])"

definition node_inv :: "node \<Rightarrow> bool" where
  "node_inv nd \<longleftrightarrow> node_typed nd \<and> calls_match nd \<and> main_reaps nd \<and> client_inv (nd_client nd) \<and> table_ok (tcp_part nd)"

lemma node_typed_server:
  "node_typed nd \<Longrightarrow> nd_server nd' = nd_server nd \<Longrightarrow> nd_serving nd' = nd_serving nd \<Longrightarrow> node_typed nd'"
  by (simp add: node_typed_def)

lemma node_typed_serving:
  assumes "node_typed nd" "server_typed (nd_server nd')" "nd_serving nd'" "nd_serving nd"
    and "ts_subscribers (ns_tserver (nd_server nd')) = ts_subscribers (ns_tserver (nd_server nd))"
  shows "node_typed nd'"
  using assms by (simp add: node_typed_def)

lemma receive_typed:
  assumes "server_receives p reply ns = Inr (effs, goes, ns')" "server_typed ns"
  shows "server_typed ns' \<and> ts_subscribers (ns_tserver ns') = ts_subscribers (ns_tserver ns)
    \<and> ts_clients (ns_tserver ns) \<noteq> []"
proof -
  obtain calls t where r: "receive_reply p reply (ns_tserver ns) = Inr (calls, goes, t)"
    and e: "run_effects calls (ns\<lparr>ns_tserver := t\<rparr>) = Inr (effs, ns')"
    using assms(1) by (auto simp: server_receives_def)
  have "ts_clients (ns_tserver ns) \<noteq> []" using r by (auto simp: receive_reply_def deref_def split: if_splits)
  then show ?thesis
    using run_effects_typed [OF e] run_effects_tserver [OF e] reply_subscribers [OF r] assms(2) by simp
qed

lemma node_keeps_typed:
  assumes "node_step C fr grow nd ev (Inr (out, nd'))" "node_inv nd"
  shows "node_typed nd' \<and> calls_match nd'"
proof -
  note inv = assms(2) [unfolded node_inv_def]
  from assms(1) show ?thesis
  proof cases
    case (init_server env)
    then obtain ns where s: "NodeServer_setup env (nd_server nd) = Inr ns" "nd_server nd' = ns"
      "nd_serving nd'" "nd_calls nd' = nd_calls nd" "nd_client nd' = nd_client nd"
      by (auto elim!: Inr_rbindE)
    obtain ret t where t: "start env (ns_tserver (nd_server nd)) = Inr (ret, t)"
      "ns = (nd_server nd)\<lparr>ns_tserver := subscribe node_observer t\<rparr>"
      by (rule setup_moves [OF s(1)])
    have "ts_subscribers t = []" using start_subscribers [OF t(1)] inv init_server by (simp add: node_typed_def)
    then show ?thesis using inv s t(2) by (simp add: node_typed_def calls_match_def subscribe_def)
  next
    case heartbeats
    then obtain ns o1 where h: "heartbeat_from (ns_connected (nd_server nd)) (nd_server nd) = Inr (o1, ns)"
      "nd' = nd\<lparr>nd_server := ns\<lparr>ns_heartbeats := []\<rparr>\<rparr>"
      by (auto simp: heartbeat_round_def elim!: Inr_rbindE)
    then have "server_typed (nd_server nd')"
      using heartbeat_from_typed [OF h(1)] inv by (auto simp: server_typed_def node_typed_def ordered_def)
    then show ?thesis
      using heartbeat_from_typed [OF h(1)] inv heartbeats h(2)
      by (auto simp: calls_match_def node_typed_def)
  next
    case (accept env)
    then obtain o1 ns where r: "client_round grow env (nd_server nd) = Inr (o1, ns)"
      and n: "nd' = nd\<lparr>nd_server := ns, nd_tasks := nd_tasks nd @ [Starting]\<rparr>"
      by (auto elim!: Inr_rbindE)
    obtain c where a: "acceptClient grow 0 env (ns_tserver (nd_server nd)) = Inr (c, ns_tserver ns)"
      by (rule client_round_accepts [OF r])
    show ?thesis using client_round_typed [OF r] accept_subscribers [OF a] inv accept n
      by (auto simp: calls_match_def node_typed_def)
  next
    case (receive i p reply)
    then obtain effs goes ns nd1 ts where sr: "server_receives p reply (nd_server nd) = Inr (effs, goes, ns)"
      "ask_all (Receiver i) (connects effs) (nd\<lparr>nd_server := ns\<rparr>) = Inr nd1" "nd' = nd1\<lparr>nd_tasks := ts\<rparr>"
      by (metis node_receives_shape)
    have same: "nd_server nd1 = ns" "nd_serving nd1 = nd_serving nd"
      by (rule ask_all_shape [OF sr(2), of C fr]; simp)+
    have t: "server_typed ns" "ts_subscribers (ns_tserver ns) = ts_subscribers (ns_tserver (nd_server nd))"
      "nd_serving nd"
      using receive_typed [OF sr(1)] inv by (auto simp: node_typed_def)
    then have "node_typed nd'"
      using inv same sr(3) by (auto intro!: node_typed_serving [of nd])
    moreover have "calls_match nd1"
      using ask_all_calls [OF sr(2)] inv by (simp add: calls_match_def)
    ultimately show ?thesis using sr(3) by (simp add: calls_match_def)
  next
    case (next_peer IP IPs)
    then have a: "ask Main IP (nd\<lparr>nd_main := Lines IPs\<rparr>) = Inr nd'" by (auto elim!: Inr_rbindE)
    then have "calls_match nd'" using ask_calls [OF a] inv by (simp add: calls_match_def)
    moreover have "node_typed nd'"
      by (rule ask_shape [OF a]) (use inv in \<open>simp add: node_typed_def\<close>)
    ultimately show ?thesis by simp
  next
    case (reap_first r)
    then have "client_moves Reap nd r = Inr (out, nd')" by simp
    with reap_first show ?thesis using client_moves_calls [of C fr nd Reap r out nd'] inv node_typed_server by auto
  next
    case (erase_first r)
    then have "client_moves Erase nd r = Inr (out, nd')" by simp
    with erase_first show ?thesis using client_moves_calls [of C fr nd Erase r out nd'] inv node_typed_server by auto
  next
    case (client ev' r)
    then have "client_moves ev' nd r = Inr (out, nd')" "\<nexists>IP. ev' = Request IP"
      by (auto simp: own_step_def)
    with client show ?thesis using client_moves_calls [of C fr nd ev' r out nd'] inv node_typed_server by auto
  qed (use inv in \<open>auto elim!: Inr_rbindE simp: node_typed_def calls_match_def\<close>)
qed

lemma client_moves_reaps:
  assumes "client_step C fr (nd_client nd) ev r" "client_moves ev nd r = Inr (out, nd')" "client_inv (nd_client nd)"
  shows "cn_reaping (nd_client nd') = (case ev of Reap \<Rightarrow> True | Erase \<Rightarrow> False | _ \<Rightarrow> cn_reaping (nd_client nd))
    \<and> nd_main nd' = nd_main nd"
  using assms client_step_reaping [of C fr "nd_client nd" ev] by (auto simp: client_moves_def elim!: Inr_rbindE)

lemma node_keeps_reaps:
  assumes "node_step C fr grow nd ev (Inr (out, nd'))" "node_inv nd"
  shows "main_reaps nd'"
proof -
  note inv = assms(2) [unfolded node_inv_def]
  have same: "main_reaps nd'" if "nd_client nd' = nd_client nd" "nd_main nd' = nd_main nd"
    using that inv by (simp add: main_reaps_def)
  from assms(1) show ?thesis
  proof cases
    case (receive i p reply)
    then obtain effs goes ns nd1 ts where sr:
      "ask_all (Receiver i) (connects effs) (nd\<lparr>nd_server := ns\<rparr>) = Inr nd1" "nd' = nd1\<lparr>nd_tasks := ts\<rparr>"
      by (metis node_receives_shape)
    then show ?thesis using ask_all_calls [OF sr(1)] inv by (simp add: calls_match_def main_reaps_def)
  next
    case (open_peers content)
    then show ?thesis using inv by (auto simp: main_reaps_def elim!: Inr_rbindE)
  next
    case (next_peer IP IPs)
    then have a: "ask Main IP (nd\<lparr>nd_main := Lines IPs\<rparr>) = Inr nd'" by (auto elim!: Inr_rbindE)
    then show ?thesis using ask_calls(3) [OF a] inv next_peer by (auto simp: calls_match_def main_reaps_def)
  next
    case (reap_first r)
    then have "client_moves Reap nd r = Inr (out, nd')" by simp
    with reap_first show ?thesis using client_moves_reaps [of C fr nd Reap r out nd'] inv by (simp add: main_reaps_def)
  next
    case (erase_first r)
    then have "client_moves Erase nd r = Inr (out, nd')" by simp
    with erase_first show ?thesis using client_moves_reaps [of C fr nd Erase r out nd'] inv by (simp add: main_reaps_def)
  next
    case main_over
    then have "cn_active (nd_client nd) = []" by (auto simp: main_round_def split: list.splits)
    then show ?thesis using main_over client_invD(10) [of "nd_client nd"] inv by (auto simp: main_reaps_def)
  next
    case (client ev' r)
    then have "client_moves ev' nd r = Inr (out, nd')" "ev' \<noteq> Reap" "ev' \<noteq> Erase"
      by (auto simp: own_step_def)
    with client show ?thesis using client_moves_reaps [of C fr nd ev' r out nd'] inv
      by (cases ev') (simp_all add: main_reaps_def)
  qed (use same in \<open>auto elim!: Inr_rbindE\<close>)
qed

interpretation node: step_invariant "node_next C fr grow" node_inv for C fr grow
proof unfold_locales
  fix nd ev nd' assume inv: "node_inv nd" and nxt: "node_next C fr grow nd ev nd'"
  then have "node_typed nd' \<and> calls_match nd'" using node_keeps_typed [of C fr grow nd ev _ nd'] by (auto simp: node_next_def)
  moreover have "main_reaps nd'" using node_keeps_reaps [of C fr grow nd ev _ nd'] inv nxt by (auto simp: node_next_def)
  ultimately show "node_inv nd'"
    using node_client.inv_step [OF _ nxt] node_tcp.inv_step [OF _ nxt] inv by (simp add: node_inv_def)
qed

lemma node_inv_new: "node_inv node_new"
  by (simp add: node_inv_def node_typed_def server_typed_def calls_match_def main_reaps_def client_inv_def
      live_active_def table_ok_def
      tcp_part_def node_new_def NServer_new_def TcpServer_new_def NodeClient_new_def ordered_def)

end
