(* ===== verification/NodeRuns.thy ===== *)
theory NodeRuns
  imports Node
begin

section \<open>server.cpp, client.cpp: what holds on every run of a node\<close>

text \<open>
  The properties of whole nodes: the types of the state, the failures each thread can run into, and what
  the two sides of a node know of each other.
\<close>

subsection \<open>Failures\<close>


























subsection \<open>The state\<close>

text \<open>
  C12: on every run of a node its two maps stay ordered by address; every entry of
  \<open>connected_clients\<close> is a connected client of its address that owns no thread, every client of the
  TCP server has its flag set; the observer of the node is registered once and for all; and the
  threads inside \<open>ConnectToServer\<close> are those whose new thread is not stored yet.\<close>

theorem node_state_typed:
  assumes "run (node_next C fr grow) node_new es nd"
  shows "ordered (ns_connected (nd_server nd)) \<and> ordered (ns_heartbeats (nd_server nd)) \<and>
    list_all (\<lambda>(IP, c). c_ip c = IP \<and> c_isConnected c = Some True \<and> c_threadHandler c = None)
      (ns_connected (nd_server nd)) \<and>
    list_all (\<lambda>c. c_isConnected c \<noteq> None) (ts_clients (ns_tserver (nd_server nd))) \<and>
    ts_subscribers (ns_tserver (nd_server nd)) = (if nd_serving nd then [node_observer] else []) \<and>
    snd ` set (nd_calls nd) = set (cn_storing (nd_client nd))"
proof -
  have inv: "node_typed nd" "calls_match nd" "table_ok (tcp_part nd)"
    using node.inv_run [OF assms node_inv_new] by (simp_all add: node_inv_def)
  have "snd ` set (nd_calls nd) = set (cn_storing (nd_client nd))"
    using inv(2) by (force simp: calls_match_def)
  then show ?thesis
    using inv(1,3) by (simp add: node_typed_def server_typed_def table_ok_def tcp_part_def list_all_iff)
qed

subsection \<open>Messages to the server\<close>

lemma node_publishes:
  assumes "node_inv nd" "nd_serving nd"
  shows "publishClientMsg (ns_tserver (nd_server nd)) c msg = [Call_message fn_ReceiveMessage c msg]"
  using assms by (simp add: node_inv_def node_typed_def publishClientMsg_def notify_message_def node_observer_def)

text \<open>
  A message that the receive thread of a client gets is handled once, by \<open>ReceiveMessage\<close> with the
  client the thread's pointer leads to, and the thread goes on.\<close>

theorem message_handled_once:
  assumes "run (node_next C fr grow) node_new es nd" "nd_serving nd"
    and "deref p (ns_tserver (nd_server nd)) = Inr c"
  shows "server_receives p (Received msg) (nd_server nd) =
     rbind (NodeServer_ReceiveMessage c msg (nd_server nd)) (\<lambda>(out, ns). Inr (out, True, ns))"
  using node_publishes [OF node.inv_run [OF assms(1) node_inv_new] assms(2)] assms(3)
  by (cases "NodeServer_ReceiveMessage c msg (nd_server nd)")
    (auto simp: server_receives_def receive_reply_def)

subsection \<open>Who is poked\<close>

text \<open>An entry of \<open>connected_clients\<close> stays until a round of the heartbeat loop finds no heartbeat.\<close>

definition known :: "bytes \<Rightarrow> node \<Rightarrow> bool" where
  "known IP nd \<longleftrightarrow> HasClientWithIP (nd_server nd) IP"

definition fresh_client :: "bytes \<Rightarrow> node \<Rightarrow> bool" where
  "fresh_client IP nd \<longleftrightarrow> known IP nd \<and> map_find (ns_heartbeats (nd_server nd)) IP \<noteq> None"

lemma run_effects_heartbeats:
  "run_effects es ns = Inr (out, ns') \<Longrightarrow> ordered (ns_heartbeats ns) \<Longrightarrow>
   map_find (ns_heartbeats ns) IP \<noteq> None \<Longrightarrow> map_find (ns_heartbeats ns') IP \<noteq> None"
proof (induction es arbitrary: ns out)
  case (Cons e es)
  obtain o1 ns1 o2 where e: "(case e of
       Call_message f c msg \<Rightarrow>
         if f = fn_ReceiveMessage then NodeServer_ReceiveMessage c msg ns else Inr ([Tcp e], ns)
     | Call_disconnected f c \<Rightarrow> Inr (if f = fn_ClientDisconnected then ClientDisconnected c else [Tcp e], ns)
     | _ \<Rightarrow> Inr ([Tcp e], ns)) = Inr (o1, ns1)"
    and r: "run_effects es ns1 = Inr (o2, ns')"
    using Cons.prems(1) by auto
  have "ordered (ns_heartbeats ns1) \<and> map_find (ns_heartbeats ns1) IP \<noteq> None"
    using e Cons.prems(2,3) ReceiveMessage_state [of _ _ ns o1 ns1 IP]
    by (cases e) (auto simp del: not_None_eq split: if_splits)
  then show ?case using Cons.IH [OF r] by blast
qed simp

lemma receives_known:
  assumes "server_receives p reply ns = Inr (effs, goes, ns')" "ordered (ns_heartbeats ns)"
  shows "ns_connected ns' = ns_connected ns \<and>
    (map_find (ns_heartbeats ns) IP \<noteq> None \<longrightarrow> map_find (ns_heartbeats ns') IP \<noteq> None)"
proof -
  obtain calls t where "run_effects calls (ns\<lparr>ns_tserver := t\<rparr>) = Inr (effs, ns')"
    using assms(1) by (auto simp: server_receives_def)
  then show ?thesis using run_effects_tserver run_effects_heartbeats assms(2) by fastforce
qed

text \<open>The map of clients and the heartbeats, over one step.\<close>

lemma step_known:
  assumes "node_step C fr grow nd ev (Inr (out, nd'))" "node_inv nd" "known IP nd"
  shows "ev \<noteq> Heartbeats \<Longrightarrow> known IP nd' \<and> (fresh_client IP nd \<longrightarrow> fresh_client IP nd')"
    and "ev = Heartbeats \<Longrightarrow> fresh_client IP nd \<Longrightarrow> known IP nd'"
proof -
  have typed: "ordered (ns_connected (nd_server nd))" "ordered (ns_heartbeats (nd_server nd))"
    using assms(2) by (simp_all add: node_inv_def node_typed_def server_typed_def)
  show "ev = Heartbeats \<Longrightarrow> fresh_client IP nd \<Longrightarrow> known IP nd'"
  proof -
    assume ev: "ev = Heartbeats" and f: "fresh_client IP nd"
    from assms(1) ev obtain o1 ns where r: "heartbeat_round (nd_server nd) = Inr (o1, ns)" "nd_server nd' = ns"
      by (cases rule: node_step.cases) (auto elim!: Inr_rbindE)
    have "ns_connected ns = filter (\<lambda>(IP, c). map_find (ns_heartbeats (nd_server nd)) IP \<noteq> None) (ns_connected (nd_server nd))"
      by (rule heartbeat_round_spec_aux [OF typed(1) r(1)])
    then show ?thesis using f r(2)
      by (auto simp: known_def fresh_client_def HasClientWithIP_def list_ex_iff)
  qed
  assume ev: "ev \<noteq> Heartbeats"
  have same: "known IP nd' \<and> (fresh_client IP nd \<longrightarrow> fresh_client IP nd')" if "nd_server nd' = nd_server nd"
    using that assms(3) by (simp add: known_def fresh_client_def)
  from assms(1) show "known IP nd' \<and> (fresh_client IP nd \<longrightarrow> fresh_client IP nd')"
  proof cases
    case (init_server env)
    then obtain ns where s: "NodeServer_setup env (nd_server nd) = Inr ns" "nd_server nd' = ns"
      by (auto elim!: Inr_rbindE)
    show ?thesis
      by (rule setup_moves [OF s(1)]) (use s(2) assms(3) in \<open>simp add: known_def fresh_client_def HasClientWithIP_def\<close>)
  next
    case (accept env)
    then obtain o1 ns where r: "client_round grow env (nd_server nd) = Inr (o1, ns)" "nd_server nd' = ns"
      by (auto elim!: Inr_rbindE)
    show ?thesis
      by (rule client_round_accepts [OF r(1)])
        (use typed r(2) assms(3) in \<open>auto simp: known_def fresh_client_def HasClientWithIP_find ordmap.find_set\<close>)
  next
    case (receive i p reply)
    then obtain effs goes ns nd1 ts where sr: "server_receives p reply (nd_server nd) = Inr (effs, goes, ns)"
      "ask_all (Receiver i) (connects effs) (nd\<lparr>nd_server := ns\<rparr>) = Inr nd1" "nd' = nd1\<lparr>nd_tasks := ts\<rparr>"
      by (metis node_receives_shape)
    have "nd_server nd1 = ns" by (rule ask_all_shape [OF sr(2), of C fr]) simp
    then show ?thesis using receives_known [OF sr(1) typed(2)] sr(3) assms(3)
      by (auto simp: known_def fresh_client_def HasClientWithIP_def)
  next
    case (next_peer IP' IPs)
    then have "ask Main IP' (nd\<lparr>nd_main := Lines IPs\<rparr>) = Inr nd'" by (auto elim!: Inr_rbindE)
    then show ?thesis by (rule ask_shape) (use same in simp)
  next
    case (reap_first r)
    then show ?thesis by (intro same) (auto simp: client_moves_def elim!: Inr_rbindE)
  next
    case (erase_first r)
    then show ?thesis by (intro same) (auto simp: client_moves_def elim!: Inr_rbindE)
  next
    case (client ev' r)
    then show ?thesis by (intro same) (auto simp: client_moves_def elim!: Inr_rbindE)
  qed (use ev same in \<open>auto elim!: Inr_rbindE\<close>)
qed

lemma run_known:
  assumes "run (node_next C fr grow) nd es nd'" "node_inv nd" "known IP nd"
    and "length (filter (\<lambda>e. e = Heartbeats) es) \<le> (if fresh_client IP nd then 1 else 0)"
  shows "known IP nd'"
  using assms
proof (induction rule: run.induct)
  case (run_Cons nd e nd1 es nd2)
  obtain out where s: "node_step C fr grow nd e (Inr (out, nd1))"
    using run_Cons.hyps(1) by (auto simp: node_next_def)
  have inv: "node_inv nd1" by (rule node.inv_step [OF run_Cons.prems(1) run_Cons.hyps(1)])
  show ?case
  proof (cases "e = Heartbeats")
    case True
    then have "fresh_client IP nd" "filter (\<lambda>e. e = Heartbeats) es = []"
      using run_Cons.prems(3) by (auto split: if_splits)
    then show ?thesis
      using run_Cons.IH [OF inv] step_known(2) [OF s run_Cons.prems(1,2) True] by simp
  next
    case False
    then have "known IP nd1" "fresh_client IP nd \<longrightarrow> fresh_client IP nd1"
      using step_known(1) [OF s run_Cons.prems(1,2)] by blast+
    then show ?thesis using run_Cons.IH [OF inv] run_Cons.prems(3) False by (auto split: if_splits)
  qed
qed

lemma accept_known:
  assumes "node_step C fr grow nd (Accept env) (Inr (out, nd'))" "node_inv nd"
  shows "known (ae_ip env) nd' \<and> fresh_client (ae_ip env) nd'"
proof -
  have typed: "ordered (ns_connected (nd_server nd))" "ordered (ns_heartbeats (nd_server nd))"
    using assms(2) by (simp_all add: node_inv_def node_typed_def server_typed_def)
  from assms(1) obtain o1 ns where r: "client_round grow env (nd_server nd) = Inr (o1, ns)" "nd_server nd' = ns"
    by (cases rule: node_step.cases) (auto elim!: Inr_rbindE)
  show ?thesis
    by (rule client_round_accepts [OF r(1)])
      (use typed r(2) in \<open>auto simp: known_def fresh_client_def HasClientWithIP_find ordmap.find_set\<close>)
qed

lemma establish_silent:
  assumes "initialize_client_connection env True ip os IP k cn = Inr (out, cn')"
  shows "Net e \<notin> set out"
  using assms by (auto simp: initialize_client_connection_def Let_def split: if_splits)

text \<open>
  C16: a node does not poke back. After it accepted a client, and until the second round of its
  heartbeat loop, a connection that it makes to the address of that client sends nothing while it is
  set up: two nodes that find each other stop after one poke.\<close>

theorem connected_peer_not_poked:
  assumes "run (node_next C fr grow) node_new es0 nd0"
    and "node_step C fr grow nd0 (Accept aenv) (Inr (out0, nd1))"
    and "run (node_next C fr grow) nd1 es nd2" "length (filter (\<lambda>e. e = Heartbeats) es) \<le> 1"
    and "cn_phase (nd_client nd2) k = Connecting (ae_ip aenv)"
    and "node_step C fr grow nd2 (Client (Establish k env has ip os)) (Inr (out, nd3))"
  shows "Client_out (Net (Send_fd fd m)) \<notin> set out"
proof -
  have inv: "node_inv nd0" by (rule node.inv_run [OF assms(1) node_inv_new])
  have "node_inv nd1" using node.inv_step [OF inv] assms(2) node_nextI by blast
  then have "known (ae_ip aenv) nd2"
    using run_known [OF assms(3)] accept_known [OF assms(2) inv] assms(4) by auto
  from assms(6) show ?thesis
  proof (rule node_step_establishE)
    fix r assume "Inr (out, nd3) = client_moves (Establish k env has ip os) nd2 r"
      and own: "own_step nd2 (Establish k env has ip os)"
      and s: "client_step C fr (nd_client nd2) (Establish k env has ip os) r"
    then obtain o1 cn where r: "r = Inr (o1, cn)" and out: "out = map Client_out o1"
      by (auto simp: client_moves_def elim!: Inr_rbindE)
    have "has" using own assms(5) \<open>known (ae_ip aenv) nd2\<close> by (simp add: own_step_def known_def)
    from s r have "initialize_client_connection env True ip os (ae_ip aenv) k (nd_client nd2) = Inr (o1, cn)"
      using assms(5) \<open>has\<close> by (cases rule: client_step.cases) auto
    from establish_silent [OF this] show ?thesis using out by auto
  qed
qed

text \<open>What a receive thread does with a poke: it asks for a connection to the address of its client.\<close>

lemma poke_asks:
  assumes "node_inv nd" "nd_tasks nd ! i = Waiting p" "deref p (ns_tserver (nd_server nd)) = Inr c"
    and "node_step C fr grow nd (Receive i (Received (ep_serial (SerializeClientPoke me)))) (Inr (out, nd'))"
  obtains nd1 ts where "ask (Receiver i) (c_ip c) nd = Inr nd1" "nd' = nd1\<lparr>nd_tasks := ts\<rparr>"
proof -
  let ?m = "ep_serial (SerializeClientPoke me)"
  have "ts_clients (ns_tserver (nd_server nd)) \<noteq> []" using assms(3) by (auto simp: deref_def split: if_splits)
  then have "nd_serving nd" using assms(1) by (auto simp: node_inv_def node_typed_def)
  note pub = node_publishes [OF assms(1) this]
  have "NodeServer_ReceiveMessage c ?m (nd_server nd) = Inr ([Connect_to (c_ip c)], nd_server nd)"
    using client_poke.header [of me "[]"] by (simp add: NodeServer_ReceiveMessage_def type_defs)
  then have sr: "server_receives p (Received ?m) (nd_server nd) = Inr ([Connect_to (c_ip c)], True, nd_server nd)"
    using assms(3) pub by (simp add: server_receives_def receive_reply_def)
  from assms(4) have "node_receives i p (Received ?m) nd = Inr (out, nd')"
    using assms(2) by (cases rule: node_step.cases) auto
  then show thesis using sr that by (auto simp: node_receives_def)
qed


text \<open>
  C22: a poke does not revive a connection that is over. As long as an entry of \<open>active_clients\<close> has the
  address the poke comes from, the poke changes nothing and starts no thread, even when the thread of
  that entry has returned and it only waits to be joined by the main loop.\<close>

theorem ended_connection_blocks_poke:
  assumes "run (node_next C fr grow) node_new es nd" "nd_tasks nd ! i = Waiting p"
    and "deref p (ns_tserver (nd_server nd)) = Inr c"
    and "k \<in> set (cn_active (nd_client nd))" "cn_heap (nd_client nd) k = Some nc" "nc_serverIP nc = c_ip c"
    and "node_step C fr grow nd (Receive i (Received (ep_serial (SerializeClientPoke me)))) (Inr (out, nd'))"
  shows "nd_client nd' = nd_client nd \<and> nd_calls nd' = nd_calls nd"
proof -
  have inv: "node_inv nd" by (rule node.inv_run [OF assms(1) node_inv_new])
  obtain nd1 ts where a: "ask (Receiver i) (c_ip c) nd = Inr nd1" "nd' = nd1\<lparr>nd_tasks := ts\<rparr>"
    by (rule poke_asks [OF inv assms(2,3,7)])
  have cinv: "client_inv (nd_client nd)" using inv by (simp add: node_inv_def)
  have "\<not> cn_reaping (nd_client nd)" using a(1) by (auto simp: ask_def request_eq [OF cinv] split: if_splits)
  then have "c_ip c \<in> set (active_ips (nd_client nd))"
    using assms(4-6) by (force simp: active_ips_def live_active_def)
  then show ?thesis using a by (auto simp: ask_def request_eq [OF cinv] split: if_splits)
qed

subsection \<open>A concrete run\<close>

text \<open>
  A node starts its server, accepts a client and is poked by it; the thread of the connection back is
  started, its pointer stored, and the connection made.
\<close>

definition demo_tcp :: "client list \<Rightarrow> nat set \<Rightarrow> nat \<Rightarrow> tcp_server" where
  "demo_tcp cs live next = \<lparr>ts_sockfd = 4, ts_clients = cs, ts_capacity = 10, ts_generation = 1,
     ts_subscribers = [node_observer], ts_live = live, ts_next = next\<rparr>"

definition demo_peer :: "bytes" where "demo_peer = lit ''10.0.0.1''"

definition demo_serving :: node where
  "demo_serving = node_new\<lparr>nd_server := NServer_new\<lparr>ns_tserver := demo_tcp [] {} 0\<rparr>,
     nd_serving := True, nd_mining := True\<rparr>"

definition demo_accepted :: "task \<Rightarrow> node" where
  "demo_accepted t = demo_serving\<lparr>
     nd_server := \<lparr>ns_tserver = demo_tcp [(accepted demo_accept)\<lparr>c_threadHandler := Some 0\<rparr>] {0} 1, ns_messages = [],
       ns_connected = [(demo_peer, accepted demo_accept)], ns_heartbeats = [(demo_peer, True)]\<rparr>,
     nd_tasks := [t]\<rparr>"

definition demo_poked :: node where
  "demo_poked = (demo_accepted (Waiting (1, 0)))\<lparr>nd_client := demo_asked, nd_calls := [(Receiver 0, 0)]\<rparr>"

lemmas demo_node_defs = demo_tcp_def demo_peer_def demo_serving_def demo_accepted_def demo_poked_def
  node_new_def NServer_new_def demo_accept_def accepted_def Client_new_def

lemma demo_ae_ip: "ae_ip demo_accept = demo_peer" "ae_accept demo_accept = 5"
  by (simp_all add: demo_accept_def demo_peer_def)

lemma demo_init: "node_next C fr Suc node_new (Init_server demo_start) demo_serving"
proof -
  have "NodeServer_setup demo_start (nd_server node_new) = Inr (nd_server demo_serving)"
    by (simp add: NodeServer_setup_def start_def reserve_def reallocate_def Let_def demo_start_def demo_node_defs
        TcpServer_new_def subscribe_def)
  moreover have "\<not> nd_serving node_new" by (simp add: node_new_def)
  ultimately show ?thesis using node_step.init_server [of node_new C fr Suc demo_start]
    by (auto simp: node_next_def demo_serving_def)
qed

lemma demo_accepts: "\<exists>out. node_step C fr Suc demo_serving (Accept demo_accept) (Inr (out, demo_accepted Starting))"
proof -
  have "\<exists>out. client_round Suc demo_accept (nd_server demo_serving) = Inr (out, nd_server (demo_accepted Starting))"
    by (simp add: client_round_def acceptClient_def Let_def push_back_def back_ptr_def setThreadHandler_def
        deref_def store_def isConnected_def demo_node_defs)
  then show ?thesis using node_step.accept [of demo_serving C fr Suc demo_accept]
    by (auto simp: demo_serving_def demo_accepted_def node_new_def)
qed

lemma demo_begin: "node_next C fr Suc (demo_accepted Starting) (Begin_receive 0) (demo_accepted (Waiting (1, 0)))"
proof -
  have "back_ptr (ns_tserver (nd_server (demo_accepted t))) = Inr (1, 0)"
    and "resume (1, 0) 0 (ns_tserver (nd_server (demo_accepted t))) [Starting] =
      Inr (ns_tserver (nd_server (demo_accepted t)), [Waiting (1, 0)])" for t
    by (simp_all add: back_ptr_def resume_def receive_test_def deref_def isConnected_def demo_node_defs)
  then show ?thesis using node_step.begin_receive [of 0 "demo_accepted Starting" C fr Suc]
    by (auto simp: node_next_def demo_accepted_def)
qed

definition demo_with :: "node_client \<Rightarrow> node" where
  "demo_with cn = (demo_accepted (Waiting (1, 0)))\<lparr>nd_client := cn\<rparr>"

lemma demo_with_new: "demo_accepted (Waiting (1, 0)) = demo_with NodeClient_new"
  by (simp add: demo_with_def demo_accepted_def demo_serving_def node_new_def)

lemma demo_poke_step:
  assumes "ask (Receiver 0) demo_peer (demo_with cn) = Inr nd1" "nd_tasks nd1 = [Waiting (1, 0)]"
  shows "\<exists>out. node_step C fr Suc (demo_with cn)
     (Receive 0 (Received (ep_serial (SerializeClientPoke (lit ''10.0.0.1''))))) (Inr (out, nd1))"
proof -
  let ?nd = "demo_with cn"
  let ?m = "ep_serial (SerializeClientPoke (lit ''10.0.0.1''))"
  let ?c = "(accepted demo_accept)\<lparr>c_threadHandler := Some 0\<rparr>"
  have ip: "c_ip ?c = demo_peer" by (simp add: accepted_def demo_ae_ip)
  have "NodeServer_ReceiveMessage ?c ?m (nd_server ?nd) = Inr ([Connect_to demo_peer], nd_server ?nd)"
    using client_poke.header [of "lit ''10.0.0.1''" "[]"] by (simp add: NodeServer_ReceiveMessage_def type_defs ip)
  moreover have "publishClientMsg (ns_tserver (nd_server ?nd)) ?c ?m = [Call_message fn_ReceiveMessage ?c ?m]"
    by (simp add: publishClientMsg_def notify_message_def node_observer_def demo_with_def demo_accepted_def demo_tcp_def)
  moreover have "deref (1, 0) (ns_tserver (nd_server ?nd)) = Inr ?c"
    by (simp add: deref_def demo_with_def demo_accepted_def demo_tcp_def)
  ultimately have sr: "server_receives (1, 0) (Received ?m) (nd_server ?nd) = Inr ([Connect_to demo_peer], True, nd_server ?nd)"
    by (simp add: server_receives_def receive_reply_def)
  have "resume (1, 0) 0 (ns_tserver (nd_server ?nd)) [Waiting (1, 0)] = Inr (ns_tserver (nd_server ?nd), [Waiting (1, 0)])"
    by (simp add: resume_def receive_test_def deref_def isConnected_def demo_with_def demo_node_defs)
  then have "node_receives 0 (1, 0) (Received ?m) ?nd = Inr ([Server_out (Connect_to demo_peer)], nd1)"
    using sr assms by (simp add: node_receives_def)
  moreover have "recv_ok (Received ?m)" by (simp add: packet_shapes packet_bytes_def MAX_PACKET_SIZE_def)
  ultimately show ?thesis
    using node_step.receive [of 0 ?nd "(1, 0)" "Received ?m" C fr Suc]
    by (auto simp: calling_def demo_with_def demo_accepted_def demo_serving_def node_new_def)
qed

lemma demo_poke:
  "\<exists>out. node_step C fr Suc (demo_accepted (Waiting (1, 0)))
     (Receive 0 (Received (ep_serial (SerializeClientPoke (lit ''10.0.0.1''))))) (Inr (out, demo_poked))"
proof -
  have "request demo_peer NodeClient_new = Inr demo_asked"
    by (simp add: request_def connect_start_def demo_cn_defs demo_peer_def)
  then have "ask (Receiver 0) demo_peer (demo_with NodeClient_new) = Inr demo_poked"
    by (simp add: ask_def demo_poked_def demo_with_def demo_accepted_def demo_serving_def node_new_def)
      (simp add: demo_cn_defs)
  then show ?thesis unfolding demo_with_new by (rule demo_poke_step) (simp add: demo_poked_def demo_accepted_def)
qed

definition demo_stored :: node where
  "demo_stored = (demo_accepted (Waiting (1, 0)))\<lparr>nd_client := demo_pending\<rparr>"

lemma demo_stores: "node_next C fr Suc demo_poked (Client (Store 0)) demo_stored"
proof -
  have c: "nd_client demo_poked = demo_asked" by (simp add: demo_poked_def)
  have "client_moves (Store 0) demo_poked (Inr ([], demo_pending)) = Inr ([], demo_stored)"
    by (simp add: client_moves_def demo_poked_def demo_stored_def demo_accepted_def demo_serving_def node_new_def)
  then show ?thesis
    using node_step.client [of demo_poked "Store 0" C fr "Inr ([], demo_pending)" Suc] demo_store [of C fr]
    by (auto simp: node_next_def own_step_def c)
qed

lemma demo_connects:
  "\<exists>out nd. node_step C fr Suc demo_stored (Client (Establish 0 demo_connect True demo_ip (0, []))) (Inr (out, nd))"
proof -
  have c: "nd_client demo_stored = demo_pending" by (simp add: demo_stored_def)
  obtain out where e: "client_step C fr demo_pending (Establish 0 demo_connect True demo_ip (0, [])) (Inr (out, demo_up))"
    using demo_establish by metis
  have "HasClientWithIP (nd_server demo_stored) (lit ''10.0.0.1'')"
    by (simp add: demo_stored_def demo_accepted_def HasClientWithIP_def demo_peer_def)
  then have "own_step demo_stored (Establish 0 demo_connect True demo_ip (0, []))"
    by (simp add: own_step_def c demo_cn_def)
  then show ?thesis
    using node_step.client [of demo_stored "Establish 0 demo_connect True demo_ip (0, [])" C fr "Inr (out, demo_up)" Suc] e
    by (auto simp: c client_moves_def)
qed

lemma demo_run_serving: "run (node_next C fr Suc) node_new [Init_server demo_start] demo_serving"
  using demo_init by (simp add: run_single)

lemma demo_run_accepted:
  "run (node_next C fr Suc) node_new [Init_server demo_start, Accept demo_accept, Begin_receive 0]
     (demo_accepted (Waiting (1, 0)))"
  using demo_accepts demo_init demo_begin unfolding run_Cons_iff by (fastforce simp: node_next_def)

lemma demo_run_poked:
  "run (node_next C fr Suc) node_new [Init_server demo_start, Accept demo_accept, Begin_receive 0,
     Receive 0 (Received (ep_serial (SerializeClientPoke (lit ''10.0.0.1''))))] demo_poked"
  using run_snoc [OF demo_run_accepted] demo_poke node_nextI by fastforce


lemma node_state_typed_witness:
  "nd_calls demo_poked = [(Receiver 0, 0)] \<and> snd ` set (nd_calls demo_poked) = set (cn_storing (nd_client demo_poked)) \<and>
   ordered (ns_connected (nd_server demo_poked))"
  using node_state_typed [OF demo_run_poked [of toy_crypto demo_fresh]] by (auto simp: demo_poked_def)

lemma demo_deref_first:
  "deref (1, 0) (ns_tserver (nd_server (demo_accepted t))) = Inr ((accepted demo_accept)\<lparr>c_threadHandler := Some 0\<rparr>)"
  by (simp add: deref_def demo_accepted_def demo_tcp_def)

lemma message_handled_once_witness:
  "server_receives (1, 0) (Received [7]) (nd_server (demo_accepted (Waiting (1, 0)))) =
     Inr ([Out (lit (''server received invalid message'' @ [CHR 0x0A]))], True, nd_server (demo_accepted (Waiting (1, 0))))"
proof -
  have s: "nd_serving (demo_accepted (Waiting (1, 0)))" by (simp add: demo_accepted_def demo_serving_def)
  have "NodeServer_ReceiveMessage c [7] ns = Inr ([Out (lit (''server received invalid message'' @ [CHR 0x0A]))], ns)" for c ns
    by (simp add: NodeServer_ReceiveMessage_def ReadHeader_def type_defs)
  then show ?thesis
    using message_handled_once [OF demo_run_accepted s demo_deref_first, of "[7]"] by simp
qed

lemma connected_peer_not_poked_witness:
  "\<exists>nd1 nd2 out nd3. run (node_next toy_crypto demo_fresh Suc) nd1 [Begin_receive 0,
      Receive 0 (Received (ep_serial (SerializeClientPoke (lit ''10.0.0.1'')))), Client (Store 0)] nd2 \<and>
     node_step toy_crypto demo_fresh Suc nd2 (Client (Establish 0 demo_connect True demo_ip (0, []))) (Inr (out, nd3)) \<and>
     (\<forall>m. Client_out (Net (Send_fd 7 m)) \<notin> set out)"
proof -
  obtain out0 where a: "node_step toy_crypto demo_fresh Suc demo_serving (Accept demo_accept) (Inr (out0, demo_accepted Starting))"
    using demo_accepts by metis
  have p: "node_next toy_crypto demo_fresh Suc (demo_accepted (Waiting (1, 0)))
      (Receive 0 (Received (ep_serial (SerializeClientPoke (lit ''10.0.0.1''))))) demo_poked"
    using demo_poke node_nextI by metis
  have r: "run (node_next toy_crypto demo_fresh Suc) (demo_accepted Starting) [Begin_receive 0,
      Receive 0 (Received (ep_serial (SerializeClientPoke (lit ''10.0.0.1'')))), Client (Store 0)] demo_stored"
    using demo_begin [of toy_crypto demo_fresh] p demo_stores [of toy_crypto demo_fresh]
    by (auto simp: run_Cons_iff)
  obtain out nd3 where e: "node_step toy_crypto demo_fresh Suc demo_stored
      (Client (Establish 0 demo_connect True demo_ip (0, []))) (Inr (out, nd3))"
    using demo_connects by metis
  have ph: "cn_phase (nd_client demo_stored) 0 = Connecting (ae_ip demo_accept)"
    by (simp add: demo_stored_def demo_cn_def demo_ae_ip demo_peer_def)
  have "Client_out (Net (Send_fd 7 m)) \<notin> set out" for m
    by (rule connected_peer_not_poked [OF demo_run_serving a r _ ph e]) simp
  with r e show ?thesis by blast
qed


text \<open>
  The connection back is made, a message to it fails, its threads are joined: it is over, and waits for
  the main loop. The next poke changes nothing.
\<close>

lemma demo_lift:
  assumes "client_step C fr cn ev (Inr (out, cn'))" "own_step (demo_with cn) ev"
  shows "node_next C fr Suc (demo_with cn) (Client ev) (demo_with cn')"
proof -
  have c: "nd_client (demo_with cn) = cn" by (simp add: demo_with_def)
  have "client_moves ev (demo_with cn) (Inr (out, cn')) = Inr (map Client_out out, demo_with cn')"
    by (simp add: client_moves_def demo_with_def demo_accepted_def demo_serving_def node_new_def)
  then show ?thesis using node_step.client [OF assms(2), of C fr "Inr (out, cn')" Suc] assms(1)
    by (auto simp: c node_next_def)
qed

lemma demo_run_over: "\<exists>es. run (node_next C fr Suc) node_new es (demo_with demo_over)"
proof -
  have w: "demo_stored = demo_with demo_pending" by (simp add: demo_stored_def demo_with_def)
  obtain out1 where e: "client_step C fr demo_pending (Establish 0 demo_connect True demo_ip (0, [])) (Inr (out1, demo_up))"
    using demo_establish by metis
  obtain out2 where t: "client_step C fr demo_up (Talk 0 demo_ip (-1, []))
      (Inr (out2, demo_cn (demo_nclient False) [0] Joining [0] [0]))"
    using demo_talk by metis
  have h: "own_step (demo_with demo_pending) (Establish 0 demo_connect True demo_ip (0, []))"
    by (simp add: own_step_def demo_with_def demo_accepted_def demo_peer_def)
      (simp add: demo_cn_def HasClientWithIP_def)
  have r: "run (node_next C fr Suc) node_new [Init_server demo_start, Accept demo_accept, Begin_receive 0,
      Receive 0 (Received (ep_serial (SerializeClientPoke (lit ''10.0.0.1'')))), Client (Store 0)] (demo_with demo_pending)"
    using run_snoc [OF demo_run_poked demo_stores] by (simp add: w)
  define joining keeping where "joining = demo_cn (demo_nclient False) [0] Joining [0] [0]"
    and "keeping = demo_cn (demo_nclient False) [0] Joining [] [0]"
  have s: "node_next C fr Suc (demo_with demo_pending) (Client (Establish 0 demo_connect True demo_ip (0, []))) (demo_with demo_up)"
    "node_next C fr Suc (demo_with demo_up) (Client (Talk 0 demo_ip (-1, []))) (demo_with joining)"
    "node_next C fr Suc (demo_with joining) (Client (Keep 0 (0, []))) (demo_with keeping)"
    "node_next C fr Suc (demo_with keeping) (Client (Join 0)) (demo_with demo_over)"
    using demo_lift [OF e h] demo_lift [OF t] demo_lift [OF demo_keep] demo_lift [OF demo_join]
    unfolding joining_def keeping_def by (simp_all add: own_step_def)
  have "run (node_next C fr Suc) (demo_with demo_pending) [Client (Establish 0 demo_connect True demo_ip (0, [])),
      Client (Talk 0 demo_ip (-1, [])), Client (Keep 0 (0, [])), Client (Join 0)] (demo_with demo_over)"
    using s unfolding run_Cons_iff run_Nil_iff by blast
  then show ?thesis using r by (intro exI) (rule run_append [THEN iffD2], rule exI, rule conjI)
qed

lemma ended_connection_blocks_poke_witness:
  "\<exists>es out. run (node_next toy_crypto demo_fresh Suc) node_new es (demo_with demo_over) \<and>
     cn_phase demo_over 0 = Ended \<and>
     node_step toy_crypto demo_fresh Suc (demo_with demo_over)
       (Receive 0 (Received (ep_serial (SerializeClientPoke (lit ''10.0.0.1''))))) (Inr (out, demo_with demo_over)) \<and>
     nd_calls (demo_with demo_over) = []"
proof -
  obtain es where r: "run (node_next toy_crypto demo_fresh Suc) node_new es (demo_with demo_over)"
    using demo_run_over by metis
  have "request demo_peer demo_over = Inr demo_over"
    by (simp add: request_def connect_start_def heap_get_def demo_peer_def demo_cn_def demo_nclient_def)
  then have "ask (Receiver 0) demo_peer (demo_with demo_over) = Inr (demo_with demo_over)"
    by (simp add: ask_def demo_with_def)
  then obtain out where p: "node_step toy_crypto demo_fresh Suc (demo_with demo_over)
      (Receive 0 (Received (ep_serial (SerializeClientPoke (lit ''10.0.0.1''))))) (Inr (out, demo_with demo_over))"
    using demo_poke_step [of demo_over "demo_with demo_over" toy_crypto demo_fresh]
    by (auto simp: demo_with_def demo_accepted_def)
  have d: "nd_tasks (demo_with demo_over) ! 0 = Waiting (1, 0)"
    "deref (1, 0) (ns_tserver (nd_server (demo_with demo_over))) = Inr ((accepted demo_accept)\<lparr>c_threadHandler := Some 0\<rparr>)"
    "0 \<in> set (cn_active (nd_client (demo_with demo_over)))"
    "cn_heap (nd_client (demo_with demo_over)) 0 = Some (demo_nclient False)"
    "nc_serverIP (demo_nclient False) = c_ip ((accepted demo_accept)\<lparr>c_threadHandler := Some 0\<rparr>)"
    using demo_deref_first by (simp_all add: demo_with_def demo_accepted_def accepted_def demo_ae_ip demo_peer_def)
      (simp_all add: demo_cn_def demo_nclient_def)
  have "cn_phase demo_over 0 = Ended" "nd_calls (demo_with demo_over) = []"
    by (simp_all add: demo_cn_def demo_with_def demo_accepted_def demo_serving_def node_new_def)
  with ended_connection_blocks_poke [OF r d p] r p show ?thesis by blast
qed

end
