(* ===== verification/Driver.thy ===== *)
theory Driver
  imports NodeRuns
begin

section \<open>jc.cpp: the program\<close>

text \<open>
  \<open>main\<close> builds a transaction and a block, checks that both survive their own encoding, and then starts
  the two sides of a node. The output is the list of what is printed; a value of \<open>error\<close> is an exception
  that nobody catches, which ends the program before the node starts.
\<close>

subsection \<open>The tests\<close>

text \<open>
  What the program finds: the files, the seeds of its random pools in the order they are made, the
  clock, and the fields that the default constructor of a block leaves unset.
\<close>

record driver_env =
  de_files :: files
  de_seed :: "nat \<Rightarrow> nat"
  de_now :: u64
  de_built :: fresh
  de_decoded :: fresh

definition test_block ::
  "('pub, 'priv) cryptopp \<Rightarrow> driver_env \<Rightarrow> 'pub \<Rightarrow> 'pub tx \<Rightarrow> bytes list result" where
  "test_block C env miner t =
     (let b0 = Block_new C (de_built env);
          b0 = b0\<lparr>b_tx := b_tx b0 @ [t], b_hash := lit ''0'', b_prev_hash := lit ''0'',
                  b_coinbase := (b_coinbase b0)\<lparr>cb_target := miner, cb_coins := 100\<rparr>\<rparr> in
      rbind (DecodeBlock C (de_decoded env) (Block_Serialize C b0)) (\<lambda>b1.
      Inr (if Block_Serialize C b0 = Block_Serialize C b1
           then [lit (''successfully encoded/decoded block'' @ newline)] else [])))"

definition first_output :: "'pub tx \<Rightarrow> 'pub tx_output result" where
  "first_output t = (case tx_outputs t of [] \<Rightarrow> Inl Out_of_bounds | o1 # os \<Rightarrow> Inr o1)"

definition test_transactions ::
  "('pub, 'priv) cryptopp \<Rightarrow> driver_env \<Rightarrow> bytes list result" where
  "test_transactions C env =
     rbind (LoadKey (pub_BERDecode C) (pub_Validate C) (de_seed env 0) (de_files env)
              (lit ''keys/public_key.key'')) (\<lambda>public_key.
     rbind (LoadKey (priv_BERDecode C) (priv_Validate C) (de_seed env 1) (de_files env)
              (lit ''keys/private_key.key'')) (\<lambda>private_key.
     rbind (GenerateKeys C (de_seed env 2)) (\<lambda>(target_public, target_private).
     let input = \<lparr>txi_block_hash = lit ''ABCDEFG'', txi_input_hash = lit ''XYZZZZZ'', txi_index = 3\<rparr>;
         output = \<lparr>txo_target = target_public, txo_index = 3, txo_coins = 100\<rparr>;
         inputs = [input];
         outputs = [output] in
     rbind (ConstructAndSign C (de_seed env 3) (de_now env) inputs outputs public_key private_key) (\<lambda>t0.
     rbind (DecodeAndVerify C (Tx_Serialize C t0) (tx_sig t0) public_key) (\<lambda>t1.
     rbind (first_output t1) (\<lambda>o1.
     rbind (first_output t0) (\<lambda>o0.
     let line = (if txo_target o1 = txo_target o0
                 then lit (''successfully decoded tx packet'' @ newline)
                 else lit (''failed to decode tx packet'' @ newline)) in
     rbind (test_block C env public_key t0) (\<lambda>out. Inr (line # out)))))))))"

text \<open>The node that \<open>test_server_client\<close> starts: its threads are the steps of the theory Node.\<close>

definition test_server_client :: node where
  "test_server_client = node_new"

definition jc_main :: "('pub, 'priv) cryptopp \<Rightarrow> driver_env \<Rightarrow> (bytes list \<times> node) result" where
  "jc_main C env = rbind (test_transactions C env) (\<lambda>out. Inr (out, test_server_client))"

subsection \<open>What the tests find\<close>

definition driver_block :: "('pub, 'priv) cryptopp \<Rightarrow> driver_env \<Rightarrow> 'pub \<Rightarrow> 'pub tx \<Rightarrow> 'pub block" where
  "driver_block C env miner t = (Block_new C (de_built env))\<lparr>b_tx := [t], b_hash := lit ''0'',
     b_prev_hash := lit ''0'', b_coinbase := \<lparr>cb_coins = 100, cb_target = miner\<rparr>\<rparr>"

lemma test_block_prints:
  assumes "crypto_laws C" "tx_ok C t" "tx_relayable t"
  shows "test_block C env miner t = Inr [lit (''successfully encoded/decoded block'' @ newline)]"
proof -
  let ?b = "driver_block C env miner t"
  have "block_ok C ?b" "block_relayable ?b"
    using assms by (simp_all add: block_ok_def block_relayable_def driver_block_def crypto_laws_key_ok)
  then obtain b' where "DecodeBlock C (de_decoded env) (Block_Serialize C ?b) = Inr b'"
    "Block_Serialize C b' = Block_Serialize C ?b"
    using relayable_block_decoded by blast
  then show ?thesis by (simp add: test_block_def Let_def driver_block_def Block_new_def)
qed

text \<open>The whole of the tests, under the laws of the library.\<close>

definition driver_tx ::
  "('pub, 'priv) cryptopp \<Rightarrow> driver_env \<Rightarrow> 'pub \<Rightarrow> 'pub \<Rightarrow> 'priv \<Rightarrow> 'pub tx result" where
  "driver_tx C env target pk sk = ConstructAndSign C (de_seed env 3) (de_now env)
     [\<lparr>txi_block_hash = lit ''ABCDEFG'', txi_input_hash = lit ''XYZZZZZ'', txi_index = 3\<rparr>]
     [\<lparr>txo_target = target, txo_index = 3, txo_coins = 100\<rparr>] pk sk"

lemma driver_tx_ok:
  assumes "crypto_laws C" "driver_tx C env target pk sk = Inr t"
  shows "tx_ok C t" "tx_relayable t" "\<exists>o1. tx_outputs t = [o1] \<and> txo_coins o1 < 2 ^ 32"
    "tx_hash t = SHA256 C (Tx_Serialize C t)" "tx_sig t = SignMessage C (de_seed env 3) (Tx_Serialize C t @ tx_hash t) pk sk"
  using ConstructAndSign_Inr [OF assms(2) [unfolded driver_tx_def]] assms(1)
  by (simp_all add: tx_ok_def output_ok_def input_ok_def tx_relayable_def crypto_laws_key_ok)

lemma driver_tx_fails:
  "driver_tx C env target pk sk = Inl e \<Longrightarrow> target = pk \<and> e = Runtime_error ''Transaction can't be to myself''"
  by (auto simp: driver_tx_def ConstructAndSign_def Let_def split: if_splits)

definition success_lines :: "bytes list" where
  "success_lines = [lit (''successfully decoded tx packet'' @ newline), lit (''successfully encoded/decoded block'' @ newline)]"

lemma test_transactions_outcome:
  assumes "crypto_laws C"
  shows "test_transactions C env =
     rbind (LoadKey (pub_BERDecode C) (pub_Validate C) (de_seed env 0) (de_files env) (lit ''keys/public_key.key'')) (\<lambda>pk.
     rbind (LoadKey (priv_BERDecode C) (priv_Validate C) (de_seed env 1) (de_files env) (lit ''keys/private_key.key'')) (\<lambda>sk.
     rbind (GenerateKeys C (de_seed env 2)) (\<lambda>(target, _).
     rbind (driver_tx C env target pk sk) (\<lambda>t.
     if ValidateSignature C (Tx_Serialize C t @ tx_hash t) (tx_sig t) pk
     then Inr success_lines
     else Inl (Runtime_error ''Failed to DecodeAndVerify Tx'')))))"
proof -
  have rest: "rbind (DecodeAndVerify C (Tx_Serialize C t) (tx_sig t) pk) (\<lambda>t1.
      rbind (first_output t1) (\<lambda>o1. rbind (first_output t) (\<lambda>o0.
      let line = (if txo_target o1 = txo_target o0
                 then lit (''successfully decoded tx packet'' @ newline)
                 else lit (''failed to decode tx packet'' @ newline)) in
      rbind (test_block C env pk t) (\<lambda>out. Inr (line # out))))) =
      (if ValidateSignature C (Tx_Serialize C t @ tx_hash t) (tx_sig t) pk
       then Inr success_lines
       else Inl (Runtime_error ''Failed to DecodeAndVerify Tx''))"
    if "driver_tx C env target pk sk = Inr t" for target pk sk t
  proof -
    note t = driver_tx_ok [OF assms that]
    obtain o1 where o1: "tx_outputs t = [o1]" "txo_coins o1 < 2 ^ 32" using t(3) by blast
    show ?thesis
      unfolding DecodeAndVerify_single [OF t(1) o1 t(4)] test_block_prints [OF assms t(1,2)]
      by (simp add: first_output_def o1 success_lines_def)
  qed
  show ?thesis
    unfolding test_transactions_def Let_def driver_tx_def [symmetric]
    apply (intro rbind_cong refl)
    subgoal for pk sk p
      using rest [unfolded Let_def, of "fst p" pk sk]
      by (cases p; cases "driver_tx C env (fst p) pk sk") simp_all
    done
qed

text \<open>
  C23: with the two halves of one key pair in its key files, and a target key that is not the node's own,
  the program prints the two lines of success, in order, and then starts the node from its initial
  state.\<close>

theorem jc_main_prints:
  assumes "key_pair C pk sk" "pub_BERDecode C pub_file = Some pk" "priv_BERDecode C priv_file = Some sk"
    and "de_files env (lit ''keys/public_key.key'') = Some pub_file"
    and "de_files env (lit ''keys/private_key.key'') = Some priv_file"
    and "pub_Validate C (de_seed env 0) 3 pk" "priv_Validate C (de_seed env 1) 3 sk"
    and "GenerateKeys C (de_seed env 2) = Inr (target, target_sk)" "target \<noteq> pk"
  shows "jc_main C env = Inr ([lit (''successfully decoded tx packet'' @ newline),
     lit (''successfully encoded/decoded block'' @ newline)], node_new)"
proof -
  have laws: "crypto_laws C" and pk: "pk = AssignFrom C sk" using assms(1) by (simp_all add: key_pair_def)
  obtain t where t: "driver_tx C env target pk sk = Inr t"
    using driver_tx_fails [of C env target pk sk] assms(9) by (cases "driver_tx C env target pk sk") auto
  have "ValidateSignature C (Tx_Serialize C t @ tx_hash t) (tx_sig t) pk"
    unfolding driver_tx_ok(5) [OF laws t] by (rule dsa.verify_sign [OF assms(1)])
  then have "test_transactions C env = Inr success_lines"
    using assms(2-8) t by (simp add: test_transactions_outcome [OF laws] LoadKey_def)
  then show ?thesis by (simp add: jc_main_def test_server_client_def success_lines_def)
qed

text \<open>
  C29: the program can end before the node starts only through the key files, the generation of the target
  key, a target key that is its own, or key files that do not belong together; its own encoders and
  decoders are never the reason. It never prints that a check failed.\<close>

theorem jc_main_failures:
  assumes "crypto_laws C"
  shows "(\<forall>e. jc_main C env = Inl e \<longrightarrow>
       e \<in> {File_OpenErr, BERDecodeErr, Runtime_error ''DSA key validation failed.\<newline>'',
             Runtime_error ''DSA generation failed'', Runtime_error ''Transaction can't be to myself'',
             Runtime_error ''Failed to DecodeAndVerify Tx''}) \<and>
    (\<forall>out nd. jc_main C env = Inr (out, nd) \<longrightarrow> nd = node_new \<and>
       out = [lit (''successfully decoded tx packet'' @ newline), lit (''successfully encoded/decoded block'' @ newline)])"
proof (intro conjI allI impI)
  fix e assume "jc_main C env = Inl e"
  then have "test_transactions C env = Inl e" by (auto simp: jc_main_def rbind_eq_Inl)
  then show "e \<in> {File_OpenErr, BERDecodeErr, Runtime_error ''DSA key validation failed.\<newline>'',
             Runtime_error ''DSA generation failed'', Runtime_error ''Transaction can't be to myself'',
             Runtime_error ''Failed to DecodeAndVerify Tx''}"
    unfolding test_transactions_outcome [OF assms] using driver_tx_fails
    by (fastforce simp: rbind_eq_Inl GenerateKeys_def Let_def dest!: LoadKey_Inl split: if_splits)
next
  fix out nd assume j: "jc_main C env = Inr (out, nd)"
  then have "test_transactions C env = Inr out" by (auto simp: jc_main_def)
  then have "out = success_lines"
    unfolding test_transactions_outcome [OF assms] by (auto split: if_splits)
  then show "nd = node_new" "out = [lit (''successfully decoded tx packet'' @ newline),
      lit (''successfully encoded/decoded block'' @ newline)]"
    using j by (auto simp: jc_main_def test_server_client_def success_lines_def)
qed

subsection \<open>A concrete environment\<close>

definition demo_env :: driver_env where
  "demo_env = \<lparr>de_files = [lit ''keys/public_key.key'' \<mapsto> [7], lit ''keys/private_key.key'' \<mapsto> [7]],
     de_seed = (\<lambda>n. n), de_now = 1000, de_built = demo_fresh, de_decoded = demo_fresh\<rparr>"

lemma demo_files:
  "de_files demo_env (lit ''keys/public_key.key'') = Some [7]"
  "de_files demo_env (lit ''keys/private_key.key'') = Some [7]"
  by (simp_all add: demo_env_def)

lemma jc_main_prints_witness:
  "jc_main toy_crypto demo_env = Inr ([lit (''successfully decoded tx packet'' @ newline),
     lit (''successfully encoded/decoded block'' @ newline)], node_new)"
proof (rule jc_main_prints [OF _ _ _ demo_files])
  show "key_pair toy_crypto 7 7" by (simp add: key_pair_def toy_crypto_laws) (simp add: toy_crypto_def)
  show "GenerateKeys toy_crypto (de_seed demo_env 2) = Inr (2, 2)"
    by (simp add: GenerateKeys_def toy_crypto_def demo_env_def)
qed (simp_all add: toy_crypto_def)

lemma jc_main_failures_witness:
  "\<exists>e. jc_main toy_crypto (demo_env\<lparr>de_files := Map.empty\<rparr>) = Inl e \<and> e = File_OpenErr"
proof -
  have "jc_main toy_crypto (demo_env\<lparr>de_files := Map.empty\<rparr>) = Inl File_OpenErr"
    by (simp add: jc_main_def test_transactions_def LoadKey_def)
  with jc_main_failures [OF toy_crypto_laws, of "demo_env\<lparr>de_files := Map.empty\<rparr>"] show ?thesis by blast
qed

end
