(* ===== verification/Link.thy ===== *)
theory Link
  imports NodeRuns
begin

section \<open>Between two nodes: the stream\<close>

text \<open>
  The sends of one side of a connection and the \<open>recv\<close> calls of the other. TCP is not part of the
  program; what the code relies on is that the bytes arrive in order, and nothing says where \<open>recv\<close> cuts
  them. A message is what one \<open>send\<close> was given; a piece is what one \<open>recv\<close> returned.
\<close>

subsection \<open>The stream\<close>

record link =
  lk_sent :: "bytes list"
  lk_pieces :: "bytes list"

definition link_new :: link where
  "link_new = \<lparr>lk_sent = [], lk_pieces = []\<rparr>"

definition in_transit :: "link \<Rightarrow> bytes" where
  "in_transit lk = drop (length (concat (lk_pieces lk))) (concat (lk_sent lk))"

datatype link_event = Send_msg bytes | Deliver nat

inductive link_step :: "link \<Rightarrow> link_event \<Rightarrow> link \<Rightarrow> bool" where
  send: "link_step lk (Send_msg m) (lk\<lparr>lk_sent := lk_sent lk @ [m]\<rparr>)"
| deliver: "recv_ok (Received (take n (in_transit lk))) \<Longrightarrow> n \<le> length (in_transit lk) \<Longrightarrow>
    link_step lk (Deliver n) (lk\<lparr>lk_pieces := lk_pieces lk @ [take n (in_transit lk)]\<rparr>)"

inductive_simps link_step_send_iff: "link_step lk (Send_msg m) lk'"
inductive_simps link_step_deliver_iff: "link_step lk (Deliver n) lk'"

text \<open>What was delivered and what is on the way are what was sent.\<close>

definition link_inv :: "link \<Rightarrow> bool" where
  "link_inv lk \<longleftrightarrow> concat (lk_sent lk) = concat (lk_pieces lk) @ in_transit lk \<and>
     list_all (\<lambda>m. recv_ok (Received m)) (lk_pieces lk)"

interpretation link: step_invariant link_step link_inv
proof unfold_locales
  fix lk ev lk' assume inv: "link_inv lk" and s: "link_step lk ev lk'"
  obtain rest where r: "concat (lk_sent lk) = concat (lk_pieces lk) @ rest" "in_transit lk = rest"
    using inv by (simp add: link_inv_def)
  from s show "link_inv lk'"
    using inv r by cases (simp_all add: link_inv_def in_transit_def)
qed

subsection \<open>Heartbeats behind other messages\<close>

text \<open>
  A client sends a greeting and a heartbeat, and the network delivers the two in one piece, again and
  again.
\<close>

definition greeting :: "bytes \<Rightarrow> bytes" where
  "greeting s = ep_serial (SerializeSimpleString s)"

definition heartbeat_msg :: bytes where
  "heartbeat_msg = ep_serial SerializeHeartbeat"

definition together :: "bytes list \<Rightarrow> link_event list" where
  "together ss = concat (map (\<lambda>s. [Send_msg (greeting s), Send_msg heartbeat_msg,
     Deliver (length (greeting s @ heartbeat_msg))]) ss)"

lemma together_pieces:
  assumes "run link_step lk (together ss) lk'" "in_transit lk = []" "link_inv lk"
  shows "lk_pieces lk' = lk_pieces lk @ map (\<lambda>s. greeting s @ heartbeat_msg) ss"
  using assms
proof (induction ss arbitrary: lk)
  case Nil
  then show ?case by (simp add: together_def)
next
  case (Cons s ss)
  let ?m = "greeting s @ heartbeat_msg"
  let ?lk = "lk\<lparr>lk_sent := lk_sent lk @ [greeting s, heartbeat_msg], lk_pieces := lk_pieces lk @ [?m]\<rparr>"
  have t: "in_transit (lk\<lparr>lk_sent := lk_sent lk @ [greeting s, heartbeat_msg]\<rparr>) = ?m"
    using Cons.prems(2,3) by (simp add: in_transit_def link_inv_def)
  have r: "run link_step ?lk (together ss) lk'"
    using Cons.prems(1) t by (auto simp: together_def run_Cons_iff link_step_send_iff link_step_deliver_iff)
  have "link_step (lk\<lparr>lk_sent := lk_sent lk @ [greeting s, heartbeat_msg]\<rparr>) (Deliver (length ?m)) ?lk"
    using Cons.prems(1) t by (auto simp: together_def run_Cons_iff link_step_send_iff link_step_deliver_iff)
  then have "link_inv ?lk"
    using link.inv_step [OF link.inv_step [OF link.inv_step [OF Cons.prems(3) link_step.send [of lk "greeting s"]]]]
      link_step.send [of "lk\<lparr>lk_sent := lk_sent lk @ [greeting s]\<rparr>" heartbeat_msg]
    by (simp add: append.assoc)
  moreover have "in_transit ?lk = []" using Cons.prems(2,3) by (simp add: in_transit_def link_inv_def)
  ultimately show ?case using Cons.IH [OF r] by simp
qed

lemma together_sent:
  assumes "run link_step lk (together ss) lk'" "in_transit lk = []" "link_inv lk"
  shows "in_transit lk' = [] \<and> lk_sent lk' = lk_sent lk @ concat (map (\<lambda>s. [greeting s, heartbeat_msg]) ss)"
proof -
  have "lk_sent lk' = lk_sent lk @ concat (map (\<lambda>s. [greeting s, heartbeat_msg]) ss)"
    using assms(1)
    by (induction ss arbitrary: lk)
      (auto simp: together_def run_Cons_iff link_step_send_iff link_step_deliver_iff)
  moreover have "concat (concat (map (\<lambda>s. [greeting s, heartbeat_msg]) ss)) = concat (map (\<lambda>s. greeting s @ heartbeat_msg) ss)"
    by (induction ss) auto
  ultimately have "concat (lk_sent lk') = concat (lk_pieces lk')"
    using together_pieces [OF assms] assms(2,3) by (simp add: link_inv_def)
  with \<open>lk_sent lk' = _\<close> show ?thesis by (simp add: in_transit_def)
qed

lemma greeting_hides_heartbeat:
  assumes "sized_ok s"
  shows "\<exists>out. NodeServer_ReceiveMessage c (greeting s @ heartbeat_msg) ns = Inr ([Out out], ns)"
  using simple_string.header [of s heartbeat_msg] simple_string.decode [OF assms, of heartbeat_msg]
  by (simp add: NodeServer_ReceiveMessage_def greeting_def type_defs)

text \<open>The receive thread of the server on such pieces.\<close>

lemma receive_greeting:
  assumes "node_next C fr grow nd (Receive i (Received (greeting s @ heartbeat_msg))) nd'" "node_inv nd"
    and "sized_ok s"
  shows "nd_server nd' = nd_server nd"
proof -
  let ?m = "greeting s @ heartbeat_msg"
  obtain p out where "node_receives i p (Received ?m) nd = Inr (out, nd')"
    using assms(1) unfolding node_next_def by (metis node_step_receiveE)
  then obtain effs goes ns nd1 ts where r: "server_receives p (Received ?m) (nd_server nd) = Inr (effs, goes, ns)"
    "ask_all (Receiver i) (connects effs) (nd\<lparr>nd_server := ns\<rparr>) = Inr nd1" "nd' = nd1\<lparr>nd_tasks := ts\<rparr>"
    by (metis node_receives_shape)
  then obtain c where c: "deref p (ns_tserver (nd_server nd)) = Inr c"
    by (auto simp: server_receives_def receive_reply_def)
  have "ts_clients (ns_tserver (nd_server nd)) \<noteq> []" using c by (auto simp: deref_def split: if_splits)
  then have "nd_serving nd" using assms(2) by (auto simp: node_inv_def node_typed_def)
  note pub = node_publishes [OF assms(2) this, of c ?m]
  obtain o1 where "NodeServer_ReceiveMessage c ?m (nd_server nd) = Inr ([Out o1], nd_server nd)"
    using greeting_hides_heartbeat [OF assms(3)] by blast
  then have "effs = [Out o1]" "ns = nd_server nd"
    using r(1) c pub by (auto simp: server_receives_def receive_reply_def)
  then show ?thesis using r(2,3) by simp
qed

lemma receive_greetings:
  assumes "run (node_next C fr grow) nd (map (\<lambda>s. Receive i (Received (greeting s @ heartbeat_msg))) ss) nd'"
    and "node_inv nd" "list_all sized_ok ss"
  shows "nd_server nd' = nd_server nd"
  using assms
proof (induction ss arbitrary: nd)
  case (Cons s ss)
  then obtain nd1 where 1: "node_next C fr grow nd (Receive i (Received (greeting s @ heartbeat_msg))) nd1"
    "run (node_next C fr grow) nd1 (map (\<lambda>s. Receive i (Received (greeting s @ heartbeat_msg))) ss) nd'"
    by (auto simp: run_Cons_iff)
  have "nd_server nd1 = nd_server nd" using receive_greeting [OF 1(1)] Cons.prems by simp
  moreover have "nd_server nd' = nd_server nd1"
    using Cons.IH [OF 1(2) node.inv_step [OF Cons.prems(2) 1(1)]] Cons.prems(3) by simp
  ultimately show ?case by simp
qed simp

text \<open>
  C18: a client that keeps sending heartbeats is killed for their lack when the network delivers each of
  them behind another message of the client: the server handles the first message of a piece only, so
  that no heartbeat is counted, and the next round of the heartbeat loop closes the connection.\<close>

theorem coalesced_heartbeats_kill:
  assumes "run (node_next C fr grow) node_new es nd" "list_all sized_ok ss"
    and "map_find (ns_connected (nd_server nd)) IP = Some c" "map_find (ns_heartbeats (nd_server nd)) IP = None"
    and "run link_step link_new (together ss) lk"
    and "run (node_next C fr grow) nd (map (\<lambda>m. Receive i (Received m)) (lk_pieces lk)) nd1"
    and "node_step C fr grow nd1 Heartbeats (Inr (out, nd2))"
  shows "lk_sent lk = concat (map (\<lambda>s. [greeting s, heartbeat_msg]) ss) \<and> in_transit lk = [] \<and>
     \<not> HasClientWithIP (nd_server nd2) IP \<and> Server_out (Tcp (Close_fd (c_sockfd c))) \<in> set out"
proof -
  have new: "link_inv link_new" "in_transit link_new = []" by (simp_all add: link_inv_def in_transit_def link_new_def)
  have p: "lk_pieces lk = map (\<lambda>s. greeting s @ heartbeat_msg) ss"
    using together_pieces [OF assms(5) new(2,1)] by (simp add: link_new_def)
  have inv: "node_inv nd" by (rule node.inv_run [OF assms(1) node_inv_new])
  have same: "nd_server nd1 = nd_server nd"
    using receive_greetings [of C fr grow nd i ss nd1] assms(2,6) inv by (simp add: p comp_def)
  obtain o1 ns where r: "heartbeat_round (nd_server nd) = Inr (o1, ns)" "nd_server nd2 = ns" "out = map Server_out o1"
    using assms(7) same by (elim node_step_heartbeatsE Inr_rbindE) auto
  have typed: "ordered (ns_connected (nd_server nd))"
    using inv by (simp add: node_inv_def node_typed_def server_typed_def)
  have "ns_connected ns = filter (\<lambda>(IP, c). map_find (ns_heartbeats (nd_server nd)) IP \<noteq> None) (ns_connected (nd_server nd))"
    by (rule heartbeat_round_spec_aux [OF typed r(1)])
  then have "\<not> HasClientWithIP ns IP" using assms(4) by (auto simp: HasClientWithIP_def list_ex_iff)
  moreover have "Tcp (Close_fd (c_sockfd c)) \<in> set o1"
    using heartbeat_round_closes [OF r(1) _ assms(4)] assms(3) typed by (simp add: map_find_in)
  ultimately show ?thesis using r together_sent [OF assms(5) new(2,1)] by (simp add: link_new_def)
qed

subsection \<open>A concrete run\<close>

text \<open>
  The client of the demonstration node survives the first round of the heartbeat loop, its next greeting
  and heartbeat come together, and the second round kills it.
\<close>

definition demo_beats :: "(bytes, bool) ordmap \<Rightarrow> node" where
  "demo_beats hb = (demo_accepted (Waiting (1, 0)))\<lparr>nd_server :=
     (nd_server (demo_accepted (Waiting (1, 0))))\<lparr>ns_heartbeats := hb\<rparr>\<rparr>"

definition demo_silent :: node where
  "demo_silent = demo_beats []"

lemma demo_beats_accepted: "demo_accepted (Waiting (1, 0)) = demo_beats [(demo_peer, True)]"
  by (simp add: demo_beats_def demo_accepted_def)

lemma demo_together:
  "\<exists>lk. run link_step link_new (together [lit ''hi'']) lk \<and> lk_pieces lk = [greeting (lit ''hi'') @ heartbeat_msg]"
proof -
  let ?m = "greeting (lit ''hi'') @ heartbeat_msg"
  have l: "0 < length ?m" "length ?m \<le> MAX_PACKET_SIZE"
    by (simp_all add: greeting_def heartbeat_msg_def packet_shapes packet_bytes_def MAX_PACKET_SIZE_def)
  have t: "in_transit \<lparr>lk_sent = [greeting (lit ''hi''), heartbeat_msg], lk_pieces = []\<rparr> = ?m"
    by (simp add: in_transit_def)
  have "run link_step link_new (together [lit ''hi''])
      \<lparr>lk_sent = [greeting (lit ''hi''), heartbeat_msg], lk_pieces = [?m]\<rparr>"
    using l t by (simp add: together_def run_Cons_iff link_step_send_iff link_step_deliver_iff link_new_def)
  then show ?thesis by force
qed

lemma demo_first_round: "node_next C fr Suc (demo_accepted (Waiting (1, 0))) Heartbeats demo_silent"
proof -
  have "heartbeat_round (nd_server (demo_accepted (Waiting (1, 0)))) = Inr ([], nd_server demo_silent)"
    by (simp add: heartbeat_round_def demo_silent_def demo_beats_def demo_accepted_def map_find_def)
  moreover have "nd_serving (demo_accepted (Waiting (1, 0)))" by (simp add: demo_accepted_def demo_serving_def)
  ultimately show ?thesis using node_step.heartbeats [of "demo_accepted (Waiting (1, 0))" C fr Suc]
    by (auto simp: node_next_def demo_silent_def demo_beats_def)
qed

text \<open>The receive thread on a message whose handling only prints and sets heartbeats.\<close>

lemma demo_receives:
  fixes hb hb' :: "(bytes, bool) ordmap"
  assumes "NodeServer_ReceiveMessage ((accepted demo_accept)\<lparr>c_threadHandler := Some 0\<rparr>) m (nd_server (demo_beats hb)) =
      Inr (map Out os, (nd_server (demo_beats hb))\<lparr>ns_heartbeats := hb'\<rparr>)"
    and "recv_ok (Received m)"
  shows "node_next C fr Suc (demo_beats hb) (Receive 0 (Received m)) (demo_beats hb')"
proof -
  let ?c = "(accepted demo_accept)\<lparr>c_threadHandler := Some 0\<rparr>"
  have srv: "(nd_server (demo_beats hb))\<lparr>ns_heartbeats := hb'\<rparr> = nd_server (demo_beats hb')"
    "ns_tserver (nd_server (demo_beats hb')) = ns_tserver (nd_server (demo_beats hb))"
    by (simp_all add: demo_beats_def)
  have pub: "publishClientMsg (ns_tserver (nd_server (demo_beats hb))) ?c m = [Call_message fn_ReceiveMessage ?c m]"
    by (simp add: publishClientMsg_def notify_message_def node_observer_def demo_beats_def demo_accepted_def demo_tcp_def)
  have d: "deref (1, 0) (ns_tserver (nd_server (demo_beats hb))) = Inr ?c"
    by (simp add: deref_def demo_beats_def demo_accepted_def demo_tcp_def)
  have "server_receives (1, 0) (Received m) (nd_server (demo_beats hb)) = Inr (map Out os, True, nd_server (demo_beats hb'))"
    using assms(1) pub d srv by (simp add: server_receives_def receive_reply_def)
  moreover have "resume (1, 0) 0 (ns_tserver (nd_server (demo_beats hb))) [Waiting (1, 0)]
      = Inr (ns_tserver (nd_server (demo_beats hb)), [Waiting (1, 0)])"
    using d by (simp add: resume_def receive_test_def isConnected_def accepted_def)
  moreover have ts: "nd_tasks (demo_beats hb) = [Waiting (1, 0)]" by (simp add: demo_beats_def demo_accepted_def)
  moreover have "connects (map Out os) = []" by (induction os) simp_all
  ultimately have "\<exists>out. node_receives 0 (1, 0) (Received m) (demo_beats hb) = Inr (out, demo_beats hb')"
    using srv(2) by (auto simp: node_receives_def) (auto simp: demo_beats_def demo_accepted_def)
  moreover have "\<not> calling (Receiver 0) (demo_beats hb)"
    by (simp add: calling_def demo_beats_def demo_accepted_def demo_serving_def node_new_def)
  ultimately show ?thesis
    using node_step.receive [of 0 "demo_beats hb" "(1, 0)" "Received m" C fr Suc] ts assms(2)
    by (auto simp: node_next_def)
qed

lemma demo_silent_receives:
  "node_next C fr Suc demo_silent (Receive 0 (Received (greeting (lit ''hi'') @ heartbeat_msg))) demo_silent"
proof -
  let ?m = "greeting (lit ''hi'') @ heartbeat_msg"
  let ?c = "(accepted demo_accept)\<lparr>c_threadHandler := Some 0\<rparr>"
  obtain o1 where m: "NodeServer_ReceiveMessage ?c ?m (nd_server demo_silent) = Inr ([Out o1], nd_server demo_silent)"
    using greeting_hides_heartbeat [of "lit ''hi''" ?c "nd_server demo_silent"] by (auto simp: sized_ok_def)
  have "recv_ok (Received ?m)"
    by (simp add: greeting_def heartbeat_msg_def packet_shapes packet_bytes_def MAX_PACKET_SIZE_def)
  moreover have "(nd_server (demo_beats []))\<lparr>ns_heartbeats := []\<rparr> = nd_server (demo_beats [])"
    by (simp add: demo_beats_def)
  ultimately show ?thesis using demo_receives [of ?m "[]" "[o1]" "[]"] m by (simp add: demo_silent_def)
qed

lemma demo_second_round: "\<exists>out nd. node_step C fr Suc demo_silent Heartbeats (Inr (out, nd))"
proof -
  have "\<exists>out ns. heartbeat_round (nd_server demo_silent) = Inr (out, ns)"
    by (rule heartbeat_round_one)
      (simp_all add: demo_silent_def demo_beats_def demo_accepted_def demo_tcp_def wf_server_def accepted_def Client_new_def)
  then obtain out ns where r: "heartbeat_round (nd_server demo_silent) = Inr (out, ns)" by blast
  have "nd_serving demo_silent" by (simp add: demo_silent_def demo_beats_def demo_accepted_def demo_serving_def)
  from node_step.heartbeats [OF this, of C fr Suc] r
  have "node_step C fr Suc demo_silent Heartbeats (Inr (map Server_out out, demo_silent\<lparr>nd_server := ns\<rparr>))"
    by simp
  then show ?thesis by blast
qed

lemma coalesced_heartbeats_kill_witness:
  "\<exists>lk out nd. run link_step link_new (together [lit ''hi'']) lk \<and>
     run (node_next toy_crypto demo_fresh Suc) demo_silent (map (\<lambda>m. Receive 0 (Received m)) (lk_pieces lk)) demo_silent \<and>
     node_step toy_crypto demo_fresh Suc demo_silent Heartbeats (Inr (out, nd)) \<and>
     lk_sent lk = [greeting (lit ''hi''), heartbeat_msg] \<and>
     \<not> HasClientWithIP (nd_server nd) demo_peer \<and> Server_out (Tcp (Close_fd 5)) \<in> set out"
proof -
  obtain lk where lk: "run link_step link_new (together [lit ''hi'']) lk"
    "lk_pieces lk = [greeting (lit ''hi'') @ heartbeat_msg]"
    using demo_together by blast
  obtain out nd where h: "node_step toy_crypto demo_fresh Suc demo_silent Heartbeats (Inr (out, nd))"
    using demo_second_round by metis
  have r: "run (node_next toy_crypto demo_fresh Suc) demo_silent (map (\<lambda>m. Receive 0 (Received m)) (lk_pieces lk)) demo_silent"
    using demo_silent_receives [of toy_crypto demo_fresh] by (simp add: lk(2) run_single)
  have n: "run (node_next toy_crypto demo_fresh Suc) node_new
      ([Init_server demo_start, Accept demo_accept, Begin_receive 0] @ [Heartbeats]) demo_silent"
    by (rule run_snoc [OF demo_run_accepted demo_first_round])
  have f: "map_find (ns_connected (nd_server demo_silent)) demo_peer = Some (accepted demo_accept)"
    "map_find (ns_heartbeats (nd_server demo_silent)) demo_peer = None" "c_sockfd (accepted demo_accept) = 5"
    by (simp_all add: demo_silent_def demo_beats_def demo_accepted_def map_find_def accepted_def demo_accept_def)
  have z: "list_all sized_ok [lit ''hi'']" by (simp add: sized_ok_def)
  from coalesced_heartbeats_kill [OF n z f(1,2) lk(1) r h] lk(1) r h f(3) show ?thesis by auto
qed

end
