(* ===== verification/Timing.thy ===== *)
theory Timing
  imports Link
begin

section \<open>Heartbeats on time\<close>

text \<open>
  The two clocks of the program: the server's heartbeat loop sleeps \<open>KEEP_ALIVE_TIME\<close> between two rounds,
  and the keep-alive thread of a client \<open>keep_alive_sleep\<close> between two heartbeats. A node is watched
  for one address: when its last heartbeat came, and when the last round was. A sleep takes at least as
  long as it is asked to, so rounds are that far apart. What the network and the client's scheduler do is
  a bound on the time between two counted heartbeats: the client's sleep and \<open>delay\<close> seconds. No step of
  the node is later than that after the last heartbeat.
\<close>

record watched =
  wt_node :: node
  wt_now :: nat
  wt_beat :: nat
  wt_round :: nat

text \<open>A receive thread, whose client has the address, gets a heartbeat, whatever comes behind it.\<close>

definition beats :: "bytes \<Rightarrow> node \<Rightarrow> node_event \<Rightarrow> bool" where
  "beats IP nd ev \<longleftrightarrow> (\<exists>i p c post. ev = Receive i (Received (heartbeat_msg @ post)) \<and>
     nd_tasks nd ! i = Waiting p \<and> deref p (ns_tserver (nd_server nd)) = Inr c \<and> c_ip c = IP)"

inductive watched_step ::
  "('pub, 'priv) cryptopp \<Rightarrow> fresh \<Rightarrow> (nat \<Rightarrow> nat) \<Rightarrow> bytes \<Rightarrow> nat \<Rightarrow> watched \<Rightarrow> nat \<times> node_event \<Rightarrow> watched \<Rightarrow> bool"
  for C fr grow IP delay where
  beat: "node_next C fr grow (wt_node w) ev nd \<Longrightarrow> wt_now w \<le> t \<Longrightarrow>
    t \<le> wt_beat w + keep_alive_sleep + delay \<Longrightarrow> beats IP (wt_node w) ev \<Longrightarrow>
    watched_step C fr grow IP delay w (t, ev) (w\<lparr>wt_node := nd, wt_now := t, wt_beat := t\<rparr>)"
| round: "node_next C fr grow (wt_node w) Heartbeats nd \<Longrightarrow> wt_now w \<le> t \<Longrightarrow>
    t \<le> wt_beat w + keep_alive_sleep + delay \<Longrightarrow> wt_round w + KEEP_ALIVE_TIME \<le> t \<Longrightarrow>
    watched_step C fr grow IP delay w (t, Heartbeats) (w\<lparr>wt_node := nd, wt_now := t, wt_round := t\<rparr>)"
| other: "node_next C fr grow (wt_node w) ev nd \<Longrightarrow> wt_now w \<le> t \<Longrightarrow>
    t \<le> wt_beat w + keep_alive_sleep + delay \<Longrightarrow> ev \<noteq> Heartbeats \<Longrightarrow> \<not> beats IP (wt_node w) ev \<Longrightarrow>
    watched_step C fr grow IP delay w (t, ev) (w\<lparr>wt_node := nd, wt_now := t\<rparr>)"

text \<open>The address is known, and its heartbeat is there when it came after the last round.\<close>

definition watched_inv :: "bytes \<Rightarrow> watched \<Rightarrow> bool" where
  "watched_inv IP w \<longleftrightarrow> node_inv (wt_node w) \<and> known IP (wt_node w) \<and>
     wt_beat w \<le> wt_now w \<and> wt_round w \<le> wt_now w \<and>
     (wt_round w < wt_beat w \<longrightarrow> fresh_client IP (wt_node w))"

lemma beat_counts:
  assumes "node_next C fr grow nd ev nd'" "beats IP nd ev" "node_inv nd"
  shows "map_find (ns_heartbeats (nd_server nd')) IP \<noteq> None"
proof -
  obtain i p c post where ev: "ev = Receive i (Received (heartbeat_msg @ post))" and p: "nd_tasks nd ! i = Waiting p"
    and c: "deref p (ns_tserver (nd_server nd)) = Inr c" "c_ip c = IP"
    using assms(2) by (auto simp: beats_def)
  let ?m = "heartbeat_msg @ post"
  obtain out where "node_step C fr grow nd (Receive i (Received ?m)) (Inr (out, nd'))"
    using assms(1) ev by (auto simp: node_next_def)
  then obtain p' where "nd_tasks nd ! i = Waiting p'" "node_receives i p' (Received ?m) nd = Inr (out, nd')"
    by (metis node_step_receiveE)
  then have "node_receives i p (Received ?m) nd = Inr (out, nd')" using p by simp
  then obtain effs goes ns nd1 ts where r: "server_receives p (Received ?m) (nd_server nd) = Inr (effs, goes, ns)"
    "ask_all (Receiver i) (connects effs) (nd\<lparr>nd_server := ns\<rparr>) = Inr nd1" "nd' = nd1\<lparr>nd_tasks := ts\<rparr>"
    by (metis node_receives_shape)
  have "ts_clients (ns_tserver (nd_server nd)) \<noteq> []" using c by (auto simp: deref_def split: if_splits)
  then have "nd_serving nd" using assms(3) by (auto simp: node_inv_def node_typed_def)
  note pub = node_publishes [OF assms(3) this, of c ?m]
  have "NodeServer_ReceiveMessage c ?m (nd_server nd) =
      Inr ([], (nd_server nd)\<lparr>ns_heartbeats := map_set IP True (ns_heartbeats (nd_server nd))\<rparr>)"
    using ReceiveMessage_heartbeat [of c post] c(2) by (simp add: heartbeat_msg_def)
  then have ns: "ns = (nd_server nd)\<lparr>ns_heartbeats := map_set IP True (ns_heartbeats (nd_server nd))\<rparr>" "effs = []"
    using r(1) c(1) pub by (auto simp: server_receives_def receive_reply_def)
  have "ordered (ns_heartbeats (nd_server nd))"
    using assms(3) by (simp add: node_inv_def node_typed_def server_typed_def)
  then show ?thesis using r(2,3) ns by (auto simp: ordmap.find_set)
qed

lemma watched_step_inv:
  assumes "delay < KEEP_ALIVE_TIME - keep_alive_sleep" "watched_inv IP w"
    and "watched_step C fr grow IP delay w ev w'"
  shows "watched_inv IP w'"
proof -
  have late: "keep_alive_sleep + delay < KEEP_ALIVE_TIME"
    using assms(1) by simp
  have inv: "node_inv (wt_node w)" "known IP (wt_node w)" using assms(2) by (simp_all add: watched_inv_def)
  from assms(3) show ?thesis
  proof cases
    case (beat e nd t)
    obtain out where s: "node_step C fr grow (wt_node w) e (Inr (out, nd))" using beat(3) by (auto simp: node_next_def)
    have "e \<noteq> Heartbeats" using beat(6) by (auto simp: beats_def)
    then have "known IP nd" using step_known(1) [OF s inv] by blast
    then have "fresh_client IP nd" using beat_counts [OF beat(3,6) inv(1)] by (simp add: fresh_client_def)
    then show ?thesis using assms(2) beat \<open>known IP nd\<close> node.inv_step [OF inv(1) beat(3)]
      by (auto simp: watched_inv_def)
  next
    case (round nd t)
    obtain out where s: "node_step C fr grow (wt_node w) Heartbeats (Inr (out, nd))" using round(3) by (auto simp: node_next_def)
    have "wt_round w < wt_beat w" using round(5,6) late by linarith
    then have "known IP nd" using step_known(2) [OF s inv] assms(2) by (simp add: watched_inv_def)
    moreover have "wt_beat w \<le> t" using round(4) assms(2) by (simp add: watched_inv_def)
    ultimately show ?thesis using round(2) node.inv_step [OF inv(1) round(3)]
      by (simp add: watched_inv_def)
  next
    case (other e nd t)
    obtain out where s: "node_step C fr grow (wt_node w) e (Inr (out, nd))" using other(3) by (auto simp: node_next_def)
    then show ?thesis using step_known(1) [OF s inv other(6)] assms(2) other node.inv_step [OF inv(1) other(3)]
      by (auto simp: watched_inv_def)
  qed
qed

lemma watched_run_inv:
  assumes "run (watched_step C fr grow IP delay) w tes w'" "delay < KEEP_ALIVE_TIME - keep_alive_sleep" "watched_inv IP w"
  shows "watched_inv IP w'"
  using assms by (induction rule: run.induct) (blast intro: watched_step_inv)+

text \<open>
  C17: a client whose heartbeats arrive is never killed for their lack. The heartbeat loop sleeps 10 seconds
  between its rounds, the keep-alive thread 4 between its heartbeats; if no heartbeat is counted more than
  5 seconds late, the client stays in the map of connected clients over every round, from the
  moment it was accepted.\<close>

theorem timely_client_stays:
  assumes "run (node_next C fr grow) node_new es nd0" "delay \<le> 5"
    and "node_step C fr grow nd0 (Accept env) (Inr (out, nd))" "r < now"
    and "run (watched_step C fr grow (ae_ip env) delay) \<lparr>wt_node = nd, wt_now = now, wt_beat = now, wt_round = r\<rparr> tes w"
  shows "HasClientWithIP (nd_server (wt_node w)) (ae_ip env)"
proof -
  have inv0: "node_inv nd0" by (rule node.inv_run [OF assms(1) node_inv_new])
  have inv: "node_inv nd" using node.inv_step [OF inv0] assms(3) node_nextI by blast
  have "keep_alive_sleep = 4" by (simp add: keep_alive_sleep_def KEEP_ALIVE_TIME_def ceiling_eq_iff)
  then have "delay < KEEP_ALIVE_TIME - keep_alive_sleep" using assms(2) by (simp add: KEEP_ALIVE_TIME_def)
  moreover have "watched_inv (ae_ip env) \<lparr>wt_node = nd, wt_now = now, wt_beat = now, wt_round = r\<rparr>"
    using accept_known [OF assms(3) inv0] inv assms(4) by (simp add: watched_inv_def)
  ultimately have "watched_inv (ae_ip env) w" by (rule watched_run_inv [OF assms(5)])
  then show ?thesis by (simp add: watched_inv_def known_def)
qed

subsection \<open>A concrete run\<close>

text \<open>A client that starts late, and whose heartbeats come 4, 6 and 6 seconds apart, over two rounds.\<close>

lemma demo_counts: "node_next C fr Suc (demo_beats hb) (Receive 0 (Received heartbeat_msg))
    (demo_beats (map_set demo_peer True hb))"
proof (rule demo_receives [of _ hb "[]"])
  have "c_ip ((accepted demo_accept)\<lparr>c_threadHandler := Some 0\<rparr>) = demo_peer"
    "ns_heartbeats (nd_server (demo_beats hb)) = hb"
    by (simp_all add: accepted_def demo_ae_ip demo_beats_def)
  then show "NodeServer_ReceiveMessage ((accepted demo_accept)\<lparr>c_threadHandler := Some 0\<rparr>) heartbeat_msg
      (nd_server (demo_beats hb)) =
      Inr (map Out [], (nd_server (demo_beats hb))\<lparr>ns_heartbeats := map_set demo_peer True hb\<rparr>)"
    using ReceiveMessage_heartbeat [of _ "[]"] by (simp add: heartbeat_msg_def)
qed (simp add: heartbeat_msg_def packet_shapes packet_bytes_def MAX_PACKET_SIZE_def)

lemma demo_beats_beats: "beats demo_peer (demo_beats hb) (Receive 0 (Received heartbeat_msg))"
  unfolding beats_def
  by (intro exI [of _ 0] exI [of _ "(1, 0)"] exI [of _ "(accepted demo_accept)\<lparr>c_threadHandler := Some 0\<rparr>"] exI [of _ "[]"])
    (simp add: deref_def demo_beats_def demo_accepted_def demo_tcp_def accepted_def demo_ae_ip)

lemma demo_watched:
  "t0 \<le> t \<Longrightarrow> t \<le> b + 9 \<Longrightarrow> watched_step C fr Suc demo_peer 5
     \<lparr>wt_node = demo_beats hb, wt_now = t0, wt_beat = b, wt_round = r\<rparr> (t, Receive 0 (Received heartbeat_msg))
     \<lparr>wt_node = demo_beats (map_set demo_peer True hb), wt_now = t, wt_beat = t, wt_round = r\<rparr>"
  "t0 \<le> t \<Longrightarrow> t \<le> b + 9 \<Longrightarrow> r + 10 \<le> t \<Longrightarrow> watched_step C fr Suc demo_peer 5
     \<lparr>wt_node = demo_beats [(demo_peer, True)], wt_now = t0, wt_beat = b, wt_round = r\<rparr> (t, Heartbeats)
     \<lparr>wt_node = demo_beats [], wt_now = t, wt_beat = b, wt_round = t\<rparr>"
  "t0 \<le> t \<Longrightarrow> t \<le> b + 9 \<Longrightarrow> watched_step C fr Suc demo_peer 5
     \<lparr>wt_node = demo_accepted Starting, wt_now = t0, wt_beat = b, wt_round = r\<rparr> (t, Begin_receive 0)
     \<lparr>wt_node = demo_beats [(demo_peer, True)], wt_now = t, wt_beat = b, wt_round = r\<rparr>"
proof -
  have k: "keep_alive_sleep = 4" by (simp add: keep_alive_sleep_def KEEP_ALIVE_TIME_def ceiling_eq_iff)
  let ?w = "\<lambda>nd. \<lparr>wt_node = nd, wt_now = t0, wt_beat = b, wt_round = r\<rparr>"
  show "t0 \<le> t \<Longrightarrow> t \<le> b + 9 \<Longrightarrow> watched_step C fr Suc demo_peer 5
     (?w (demo_beats hb)) (t, Receive 0 (Received heartbeat_msg))
     \<lparr>wt_node = demo_beats (map_set demo_peer True hb), wt_now = t, wt_beat = t, wt_round = r\<rparr>"
    using watched_step.beat [of C fr Suc "?w (demo_beats hb)" "Receive 0 (Received heartbeat_msg)" _ t 5 demo_peer]
      demo_counts [of C fr hb] demo_beats_beats [of hb] by (simp add: k)
  show "t0 \<le> t \<Longrightarrow> t \<le> b + 9 \<Longrightarrow> r + 10 \<le> t \<Longrightarrow> watched_step C fr Suc demo_peer 5
     (?w (demo_beats [(demo_peer, True)])) (t, Heartbeats)
     \<lparr>wt_node = demo_beats [], wt_now = t, wt_beat = b, wt_round = t\<rparr>"
    using watched_step.round [of C fr Suc "?w (demo_beats [(demo_peer, True)])" _ t 5 demo_peer]
      demo_first_round [of C fr, unfolded demo_beats_accepted demo_silent_def] by (simp add: k KEEP_ALIVE_TIME_def)
  show "t0 \<le> t \<Longrightarrow> t \<le> b + 9 \<Longrightarrow> watched_step C fr Suc demo_peer 5
     (?w (demo_accepted Starting)) (t, Begin_receive 0)
     \<lparr>wt_node = demo_beats [(demo_peer, True)], wt_now = t, wt_beat = b, wt_round = r\<rparr>"
    using watched_step.other [of C fr Suc "?w (demo_accepted Starting)" "Begin_receive 0" _ t 5 demo_peer]
      demo_begin [of C fr, unfolded demo_beats_accepted] by (simp add: k beats_def)
qed

lemma timely_client_stays_witness:
  "\<exists>tes w. run (watched_step toy_crypto demo_fresh Suc demo_peer 5)
     \<lparr>wt_node = demo_accepted Starting, wt_now = 10, wt_beat = 10, wt_round = 9\<rparr> tes w \<and>
     map fst (filter (\<lambda>(t, ev). ev = Heartbeats) tes) = [19, 29] \<and> HasClientWithIP (nd_server (wt_node w)) demo_peer"
proof -
  let ?beat = "Receive 0 (Received heartbeat_msg)"
  let ?tes = "[(10, Begin_receive 0), (14, ?beat), (19, Heartbeats), (20, ?beat), (26, ?beat), (29, Heartbeats)]"
  let ?w = "\<lambda>nd now beat r. \<lparr>wt_node = nd, wt_now = now, wt_beat = beat, wt_round = r\<rparr> :: watched"
  obtain out where a: "node_step toy_crypto demo_fresh Suc demo_serving (Accept demo_accept) (Inr (out, demo_accepted Starting))"
    using demo_accepts by metis
  have "run (watched_step toy_crypto demo_fresh Suc demo_peer 5) (?w (demo_accepted Starting) 10 10 9) ?tes
      (?w (demo_beats []) 29 26 29)"
    using demo_watched(3) [of 10 10 10 toy_crypto demo_fresh 9]
      demo_watched(1) [of 10 14 10 toy_crypto demo_fresh "[(demo_peer, True)]" 9]
      demo_watched(2) [of 14 19 14 9 toy_crypto demo_fresh]
      demo_watched(1) [of 19 20 14 toy_crypto demo_fresh "[]" 19]
      demo_watched(1) [of 20 26 20 toy_crypto demo_fresh "[(demo_peer, True)]" 19]
      demo_watched(2) [of 26 29 26 19 toy_crypto demo_fresh]
    by (simp add: run_Cons_iff) blast
  then obtain w where w: "run (watched_step toy_crypto demo_fresh Suc (ae_ip demo_accept) 5)
      (?w (demo_accepted Starting) 10 10 9) ?tes w"
    unfolding demo_ae_ip by blast
  have n: "run (node_next toy_crypto demo_fresh Suc) node_new [Init_server demo_start] demo_serving"
    using demo_init by (simp add: run_single)
  from timely_client_stays [OF n _ a _ w] w show ?thesis
    unfolding demo_ae_ip by (intro exI [of _ ?tes] exI [of _ w]) simp
qed

end
