(* ===== verification/Spec2Isabelle.thy ===== *)
theory Spec2Isabelle
  imports Driver Timing
begin

text \<open>
  A model of DaveCoin, a peer-to-peer coin node in C++ (all paths under \<open>src/src/\<close>), and the
  properties of it that are proved. Every theory models one part of the program in the order of its
  sources; this one imports them all and holds the properties that cross the parts.

  The program. A node signs transactions with DSA keys (sig.cpp), builds transactions and blocks of
  them and writes both in a binary format (tx.cpp, blockchain.cpp), mines blocks (mine.cpp), and
  exchanges typed packets with other nodes (jumbopacket.cpp). It is a server and a client at once:
  server.cpp keeps the clients that connected to it, kills those that send no heartbeat and
  broadcasts mined blocks; client.cpp connects to the servers listed in a file, sends heartbeats and
  messages, and prints what it gets. Both sit on a small TCP library (tcp/).

  The theories.
  \<^item> Runs: runs of a step relation, and the locales that the step relations below are interpreted in:
    invariants, projection of a system to a part, states that can be driven to an end.
  \<^item> Prelude: words, \<open>std::string\<close> as a list of bytes, the errors and the result type.
  \<^item> Bytes: little-endian stores, the loads from \<open>c_str()\<close> with their bound, the counted decode
    loop; locales for decoders that read at a cursor.
  \<^item> Sig (sig.hpp, sig.cpp): CryptoPP is the parameter record \<open>cryptopp\<close>; \<open>crypto_laws\<close> states what
    its documentation promises (keys decode from what they save, a signature verifies under the
    public key of its private key, a digest has 32 bytes). The locale \<open>signature_scheme\<close> is
    interpreted on the program's own operations, and \<open>toy_crypto\<close> satisfies the laws.
  \<^item> Transaction (tx.hpp, tx.cpp): inputs, outputs, transactions; serialisers, decoders, signing.
  \<^item> Chain (blockchain.hpp, blockchain.cpp): blocks, their format and hash, the chain's stubs.
  \<^item> JumboPacket (jumbopacket.hpp, jumbopacket.cpp): packets, headers, the five formats; the locale
    \<open>packet_format\<close> is what the dispatchers of both sides use.
  \<^item> Mining (mine.hpp, mine.cpp): the proof-of-work test and the search against its specification.
  \<^item> Net (tcp/include/pipe_ret_t.h): verdicts of sends, answers of \<open>recv\<close>, effects, \<open>std::map\<close>;
    the locales \<open>publisher\<close> and \<open>std_map\<close>.
  \<^item> TcpServer (tcp/src/tcp_server.cpp, tclient.cpp): the vector of clients with what its copies and
    destructors do to the thread handles; the locale \<open>client_table\<close>.
  \<^item> ServerThreads (tcp/src/tcp_server.cpp): its receive threads, accepts and kills as a step relation.
  \<^item> TcpClient (tcp/src/tcp_client.cpp): connecting, sending, the receive loop.
  \<^item> NodeServer (server.hpp, server.cpp): the node's server; its endless loops are rounds.
  \<^item> NodeClient (client.hpp, client.cpp): the node's client: objects, connections, \<open>Init\<close>.
  \<^item> ClientThreads (client.cpp): the threads of the client side as a step relation. The store that
    \<open>ConnectToServer\<close> makes after it started a thread is a step of its own, and so is the erasure of
    an entry of \<open>active_clients\<close> after its object was deleted.
  \<^item> ClientEnd (client.cpp): how the client side comes to an end; the main loop.
  \<^item> Node, NodeRuns (server.cpp, client.cpp): both \<open>Init\<close> functions and all their threads on one state;
    its runs project to those of ServerThreads and ClientThreads.
  \<^item> Link: the stream between a client's sends and a server's \<open>recv\<close> calls.
  \<^item> Timing: the sleeps of the heartbeat loop and of the keep-alive threads, on the runs of a node.
  \<^item> Driver (jc.cpp): \<open>main\<close> and its tests; the node it starts is the initial state of Node.

  How code becomes model. A struct is a record with the code's fields under a prefix, a function a
  definition of its name, with a prefix where two parts share a name. An exception, an access outside
  a buffer, the use of freed memory and a read of an unset value are values of \<open>error\<close>: the model
  stops there. Answers of the operating system, the clock, the random source and uninitialised
  memory are arguments; a \<open>bool\<close> that was never set and reads as true stops the model, one that reads as
  false goes on. What a component hands to the outside (sends, closes, calls of observers,
  output) is a list of effects, in order. \<open>Client *\<close> is an index and the generation of the vector's
  buffer, a \<open>NClient *\<close> a number in a heap.

  What is shown. Round trips of transactions, blocks and packets, with the exact inputs on which they hold,
  and what the decoders do on all others: the coins of an output are written as 8 bytes and read as 4, so
  that a second output is refused and a second transaction of a block sends the reader out of the buffer.
  The miner computes its specification and always ends at 10000 attempts. The TCP server is safe on
  schedules where clients fit its first buffer, are accepted one after the other's thread has started, leave
  in reverse order of arrival and are not killed; any other departure, a kill or an eleventh client leaves a
  thread with a dangling pointer. The heartbeat round that returns kills exactly the silent clients, and a
  client whose heartbeats come on time stays, unless the network delivers them behind other messages. The
  client side uses a deleted object only in receive threads, in the late store of
  \<open>ConnectToServer\<close> and in a scan of \<open>active_clients\<close> that comes between a
  deletion and its erasure, where every scan does. It has one connection per server when connections are
  requested one at a time, and can come to its end from every state; its main loop stops at the first
  connection whose thread still runs. A whole node keeps the types of its state, fails only in the ways
  listed for each of its threads, answers a poke with a connection unless an entry of
  \<open>active_clients\<close> has the address, be it over, and does not poke back. The program prints its
  two lines of success and starts the node, or ends through its key files.

  Bounds. The nonce loop ends by a measure, the outer loop of the miner is a partial function shown to
  return on every input (theory Mining), the main loop of the client ends by the length of
  \<open>active_clients\<close> (theory ClientEnd). No function uses fuel. Counters of 32 bits over vectors
  (\<open>uint i\<close>) are natural numbers: a vector of 2^32 elements is not modelled.

  Time. The step relations have none but in theory Timing, where a step has a second and the rounds of
  the heartbeat loop are at least \<open>KEEP_ALIVE_TIME\<close> apart; how late a heartbeat is counted is a bound
  that the theorem names.

  Not modelled. The bytes of CryptoPP; the binding of ports. A round of a loop is one step of a step
  relation, so data races inside a round are not seen, but the two inside \<open>ConnectToServer\<close> and
  the main loop of the client that are steps of their own. In particular the scan of
  \<open>active_clients\<close> is one step (another thread's \<open>push_back\<close> or
  \<open>erase\<close> in the middle of it is not seen), and so are an accept, the start of its receive
  thread and the two entries of the server's maps (a message handled before the entries are made is not
  seen). A decoder has no check of bounds: that it stops at the first byte outside its buffer is the
  model's. The three joins at the end of \<open>NodeServer::Init\<close> never return, as its loops are
  endless, and have no step. The names that the key files and the peers file have in the file system are
  kept, their directories are not.

  Left for later: a network of nodes with a stream per connection; \<open>send\<close> that blocks; the receive
  thread of a \<open>TcpClient\<close> that \<open>~TcpClient\<close> detaches, beyond its dangling.
\<close>

section \<open>From the miner of one node to the client of another\<close>

lemma MineBlock_sendable:
  assumes "MineBlock C clock b = Some (b', out)" "block_sendable C b"
  shows "block_sendable C b'"
proof -
  have "block_sendable C (tried C b n)" for n
    using assms(2) by (simp add: block_sendable_def block_ok_def block_relayable_def)
  then show ?thesis
    using assms(1) by (cases rule: mine_spec_cases [of C b]) (auto simp: MineBlock_mine_spec)
qed

lemma mine_loop_block_sendable: "crypto_laws C \<Longrightarrow> block_sendable C (mine_loop_block C fr pk)"
  by (simp add: block_sendable_def block_ok_def block_relayable_def mine_loop_block_def Block_new_def
      crypto_laws_key_ok)

lemma MineBlock_packets:
  assumes "MineBlock C clock b = Some (b', out)"
  shows "out = [] \<or> out = [SerializeMinedBlock C b'] \<and> IsMined b'"
  using assms by (cases rule: mine_spec_cases [of C b]) (auto simp: MineBlock_mine_spec solves_def)

lemma client_accepts_mined_block:
  assumes "block_sendable C b"
  shows "NodeClient_ReceiveMessage C fr (ep_serial (SerializeMinedBlock C b)) =
           Inr [Cout (lit (''CLIENT GOT MINED BLOCK'' @ newline))]"
  using mined_block.roundtrip [OF assms, of fr]
  by (auto simp: NodeClient_ReceiveMessage_def type_defs)

text \<open>
  C7: what the miner loop of a node sends is one message, handed to the clients of its server, that
  carries a mined block; a client that gets the message in one piece decodes it and reports a
  mined block.\<close>

theorem mined_block_delivered:
  assumes "crypto_laws C" "mine_loop C rng fr clock os ns = Inr (Some out)" "out \<noteq> []"
  shows "\<exists>b. out = map Tcp (fst (sendToAllClients os (ep_serial (SerializeMinedBlock C b)) (ns_tserver ns)))
    \<and> IsMined b \<and> b_hash b = CalculateSHA256 C (Block_Serialize C b)
    \<and> NodeClient_ReceiveMessage C fr' (ep_serial (SerializeMinedBlock C b)) =
        Inr [Cout (lit (''CLIENT GOT MINED BLOCK'' @ newline))]"
proof -
  obtain pk b packets where m: "MineBlock C clock (mine_loop_block C fr pk) = Some (b, packets)"
    and out: "out = concat (map (\<lambda>packet. SendMessageToAllClients os packet ns) packets)"
    using assms(2) by (auto simp: mine_loop_def)
  have p: "packets = [SerializeMinedBlock C b]" "IsMined b"
    using MineBlock_packets [OF m] out assms(3) by auto
  have "block_sendable C b" using MineBlock_sendable [OF m mine_loop_block_sendable [OF assms(1)]] .
  moreover have "b_hash b = CalculateSHA256 C (Block_Serialize C b)"
    using m tried_hash by (cases rule: mine_spec_cases [of C "mine_loop_block C fr pk"])
      (auto simp: MineBlock_mine_spec CalculateSHA256_def)
  ultimately show ?thesis using p out client_accepts_mined_block
    by (auto simp: SendMessageToAllClients_def)
qed

section \<open>Heartbeats and pokes, from client to server\<close>

text \<open>
  What a keep-alive round that succeeds sends is what the server counts as a heartbeat of the
  connection it comes from, and nothing else.\<close>

theorem keep_alive_counts:
  assumes "keep_alive_round os nc = (out, True, nc')"
  shows "\<exists>m. out = [Net (Send_fd (tc_sockfd (nc_client nc)) m)] \<and> nc' = nc \<and>
     NodeServer_ReceiveMessage c m ns =
       Inr ([], ns\<lparr>ns_heartbeats := map_set (c_ip c) True (ns_heartbeats ns)\<rparr>)"
proof -
  have "out = [Net (Send_fd (tc_sockfd (nc_client nc)) (ep_serial SerializeHeartbeat))] \<and> nc' = nc"
    using assms by (auto simp: keep_alive_round_def nc_SendMessage_def sendMsg_def split: if_splits)
  then show ?thesis using ReceiveMessage_heartbeat [of c "[]" ns] by simp
qed

text \<open>
  A node that connects to a server it is not connected from pokes it with its own address, but
  the server asks for a connection to the address the connection comes from, whatever the poke
  says.\<close>

theorem poke_uses_connection_address:
  assumes "cn_heap cn k = Some nc0" "ce_socket env \<noteq> -1" "ce_inet_aton env = Some a" "ce_connect env \<noteq> -1"
    and "fst (GetMyIP ip) = Inr me"
  shows "\<exists>out cn'. initialize_client_connection env False ip os IP k cn = Inr (out, cn') \<and>
     Net (Send_fd (ce_socket env) (ep_serial (SerializeClientPoke me))) \<in> set out \<and>
     NodeServer_ReceiveMessage c (ep_serial (SerializeClientPoke me)) ns = Inr ([Connect_to (c_ip c)], ns)"
proof -
  have "NodeServer_ReceiveMessage c (ep_serial (SerializeClientPoke me)) ns = Inr ([Connect_to (c_ip c)], ns)"
    using client_poke.header [of me "[]"] by (simp add: NodeServer_ReceiveMessage_def type_defs)
  then show ?thesis using assms
    by (auto simp: initialize_client_connection_def heap_get_def Let_def connectTo_def resolve_def
        pipe_ret_new_def set_up_def nc_SendMessage_def sendMsg_def)
qed

section \<open>What the receive buffer does to long messages\<close>

text \<open>
  A mined block whose packet is longer than the receive buffer never reaches an observer of the
  client in one call, however \<open>recv\<close> cuts the stream.\<close>

theorem long_block_never_whole:
  assumes "list_all recv_ok rs" "MAX_PACKET_SIZE < length (ep_serial (SerializeMinedBlock C b))"
  shows "Call_message f () (ep_serial (SerializeMinedBlock C b)) \<notin> set (fst (ReceiveTask cl rs s))"
  using ReceiveTask_piece_size [OF assms(1)] assms(2) by fastforce

section \<open>Witnesses\<close>

definition demo_clock_fresh :: fresh where
  "demo_clock_fresh = demo_fresh\<lparr>fr_now := 150\<rparr>"

lemma demo_mine_solution: "first_solution toy_crypto (mine_loop_block toy_crypto demo_clock_fresh 3) = Some 0"
proof -
  have "solves toy_crypto (mine_loop_block toy_crypto demo_clock_fresh 3) 0"
    by (simp add: solves_def tried_def Block_Hash_def Let_def CalculateSHA256_def IsMined_iff
        mine_loop_block_def Block_new_def demo_clock_fresh_def demo_fresh_def toy_crypto_def
        Block_Serialize_def lit_def of_char_def le_bytes_unfold sum_list_replicate)
  then show ?thesis by (simp add: first_solution_Some)
qed

lemma mined_block_delivered_witness:
  "\<exists>out b. mine_loop toy_crypto 3 demo_clock_fresh (\<lambda>_. 0) (\<lambda>_. (0, [])) demo_node = Inr (Some out) \<and>
     out \<noteq> [] \<and> IsMined b \<and>
     NodeClient_ReceiveMessage toy_crypto demo_fresh (ep_serial (SerializeMinedBlock toy_crypto b)) =
       Inr [Cout (lit (''CLIENT GOT MINED BLOCK'' @ newline))]"
proof -
  have g: "GenerateKeys toy_crypto 3 = Inr (3, 3)" by (simp add: GenerateKeys_def toy_crypto_def)
  let ?b = "mine_loop_block toy_crypto demo_clock_fresh 3"
  have m: "MineBlock toy_crypto (\<lambda>_. 0) ?b = Some (tried toy_crypto ?b 0, [SerializeMinedBlock toy_crypto (tried toy_crypto ?b 0)])"
    by (simp add: MineBlock_mine_spec mine_spec_def demo_mine_solution)
  obtain out where o: "mine_loop toy_crypto 3 demo_clock_fresh (\<lambda>_. 0) (\<lambda>_. (0, [])) demo_node = Inr (Some out)"
    and ne: "out \<noteq> []"
    by (simp add: mine_loop_def g m SendMessageToAllClients_def sendToAllClients_def demo_node_def
        subscribe_def demo_server_def sendToClient_def Let_def split_beta)
  from mined_block_delivered [OF toy_crypto_laws o ne, of demo_fresh] o ne show ?thesis by blast
qed

lemma keep_alive_counts_witness:
  "\<exists>m. fst (keep_alive_round (6, []) (demo_nclient True)) = [Net (Send_fd 7 m)] \<and>
     NodeServer_ReceiveMessage demo_client_b m demo_node =
       Inr ([], demo_node\<lparr>ns_heartbeats := map_set (c_ip demo_client_b) True (ns_heartbeats demo_node)\<rparr>)"
proof -
  have l: "length (ep_serial SerializeHeartbeat) = 6" by (simp add: packet_shapes)
  obtain out nc' where r: "keep_alive_round (6, []) (demo_nclient True) = (out, True, nc')"
    by (simp add: keep_alive_round_def demo_nclient_def nc_SendMessage_def sendMsg_def l)
  have "tc_sockfd (nc_client (demo_nclient True)) = 7" by (simp add: demo_nclient_def)
  with keep_alive_counts [OF r, of demo_client_b demo_node] r show ?thesis by auto
qed

lemma poke_uses_connection_address_witness:
  "\<exists>out cn'. initialize_client_connection demo_connect False demo_ip (0, []) (lit ''10.0.0.1'') 0
       demo_pending = Inr (out, cn') \<and>
     Net (Send_fd 7 (ep_serial (SerializeClientPoke (lit ''10.0.0.2'')))) \<in> set out \<and>
     NodeServer_ReceiveMessage demo_client_a (ep_serial (SerializeClientPoke (lit ''10.0.0.2''))) demo_node =
       Inr ([Connect_to (lit ''10.0.0.1'')], demo_node)"
proof -
  have h: "cn_heap demo_pending 0 = Some (demo_fresh_nclient True)" by (simp add: demo_cn_def)
  have e: "ce_socket demo_connect \<noteq> -1" "ce_inet_aton demo_connect = Some 0x0100007F"
    "ce_connect demo_connect \<noteq> -1" "ce_socket demo_connect = 7" by (simp_all add: demo_connect_def)
  have me: "fst (GetMyIP demo_ip) = Inr (lit ''10.0.0.2'')" by (simp add: GetMyIP_def demo_ip_def)
  have a: "c_ip demo_client_a = lit ''10.0.0.1''" by (simp add: demo_client_a_def)
  from poke_uses_connection_address [OF h e(1-3) me, of "(0, [])" "lit ''10.0.0.1''" demo_client_a demo_node]
  show ?thesis unfolding e(4) a by blast
qed

lemma long_block_never_whole_witness:
  "Call_message 3 () (ep_serial (SerializeMinedBlock toy_crypto (demo_block\<lparr>b_prev_hash := replicate 5000 0\<rparr>)))
     \<notin> set (fst (ReceiveTask (0, []) [Received [1], Peer_closed] (TcpClient_new)))"
proof (rule long_block_never_whole)
  show "MAX_PACKET_SIZE < length (ep_serial (SerializeMinedBlock toy_crypto (demo_block\<lparr>b_prev_hash := replicate 5000 0\<rparr>)))"
    by (simp add: packet_shapes Block_Serialize_def Let_def MAX_PACKET_SIZE_def)
qed (simp add: MAX_PACKET_SIZE_def)

end
